(* ===== verification/OTA_Prelude.thy ===== *)
theory OTA_Prelude
  imports Main "HOL-Library.Word" "HOL-Library.AList"
begin

text \<open>
  Shared vocabulary of the development: Go's error values as a datatype and fallible
  results as a sum, byte strings, instants and durations, the machine words used for
  Go's \<open>uint64\<close> and \<open>uint32\<close>, and the lemmas on association lists (Go maps), lists and
  words that the component theories share. The collections \<open>ota_defs\<close> and
  \<open>ota_frame\<close> carry the routine steps of the component proofs.
\<close>

named_theorems ota_defs "small definitions that component proofs unfold"
named_theorems ota_frame "fields an operation leaves alone"

section \<open>Errors and results\<close>

text \<open>
  Go's \<open>error\<close> is an interface value. The program builds errors from messages
  (\<open>errors.New\<close>, \<open>fmt.Errorf\<close>), compares against the two sentinels \<open>ErrDeferred\<close> and
  \<open>ErrJitter\<close> (\<open>errors.Is\<close>) and recognises \<open>*HealthError\<close> (\<open>errors.As\<close>). A function that
  returns only an \<open>error\<close> returns an \<open>error option\<close> here, with \<open>None\<close> for \<open>nil\<close>;
  a function that returns a value and an \<open>error\<close> returns a sum.
\<close>

datatype error =
    Err string
  | ErrDeferred
  | ErrJitter
  | HealthError string error

type_synonym 'a result = "error + 'a"

primrec err_text :: "error \<Rightarrow> string" where
  "err_text (Err m) = m"
| "err_text ErrDeferred = ''deferred: outside download window''"
| "err_text ErrJitter = ''deferred: download jitter''"
| "err_text (HealthError n e) = err_text e"

definition is_ok :: "'a result \<Rightarrow> bool" where
  "is_ok r \<longleftrightarrow> (case r of Inl _ \<Rightarrow> False | Inr _ \<Rightarrow> True)"

lemma is_ok_simps [simp]: "is_ok (Inr x)" "\<not> is_ok (Inl e)"
  by (simp_all add: is_ok_def)

lemma is_ok_iff: "is_ok r \<longleftrightarrow> (\<exists>x. r = Inr x)"
  by (cases r) auto

section \<open>Bytes, instants, words\<close>

text \<open>
  Go strings and byte slices are both byte sequences, so both are \<open>char list\<close>. An
  instant (\<open>time.Time\<close>) is the number of nanoseconds since Go's zero instant, so the zero
  value is \<open>0\<close> and \<open>IsZero\<close> is a comparison with it. \<open>Sub\<close> saturates at the bounds of a
  64-bit duration.
\<close>

type_synonym bytes = string
type_synonym time = int
type_synonym duration = int
type_synonym u64 = "64 word"
type_synonym u32 = "32 word"

definition seconds :: "int \<Rightarrow> duration" where
  [ota_defs]: "seconds n = n * 1000000000"

definition time_sub :: "time \<Rightarrow> time \<Rightarrow> duration" where
  "time_sub a b = max (- (2 ^ 63)) (min (2 ^ 63 - 1) (a - b))"

definition minutes30 :: duration where
  "minutes30 = seconds 1800"

lemma time_sub_self [simp]: "time_sub t t = 0"
  by (simp add: time_sub_def)

lemma time_sub_exact:
  assumes "\<bar>a - b\<bar> < 2 ^ 63"
  shows "time_sub a b = a - b"
  using assms by (simp add: time_sub_def)

lemma time_sub_ge_iff:
  assumes "0 \<le> d" "d < 2 ^ 63"
  shows "time_sub a b < d \<longleftrightarrow> a - b < d"
  using assms by (auto simp: time_sub_def)

section \<open>Go maps as association lists\<close>

text \<open>
  A Go map is an association list with distinct keys: \<open>map_of\<close> looks up,
  \<open>AList.update\<close> stores, \<open>AList.delete\<close> removes, and the order of the list stands for the
  (unspecified) order in which \<open>range\<close> visits the entries.
\<close>

abbreviation keys :: "('k \<times> 'v) list \<Rightarrow> 'k list" where
  "keys m \<equiv> map fst m"

lemma map_of_update [simp]:
  "map_of (AList.update k v m) = (map_of m)(k \<mapsto> v)"
  by (simp add: update_conv')

lemma map_of_delete_upd [simp]:
  "map_of (AList.delete k m) = (map_of m)(k := None)"
  by (simp add: delete_conv')

lemma distinct_keys_update [simp]:
  "distinct (keys m) \<Longrightarrow> distinct (keys (AList.update k v m))"
  by (rule distinct_update)

lemma distinct_keys_delete [simp]:
  "distinct (keys m) \<Longrightarrow> distinct (keys (AList.delete k m))"
  by (rule distinct_delete)

lemma set_alist_update:
  "distinct (keys m) \<Longrightarrow>
    set (AList.update k v m) = insert (k, v) {p \<in> set m. fst p \<noteq> k}"
  by (induction m) (auto simp: image_iff)

lemma set_delete_eq: "set (AList.delete k m) = {p \<in> set m. fst p \<noteq> k}"
  by (auto simp: AList.delete_eq)

lemma length_delete_present:
  "distinct (keys m) \<Longrightarrow> k \<in> set (keys m) \<Longrightarrow> Suc (length (AList.delete k m)) = length m"
proof (induction m)
  case (Cons p m)
  show ?case
  proof (cases "fst p = k")
    case True
    with Cons.prems have "AList.delete k m = m"
      by (auto simp: AList.delete_eq filter_id_conv image_iff)
    with True show ?thesis by (cases p) (simp add: AList.delete_eq)
  next
    case False
    with Cons show ?thesis by (cases p) (simp add: AList.delete_eq)
  qed
qed simp

lemma length_update_le: "length (AList.update k v m) \<le> Suc (length m)"
  by (induction m) auto

lemma length_update_present:
  "k \<in> set (keys m) \<Longrightarrow> length (AList.update k v m) = length m"
  by (induction m) auto

lemma map_of_SomeI: "distinct (keys m) \<Longrightarrow> (k, v) \<in> set m \<Longrightarrow> map_of m k = Some v"
  by simp

section \<open>Lists and words\<close>

lemma count_list_filter_eq: "count_list (filter ((=) x) xs) x = count_list xs x"
  by (induction xs) auto

lemma list_all_dropWhile: "list_all P xs \<Longrightarrow> list_all P (dropWhile Q xs)"
  by (induction xs) auto

lemma sorted_wrt_dropWhileI: "sorted_wrt R xs \<Longrightarrow> sorted_wrt R (dropWhile P xs)"
  by (induction xs) auto

lemma dropWhile_sorted_filter:
  fixes f :: "'a \<Rightarrow> 'b :: linorder"
  assumes "sorted_wrt (\<lambda>a b. f a < f b) xs"
  shows "dropWhile (\<lambda>x. f x \<le> n) xs = filter (\<lambda>x. n < f x) xs"
  using assms
proof (induction xs)
  case (Cons x xs)
  show ?case
  proof (cases "f x \<le> n")
    case True
    with Cons show ?thesis by simp
  next
    case False
    with Cons.prems have "\<forall>y \<in> set xs. n < f y" by (auto dest: less_trans)
    with False show ?thesis by (simp add: filter_id_conv)
  qed
qed simp

lemma u64_less_Suc:
  fixes n :: u64
  assumes "1 + n \<noteq> 0"
  shows "n < 1 + n"
  using unatSuc [OF assms] by (simp add: word_less_nat_alt)

text \<open>
  Bounds on lengths are natural numbers in the thousands; evaluation compares them as binary
  integers.
\<close>

lemma nat_limit_code [code_unfold]:
  "(nat_of_num k < (n::nat)) = (numeral k < int n)" "(n < nat_of_num k) = (int n < numeral k)"
  "(nat_of_num k \<le> n) = (numeral k \<le> int n)" "(n \<le> nat_of_num k) = (int n \<le> numeral k)"
  by (simp_all add: nat_of_num_numeral)

end
