(* ===== verification/OTA_Model.thy ===== *)
theory OTA_Model
  imports OTA_Prelude
begin

text \<open>
  The data model of the agent (\<open>internal/ota/model.go\<close>): releases, targets, envelopes,
  assignments, the device configuration with its validation, the job lifecycle states,
  the journal (\<open>Database\<close>) and its events. The validators of the optional relay and OTLP
  settings (\<open>internal/ota/trace.go\<close>) belong to \<open>Config.Validate\<close> and are here too.

  Field names carry a prefix for their struct. \<open>int\<close> and \<open>int64\<close> fields are \<open>int\<close>;
  \<open>uint64\<close> fields are 64-bit words.
\<close>

unbundle bit_operations_syntax

section \<open>Structs\<close>

record Artifact =
  art_URL :: string
  art_SHA256 :: string
  art_Size :: int

definition zero_Artifact :: Artifact where
  "zero_Artifact = \<lparr>art_URL = [], art_SHA256 = [], art_Size = 0\<rparr>"

record Target =
  tgt_ID :: string
  tgt_Type :: string
  tgt_Artifact :: Artifact
  tgt_Reboot :: string
  tgt_Health :: string
  tgt_Requires :: string
  tgt_DependsOn :: "string list"
  tgt_Rollback :: string
  tgt_StorageBytes :: int

record Release =
  rel_Schema :: int
  rel_ID :: string
  rel_Sequence :: u64
  rel_Compatible :: string
  rel_Backend :: string
  rel_Version :: string
  rel_Expires :: time
  rel_Artifact :: Artifact
  rel_SBOMSHA256 :: string
  rel_SBOM :: Artifact
  rel_Targets :: "Target list"
  rel_Adaptive :: bool
  rel_RequiresMeasuredBoot :: bool
  rel_SBOMKeyID :: string
  rel_SBOMSignature :: bytes

record Envelope =
  env_KeyID :: string
  env_Payload :: bytes
  env_Signature :: bytes

record Assignment =
  asg_JobID :: string
  asg_DeviceID :: string
  asg_Release :: Envelope
  asg_NotBefore :: time
  asg_Deadline :: time
  asg_AutoReboot :: bool
  asg_CampaignID :: string

record Check =
  chk_Kind :: string
  chk_Target :: string
  chk_Name :: string

record Config =
  cfg_DeviceID :: string
  cfg_Compatible :: string
  cfg_StateDir :: string
  cfg_Socket :: string
  cfg_Backend :: string
  cfg_AllowDeviceWrites :: bool
  cfg_TrustKeys :: "(string \<times> string) list"
  cfg_DownloadHosts :: "string list"
  cfg_MaxArtifactBytes :: int
  cfg_ReserveBytes :: u64
  cfg_HealthTimeoutSeconds :: int
  cfg_HealthStableSeconds :: int
  cfg_Checks :: "Check list"
  cfg_Capabilities :: "string list"
  cfg_BandwidthBytesPerSec :: int
  cfg_DownloadJitterSeconds :: int
  cfg_DownloadWindowStart :: string
  cfg_DownloadWindowEnd :: string
  cfg_LocalMediaDir :: string
  cfg_AllowAdaptive :: bool
  cfg_OTLPEndpoint :: string
  cfg_OTLPTokenFile :: string
  cfg_RelayURL :: string
  cfg_RelayTokenFile :: string
  cfg_TrustDir :: string
  cfg_RootSHA256 :: string
  cfg_RequireSBOMSignature :: bool
  cfg_FleetURL :: string
  cfg_FleetTokenFile :: string
  cfg_FleetCA :: string
  cfg_FleetCert :: string
  cfg_FleetKey :: string

section \<open>Identifiers and digests\<close>

text \<open>The two regular expressions of the package, as character tests.\<close>

definition is_alnum :: "char \<Rightarrow> bool" where
  "is_alnum c \<longleftrightarrow> c \<in> set ''abcdefghijklmnopqrstuvwxyzABCDEFGHIJKLMNOPQRSTUVWXYZ0123456789''"

definition is_idchar :: "char \<Rightarrow> bool" where
  "is_idchar c \<longleftrightarrow> is_alnum c \<or> c \<in> set ''._-''"

definition is_identifier :: "string \<Rightarrow> bool" where
  "is_identifier s = (case s of [] \<Rightarrow> False
     | c # cs \<Rightarrow> is_alnum c \<and> length cs \<le> 95 \<and> list_all is_idchar cs)"

definition is_hexchar :: "char \<Rightarrow> bool" where
  "is_hexchar c \<longleftrightarrow> c \<in> set ''abcdef0123456789''"

definition digestPattern :: "string \<Rightarrow> bool" where
  "digestPattern s \<longleftrightarrow> length s = 64 \<and> list_all is_hexchar s"

section \<open>URLs\<close>

text \<open>
  \<open>net/url.Parse\<close> is taken as a function from the text to the parts the agent reads, or
  \<open>None\<close> where it returns an error; every definition that parses a URL takes it as an
  argument, so nothing depends on how a particular text is split.
\<close>

record URL =
  url_Scheme :: string
  url_HasUser :: bool
  url_Host :: string
  url_Hostname :: string
  url_Path :: string
  url_RawQuery :: string
  url_Fragment :: string

type_synonym url_parser = "string \<Rightarrow> URL option"

definition is_loopback :: "URL \<Rightarrow> bool" where
  "is_loopback u \<longleftrightarrow> url_Hostname u = ''127.0.0.1'' \<or> url_Hostname u = ''::1''"

definition IsAbs :: "string \<Rightarrow> bool" where
  "IsAbs p \<longleftrightarrow> (case p of [] \<Rightarrow> False | c # _ \<Rightarrow> c = CHR ''/'')"

section \<open>The daily download window\<close>

text \<open>
  \<open>parseClock\<close> scans with \<open>fmt.Sscanf(v, "%d:%d")\<close>: each verb skips leading white space
  (a newline is an error), takes an optional sign and at least one digit, and whatever
  follows the second number is ignored. The two-byte encodings of U+0085 and U+00A0 are
  white space to the scanner as well.
\<close>

definition is_digit :: "char \<Rightarrow> bool" where
  "is_digit c \<longleftrightarrow> c \<in> set ''0123456789''"

definition digit_val :: "char \<Rightarrow> int" where
  "digit_val c = int (of_char c) - 48"

fun skip_space :: "string \<Rightarrow> string option" where
  "skip_space [] = Some []"
| "skip_space (c # cs) =
     (if c = CHR 0x0A then None
      else if c \<in> {CHR 0x20, CHR 0x09, CHR 0x0B, CHR 0x0C, CHR 0x0D} then skip_space cs
      else if c = CHR 0xC2 then
        (case cs of [] \<Rightarrow> Some (c # cs)
         | d # ds \<Rightarrow> if d = CHR 0x85 \<or> d = CHR 0xA0 then skip_space ds else Some (c # cs))
      else Some (c # cs))"

fun scan_digits :: "int \<Rightarrow> string \<Rightarrow> int \<times> string" where
  "scan_digits acc [] = (acc, [])"
| "scan_digits acc (c # cs) =
     (if is_digit c then scan_digits (acc * 10 + digit_val c) cs else (acc, c # cs))"

definition scan_unsigned :: "string \<Rightarrow> (int \<times> string) option" where
  "scan_unsigned s = (case s of [] \<Rightarrow> None
     | c # _ \<Rightarrow> if is_digit c then Some (scan_digits 0 s) else None)"

definition scan_int :: "string \<Rightarrow> (int \<times> string) option" where
  "scan_int s = (case skip_space s of
       None \<Rightarrow> None
     | Some [] \<Rightarrow> None
     | Some (c # cs) \<Rightarrow>
         if c = CHR ''-'' then map_option (\<lambda>(n, r). (- n, r)) (scan_unsigned cs)
         else if c = CHR ''+'' then scan_unsigned cs
         else scan_unsigned (c # cs))"

definition scan_clock :: "string \<Rightarrow> (int \<times> int) option" where
  "scan_clock v = (case scan_int v of
       None \<Rightarrow> None
     | Some (h, r) \<Rightarrow> (case r of [] \<Rightarrow> None
         | c # r' \<Rightarrow> if c \<noteq> CHR '':'' then None
             else (case scan_int r' of None \<Rightarrow> None | Some (m, _) \<Rightarrow> Some (h, m))))"

definition parseClock :: "string \<Rightarrow> (int \<times> int) result" where
  "parseClock v = (case scan_clock v of
       None \<Rightarrow> Inl (Err ''download window must be HH:MM'')
     | Some (h, m) \<Rightarrow>
         if h < 0 \<or> h > 23 \<or> m < 0 \<or> m > 59 \<or> length v \<noteq> 5
         then Inl (Err ''download window must be HH:MM'')
         else Inr (h, m))"

text \<open>
  \<open>cur\<close> is \<open>now.Hour()*60 + now.Minute()\<close> in the device's local zone; the zone is a
  function \<open>local_minute\<close> from instants to minutes of the day.
\<close>

definition DownloadAllowed :: "(time \<Rightarrow> int) \<Rightarrow> Config \<Rightarrow> time \<Rightarrow> error option" where
  "DownloadAllowed local_minute c now =
     (if cfg_DownloadWindowStart c = [] then None
      else case parseClock (cfg_DownloadWindowStart c) of
        Inl e \<Rightarrow> Some e
      | Inr (sh, sm) \<Rightarrow> (case parseClock (cfg_DownloadWindowEnd c) of
          Inl e \<Rightarrow> Some e
        | Inr (eh, em) \<Rightarrow>
            (let cur = local_minute now;
                 start = sh * 60 + sm;
                 end' = eh * 60 + em;
                 inside = (if start \<le> end' then cur \<ge> start \<and> cur < end'
                           else cur \<ge> start \<or> cur < end')
             in if \<not> inside then Some ErrDeferred else None)))"

section \<open>The download jitter\<close>

definition fnv32a_step :: "u32 \<Rightarrow> char \<Rightarrow> u32" where
  "fnv32a_step h c = (h XOR of_nat (of_char c)) * 16777619"

definition fnv32a :: "bytes \<Rightarrow> u32" where
  "fnv32a bs = foldl fnv32a_step 2166136261 bs"

definition DownloadJitter :: "Config \<Rightarrow> duration" where
  "DownloadJitter c =
     (if cfg_DownloadJitterSeconds c \<le> 0 then 0
      else seconds (uint (fnv32a (cfg_DeviceID c) mod
             (word_of_int (cfg_DownloadJitterSeconds c + 1) :: u32))))"

section \<open>Validating the configuration\<close>

definition validateRelay :: "url_parser \<Rightarrow> Config \<Rightarrow> error option" where
  "validateRelay parse c =
     (if cfg_RelayURL c = [] then
        (if cfg_RelayTokenFile c \<noteq> [] then Some (Err ''relay_token_file requires relay_url'')
         else None)
      else case parse (cfg_RelayURL c) of
        None \<Rightarrow> Some (Err ''relay_url must be a plain base URL'')
      | Some u \<Rightarrow>
          if url_HasUser u \<or> url_RawQuery u \<noteq> [] \<or> url_Fragment u \<noteq> [] \<or> url_Host u = []
          then Some (Err ''relay_url must be a plain base URL'')
          else if url_Scheme u \<noteq> ''https'' \<and> \<not> (url_Scheme u = ''http'' \<and> is_loopback u)
          then Some (Err ''relay_url must be HTTPS or loopback HTTP'')
          else if url_Path u \<noteq> [] \<and> url_Path u \<noteq> ''/''
          then Some (Err ''relay_url path must be empty'')
          else if cfg_RelayTokenFile c = []
          then Some (Err ''relay_url requires relay_token_file'')
          else None)"

definition validateOTLP :: "url_parser \<Rightarrow> Config \<Rightarrow> error option" where
  "validateOTLP parse c =
     (if cfg_OTLPEndpoint c = [] then
        (if cfg_OTLPTokenFile c \<noteq> [] then Some (Err ''otlp_token_file requires otlp_endpoint'')
         else None)
      else case parse (cfg_OTLPEndpoint c) of
        None \<Rightarrow> Some (Err ''otlp_endpoint must be a plain base URL'')
      | Some u \<Rightarrow>
          if url_HasUser u \<or> url_RawQuery u \<noteq> [] \<or> url_Fragment u \<noteq> [] \<or> url_Host u = []
          then Some (Err ''otlp_endpoint must be a plain base URL'')
          else if url_Scheme u \<noteq> ''https'' \<and> \<not> (url_Scheme u = ''http'' \<and> is_loopback u)
          then Some (Err ''otlp_endpoint must be HTTPS or loopback HTTP'')
          else if url_Path u \<noteq> [] \<and> url_Path u \<noteq> ''/'' \<and> url_Path u \<noteq> ''/v1/traces''
          then Some (Err ''otlp_endpoint path must be empty or /v1/traces'')
          else None)"

definition check_valid :: "url_parser \<Rightarrow> Check \<Rightarrow> bool" where
  "check_valid parse k \<longleftrightarrow>
     chk_Kind k = ''file'' \<and> IsAbs (chk_Target k)
   \<or> chk_Kind k = ''systemd'' \<and> is_identifier (chk_Target k)
   \<or> chk_Kind k = ''http'' \<and> (case parse (chk_Target k) of None \<Rightarrow> False
       | Some u \<Rightarrow> url_Scheme u = ''http'' \<and> is_loopback u \<and> \<not> url_HasUser u)"

fun validate_checks :: "url_parser \<Rightarrow> Check list \<Rightarrow> error option" where
  "validate_checks parse [] = None"
| "validate_checks parse (k # ks) =
     (if check_valid parse k then validate_checks parse ks
      else Some (Err (''invalid health check: '' @ chk_Kind k)))"

definition validate_window :: "Config \<Rightarrow> error option" where
  "validate_window c =
     (if (cfg_DownloadWindowStart c = []) \<noteq> (cfg_DownloadWindowEnd c = [])
      then Some (Err ''download window needs both start and end'')
      else if cfg_DownloadWindowStart c \<noteq> [] then
        (case parseClock (cfg_DownloadWindowStart c) of
           Inl e \<Rightarrow> Some e
         | Inr _ \<Rightarrow> (case parseClock (cfg_DownloadWindowEnd c) of
             Inl e \<Rightarrow> Some e
           | Inr _ \<Rightarrow> None))
      else None)"

definition validate_fleet :: "url_parser \<Rightarrow> Config \<Rightarrow> error option" where
  "validate_fleet parse c =
     (if cfg_FleetURL c = [] then None
      else case parse (cfg_FleetURL c) of
        None \<Rightarrow> Some (Err ''fleet_url must be a plain HTTPS base URL'')
      | Some u \<Rightarrow>
          if url_Scheme u \<noteq> ''https'' \<or> url_Host u = [] \<or> url_HasUser u
             \<or> url_RawQuery u \<noteq> [] \<or> url_Fragment u \<noteq> []
          then Some (Err ''fleet_url must be a plain HTTPS base URL'')
          else if cfg_FleetTokenFile c = [] \<and> (cfg_FleetCert c = [] \<or> cfg_FleetKey c = [])
          then Some (Err ''Fleet requires a token file or mTLS'')
          else None)"

text \<open>
  The first failing check decides the error: \<open>first_error\<close> runs a list of checks in
  order, as the sequence of \<open>if ... return\<close> statements does.
\<close>

fun first_error :: "error option list \<Rightarrow> error option" where
  "first_error [] = None"
| "first_error (None # es) = first_error es"
| "first_error (Some e # es) = Some e"

definition fail_if :: "bool \<Rightarrow> string \<Rightarrow> error option" where
  "fail_if b m = (if b then Some (Err m) else None)"

definition Validate :: "url_parser \<Rightarrow> Config \<Rightarrow> error option" where
  "Validate parse c = first_error
     [fail_if (\<not> is_identifier (cfg_DeviceID c) \<or> \<not> is_identifier (cfg_Compatible c))
        ''invalid device_id or compatible'',
      fail_if (\<not> IsAbs (cfg_StateDir c) \<or> \<not> IsAbs (cfg_Socket c))
        ''state_dir and socket must be absolute'',
      fail_if (cfg_Backend c \<noteq> ''simulator'' \<and> cfg_Backend c \<noteq> ''rauc'')
        ''supported backends: simulator, rauc'',
      fail_if (cfg_Backend c = ''rauc'' \<and> (\<not> cfg_AllowDeviceWrites c \<or> cfg_Checks c = []))
        ''RAUC requires allow_device_writes and local health checks'',
      fail_if (cfg_TrustKeys c = [] \<or> cfg_DownloadHosts c = [])
        ''trust_keys and download_hosts are required'',
      fail_if (cfg_MaxArtifactBytes c \<le> 0 \<or> cfg_MaxArtifactBytes c > 2 ^ 40)
        ''max_artifact_bytes must be 1..1TiB'',
      fail_if (cfg_ReserveBytes c > 2 ^ 50)
        ''reserve_bytes exceeds supported limit'',
      fail_if (cfg_HealthTimeoutSeconds c < 1 \<or> cfg_HealthTimeoutSeconds c > 3600
          \<or> cfg_HealthStableSeconds c < 0
          \<or> cfg_HealthStableSeconds c \<ge> cfg_HealthTimeoutSeconds c)
        ''invalid health timing'',
      validate_checks parse (cfg_Checks c),
      fail_if (cfg_BandwidthBytesPerSec c < 0)
        ''bandwidth_bytes_per_sec must be >= 0'',
      fail_if (cfg_DownloadJitterSeconds c < 0 \<or> cfg_DownloadJitterSeconds c > 3600)
        ''download_jitter_seconds must be 0..3600'',
      validate_window c,
      fail_if (cfg_LocalMediaDir c \<noteq> [] \<and> \<not> IsAbs (cfg_LocalMediaDir c))
        ''local_media_dir must be absolute'',
      fail_if ((cfg_TrustDir c = []) \<noteq> (cfg_RootSHA256 c = []))
        ''trust_dir and root_sha256 are set together'',
      fail_if (cfg_TrustDir c \<noteq> [] \<and> (\<not> IsAbs (cfg_TrustDir c) \<or> \<not> digestPattern (cfg_RootSHA256 c)))
        ''trust_dir must be absolute and root_sha256 must be a sha256'',
      validateOTLP parse c,
      validateRelay parse c,
      validate_fleet parse c]"

section \<open>Releases\<close>

definition OSTarget :: "Release \<Rightarrow> Target option" where
  "OSTarget r = find (\<lambda>t. tgt_Type t = ''os.rauc'') (rel_Targets r)"

definition HasOS :: "Release \<Rightarrow> bool" where
  "HasOS r \<longleftrightarrow> OSTarget r \<noteq> None \<or> rel_Schema r = 1"

section \<open>Jobs, events and the journal\<close>

datatype JobState =
    Accepted | Downloading | Verified | Installing | AwaitingReboot | CheckingHealth
  | Committing | Committed | RollbackPending | RolledBack | Failed | NeedsRecovery
  | UnknownState string

text \<open>
  \<open>State\<close> is a string type in Go, so a journal read from disk can hold a state that is none
  of the twelve constants: \<open>UnknownState\<close>.
\<close>

fun state_text :: "JobState \<Rightarrow> string" where
  "state_text Accepted = ''accepted''"
| "state_text Downloading = ''downloading''"
| "state_text Verified = ''verified''"
| "state_text Installing = ''installing''"
| "state_text AwaitingReboot = ''awaiting_reboot''"
| "state_text CheckingHealth = ''checking_health''"
| "state_text Committing = ''committing''"
| "state_text Committed = ''committed''"
| "state_text RollbackPending = ''rollback_pending''"
| "state_text RolledBack = ''rolled_back''"
| "state_text Failed = ''failed''"
| "state_text NeedsRecovery = ''needs_recovery''"
| "state_text (UnknownState s) = s"

definition Terminal :: "JobState \<Rightarrow> bool" where
  "Terminal s \<longleftrightarrow> s = Committed \<or> s = RolledBack \<or> s = Failed"

fun known_state :: "JobState \<Rightarrow> bool" where
  "known_state (UnknownState _) = False"
| "known_state _ = True"

record Job =
  job_Assignment :: Assignment
  job_Release :: Release
  job_Fingerprint :: string
  job_State :: JobState
  job_Error :: string
  job_OldSlot :: string
  job_OldVersion :: string
  job_TargetSlot :: string
  job_BootID :: string
  job_HealthStarted :: time
  job_RebootRequested :: bool
  job_Deferred :: bool
  job_DownloadAfter :: time
  job_PayloadsApplied :: bool
  job_TraceID :: string
  job_SpanID :: string
  job_Updated :: time

record Event =
  ev_Sequence :: u64
  ev_JobID :: string
  ev_State :: JobState
  ev_Error :: string
  ev_Time :: time

record BootCheck =
  bc_BootID :: string
  bc_Started :: time
  bc_Confirmed :: bool

text \<open>
  \<open>Jobs\<close> is a Go map. A map decoded from a document without a \<open>jobs\<close> member is nil, which
  \<open>validateDatabase\<close> rejects; \<open>db_JobsNil\<close> records it.
\<close>

record Database =
  db_Schema :: int
  db_HighSequence :: u64
  db_EventSequence :: u64
  db_Jobs :: "(string \<times> Job) list"
  db_JobsNil :: bool
  db_Active :: string
  db_Events :: "Event list"
  db_BootCheck :: BootCheck
  db_RootVersion :: u64
  db_RootPayload :: bytes
  db_SnapshotVersion :: u64
  db_SnapshotSHA :: string

definition zero_BootCheck :: BootCheck where
  "zero_BootCheck = \<lparr>bc_BootID = [], bc_Started = 0, bc_Confirmed = False\<rparr>"

definition empty_Database :: Database where
  "empty_Database = \<lparr>db_Schema = 1, db_HighSequence = 0, db_EventSequence = 0, db_Jobs = [],
     db_JobsNil = False, db_Active = [], db_Events = [], db_BootCheck = zero_BootCheck,
     db_RootVersion = 0, db_RootPayload = [], db_SnapshotVersion = 0, db_SnapshotSHA = []\<rparr>"

section \<open>Facts about the data model\<close>

lemma first_error_None: "first_error es = None \<longleftrightarrow> (\<forall>e \<in> set es. e = None)"
  by (induction es rule: first_error.induct) auto

lemma fail_if_None [simp]: "fail_if b m = None \<longleftrightarrow> \<not> b"
  by (simp add: fail_if_def)

lemma Validate_bounds:
  assumes "Validate parse c = None"
  shows "0 < cfg_MaxArtifactBytes c" "cfg_MaxArtifactBytes c \<le> 2 ^ 40"
    "cfg_ReserveBytes c \<le> 2 ^ 50"
    "1 \<le> cfg_HealthTimeoutSeconds c" "cfg_HealthTimeoutSeconds c \<le> 3600"
    "0 \<le> cfg_HealthStableSeconds c" "cfg_HealthStableSeconds c < cfg_HealthTimeoutSeconds c"
    "0 \<le> cfg_DownloadJitterSeconds c" "cfg_DownloadJitterSeconds c \<le> 3600"
    "cfg_TrustKeys c \<noteq> []" "is_identifier (cfg_DeviceID c)" "is_identifier (cfg_Compatible c)"
    "IsAbs (cfg_StateDir c)"
  using assms by (auto simp: Validate_def first_error_None not_less not_le)

lemma parseClock_range:
  assumes "parseClock v = Inr (h, m)"
  shows "0 \<le> h" "h \<le> 23" "0 \<le> m" "m \<le> 59" "length v = 5"
  using assms by (auto simp: parseClock_def split: option.splits if_splits)

lemma identifier_nonempty: "is_identifier s \<Longrightarrow> s \<noteq> []"
  by (auto simp: is_identifier_def)

lemma digestPattern_nonempty: "digestPattern s \<Longrightarrow> s \<noteq> []"
  by (auto simp: digestPattern_def)

lemma identifier_chars: "is_identifier s \<Longrightarrow> list_all is_idchar s"
  by (auto simp: is_identifier_def is_idchar_def split: list.splits)

lemma uint32_mod_le:
  fixes h :: u32
  assumes "0 < n" "n < 2 ^ 32 - 1"
  shows "uint (h mod word_of_int (n + 1)) \<le> n"
proof -
  have "uint (word_of_int (n + 1) :: u32) = n + 1"
    using assms by (intro word_of_int_inverse) auto
  then have "uint (h mod word_of_int (n + 1)) = uint h mod (n + 1)"
    by (simp add: uint_mod)
  also have "\<dots> < n + 1" using assms by (intro pos_mod_bound) simp
  finally show ?thesis by simp
qed

lemma Terminal_cases [simp]:
  "Terminal Committed" "Terminal RolledBack" "Terminal Failed"
  "\<not> Terminal Accepted" "\<not> Terminal Downloading" "\<not> Terminal Verified" "\<not> Terminal Installing"
  "\<not> Terminal AwaitingReboot" "\<not> Terminal CheckingHealth" "\<not> Terminal Committing"
  "\<not> Terminal RollbackPending" "\<not> Terminal NeedsRecovery" "\<not> Terminal (UnknownState s)"
  by (simp_all add: Terminal_def)

end
