(* ===== verification/OTA_Lib.thy ===== *)
theory OTA_Lib
  imports OTA_Model
begin

text \<open>
  What the agent takes from the Go standard library as it is: SHA-256 (as a hex digest),
  Ed25519, base64 and the JSON decoders and encoders of its own structs. The development
  never fixes them: \<open>lib\<close> is a record of functions, an argument of every definition that
  calls one of them, so each theorem holds for every hash, signature scheme and decoder.
  The structs of the optional trust metadata (\<open>internal/ota/trustmeta.go\<close>) are here
  because the decoders mention them; \<open>StrictJSON\<close> is modelled over a decoder that returns
  one value and the unread rest.
\<close>

record keySignature =
  ks_KeyID :: string
  ks_Signature :: bytes

record multiSigned =
  ms_Payload :: bytes
  ms_Signatures :: "keySignature list"

record metaRole =
  role_Threshold :: int
  role_KeyIDs :: "string list"

definition zero_metaRole :: metaRole where
  "zero_metaRole = \<lparr>role_Threshold = 0, role_KeyIDs = []\<rparr>"

record delegation =
  del_Name :: string
  del_Threshold :: int
  del_KeyIDs :: "string list"
  del_Types :: "string list"

record rootMeta =
  root_Schema :: int
  root_Version :: u64
  root_Expires :: time
  root_Keys :: "(string \<times> string) list"
  root_Roles :: "(string \<times> metaRole) list"
  root_Delegations :: "delegation list"

record snapshotMeta =
  snap_Version :: u64
  snap_Expires :: time
  snap_TargetsVersion :: u64
  snap_TargetsSHA256 :: string

record timestampMeta =
  ts_Version :: u64
  ts_Expires :: time
  ts_SnapshotVersion :: u64
  ts_SnapshotSHA256 :: string

record targetsMeta =
  tm_Version :: u64
  tm_Expires :: time
  tm_ReleaseSHA256 :: "string list"
  tm_RejectSHA256 :: "string list"

record transparencyLine =
  tl_Prev :: string
  tl_ReleaseID :: string
  tl_PayloadSHA256 :: string

type_synonym 'a decoder = "bytes \<Rightarrow> ('a \<times> bytes) result"

record lib =
  lib_sha256 :: "bytes \<Rightarrow> string"
  lib_ed25519_verify :: "bytes \<Rightarrow> bytes \<Rightarrow> bytes \<Rightarrow> bool"
  lib_ed25519_sign :: "bytes \<Rightarrow> bytes \<Rightarrow> bytes"
  lib_base64 :: "string \<Rightarrow> bytes option"
  lib_enc_Release :: "Release \<Rightarrow> bytes result"
  lib_enc_Assignment :: "Assignment \<Rightarrow> bytes"
  lib_enc_line :: "transparencyLine \<Rightarrow> bytes result"
  lib_dec_Release :: "Release decoder"
  lib_dec_Assignment :: "Assignment decoder"
  lib_dec_Database :: "Database decoder"
  lib_dec_multiSigned :: "multiSigned decoder"
  lib_dec_root :: "rootMeta decoder"
  lib_dec_snapshot :: "snapshotMeta decoder"
  lib_dec_timestamp :: "timestampMeta decoder"
  lib_dec_targets :: "targetsMeta decoder"
  lib_dec_line :: "bytes \<Rightarrow> transparencyLine option"

definition json_space :: "char \<Rightarrow> bool" where
  "json_space c \<longleftrightarrow> c \<in> {CHR 0x20, CHR 0x09, CHR 0x0A, CHR 0x0D}"

text \<open>
  The second \<open>Decode\<close> returns \<open>io.EOF\<close> exactly when only white space is left.
\<close>

definition StrictJSON :: "'a decoder \<Rightarrow> bytes \<Rightarrow> 'a result" where
  "StrictJSON dec b = (case dec b of
       Inl e \<Rightarrow> Inl e
     | Inr (v, rest) \<Rightarrow>
         if list_all json_space rest then Inr v else Inl (Err ''trailing JSON data''))"

definition containsString :: "string list \<Rightarrow> string \<Rightarrow> bool" where
  "containsString xs want = list_ex (\<lambda>v. v = want) xs"

lemma containsString_iff [simp]: "containsString xs w \<longleftrightarrow> w \<in> set xs"
  by (induction xs) (auto simp: containsString_def)

definition decodeKey :: "lib \<Rightarrow> string \<Rightarrow> bytes result" where
  "decodeKey L encoded = (case lib_base64 L encoded of
       None \<Rightarrow> Inl (Err ''invalid trust key'')
     | Some pub \<Rightarrow> if length pub \<noteq> 32 then Inl (Err ''invalid trust key'') else Inr pub)"

lemma decodeKey_length: "decodeKey L s = Inr pub \<Longrightarrow> length pub = 32"
  by (auto simp: decodeKey_def split: option.splits if_splits)

lemma StrictJSON_Inr:
  "StrictJSON dec b = Inr v \<Longrightarrow> \<exists>rest. dec b = Inr (v, rest) \<and> list_all json_space rest"
  by (auto simp: StrictJSON_def split: sum.splits prod.splits if_splits)

section \<open>Trimming white space\<close>

text \<open>
  \<open>strings.TrimSpace\<close> on the bytes of a UTF-8 string: the white-space characters of Unicode by
  their encodings, stripped from the front and, reversed, from the back.
\<close>

definition space_runes :: "bytes list" where
  "space_runes = [[CHR 0x20], [CHR 0x09], [CHR 0x0A], [CHR 0x0B], [CHR 0x0C], [CHR 0x0D],
     [CHR 0xC2, CHR 0x85], [CHR 0xC2, CHR 0xA0], [CHR 0xE1, CHR 0x9A, CHR 0x80],
     [CHR 0xE2, CHR 0x80, CHR 0x80], [CHR 0xE2, CHR 0x80, CHR 0x81], [CHR 0xE2, CHR 0x80, CHR 0x82],
     [CHR 0xE2, CHR 0x80, CHR 0x83], [CHR 0xE2, CHR 0x80, CHR 0x84], [CHR 0xE2, CHR 0x80, CHR 0x85],
     [CHR 0xE2, CHR 0x80, CHR 0x86], [CHR 0xE2, CHR 0x80, CHR 0x87], [CHR 0xE2, CHR 0x80, CHR 0x88],
     [CHR 0xE2, CHR 0x80, CHR 0x89], [CHR 0xE2, CHR 0x80, CHR 0x8A], [CHR 0xE2, CHR 0x80, CHR 0xA8],
     [CHR 0xE2, CHR 0x80, CHR 0xA9], [CHR 0xE2, CHR 0x80, CHR 0xAF], [CHR 0xE2, CHR 0x81, CHR 0x9F],
     [CHR 0xE3, CHR 0x80, CHR 0x80]]"

definition starts_with :: "string \<Rightarrow> string \<Rightarrow> bool" where
  "starts_with p s \<longleftrightarrow> take (length p) s = p"

fun strip_runes :: "nat \<Rightarrow> bytes list \<Rightarrow> bytes \<Rightarrow> bytes" where
  "strip_runes 0 rs s = s"
| "strip_runes (Suc n) rs s = (case find (\<lambda>r. starts_with r s) rs of
      None \<Rightarrow> s | Some r \<Rightarrow> strip_runes n rs (drop (length r) s))"

definition TrimSpace :: "bytes \<Rightarrow> bytes" where
  "TrimSpace s = (let l = strip_runes (length s) space_runes s
     in rev (strip_runes (length l) (map rev space_runes) (rev l)))"

section \<open>Replies of a handler\<close>

text \<open>What an HTTP handler sends: a status code and a body; \<open>http.Error\<close> ends its text with a newline.\<close>

datatype reply = Reply int bytes

definition http_Error :: "int \<Rightarrow> string \<Rightarrow> reply" where
  "http_Error code msg = Reply code (msg @ [CHR 0x0A])"

end
