(* ===== verification/OTA_Sample.thy ===== *)
theory OTA_Sample
  imports OTA_Lib
begin

text \<open>
  Small concrete values on which the theorems of the development are instantiated: a device
  configuration, artifacts, a schema-1 and a schema-2 release, an envelope and an assignment,
  and an instance of the library record in which a signature is the message itself. They play
  no part in any definition that models code.
\<close>

definition sample_digest :: string where
  "sample_digest = replicate 64 CHR ''a''"

definition sample_artifact :: Artifact where
  "sample_artifact = \<lparr>art_URL = ''https://h/a'', art_SHA256 = sample_digest, art_Size = 3\<rparr>"

definition sample_os :: Target where
  "sample_os = \<lparr>tgt_ID = ''os'', tgt_Type = ''os.rauc'', tgt_Artifact = sample_artifact,
     tgt_Reboot = ''required'', tgt_Health = [], tgt_Requires = [], tgt_DependsOn = [''cfg''],
     tgt_Rollback = ''slot'', tgt_StorageBytes = 0\<rparr>"

definition sample_side :: Target where
  "sample_side = \<lparr>tgt_ID = ''cfg'', tgt_Type = ''config.bundle'', tgt_Artifact = sample_artifact,
     tgt_Reboot = ''none'', tgt_Health = [], tgt_Requires = [], tgt_DependsOn = [],
     tgt_Rollback = [], tgt_StorageBytes = 0\<rparr>"

definition sample_release1 :: Release where
  "sample_release1 = \<lparr>rel_Schema = 1, rel_ID = ''r1'', rel_Sequence = 1, rel_Compatible = ''board'',
     rel_Backend = ''simulator'', rel_Version = ''v1'', rel_Expires = 1000,
     rel_Artifact = sample_artifact, rel_SBOMSHA256 = [], rel_SBOM = zero_Artifact, rel_Targets = [],
     rel_Adaptive = False, rel_RequiresMeasuredBoot = False, rel_SBOMKeyID = [],
     rel_SBOMSignature = []\<rparr>"

definition sample_release2 :: Release where
  "sample_release2 = sample_release1\<lparr>rel_Schema := 2, rel_Artifact := zero_Artifact,
     rel_Targets := [sample_os, sample_side]\<rparr>"

definition sample_side_release :: Release where
  "sample_side_release = sample_release2\<lparr>rel_Targets := [sample_side]\<rparr>"

definition sample_config :: Config where
  "sample_config = \<lparr>cfg_DeviceID = ''dev'', cfg_Compatible = ''board'', cfg_StateDir = ''/s'',
     cfg_Socket = ''/s/k'', cfg_Backend = ''simulator'', cfg_AllowDeviceWrites = False,
     cfg_TrustKeys = [(''key'', ''pub'')], cfg_DownloadHosts = [''h''], cfg_MaxArtifactBytes = 100,
     cfg_ReserveBytes = 0, cfg_HealthTimeoutSeconds = 60, cfg_HealthStableSeconds = 0,
     cfg_Checks = [], cfg_Capabilities = [], cfg_BandwidthBytesPerSec = 0,
     cfg_DownloadJitterSeconds = 0, cfg_DownloadWindowStart = [], cfg_DownloadWindowEnd = [],
     cfg_LocalMediaDir = [], cfg_AllowAdaptive = False, cfg_OTLPEndpoint = [],
     cfg_OTLPTokenFile = [], cfg_RelayURL = [], cfg_RelayTokenFile = [], cfg_TrustDir = [],
     cfg_RootSHA256 = [], cfg_RequireSBOMSignature = False, cfg_FleetURL = [],
     cfg_FleetTokenFile = [], cfg_FleetCA = [], cfg_FleetCert = [], cfg_FleetKey = []\<rparr>"

definition sample_err :: error where
  "sample_err = Err ''bad JSON''"

definition sample_sha256 :: "bytes \<Rightarrow> string" where
  "sample_sha256 b = sample_digest"

definition sample_verify :: "bytes \<Rightarrow> bytes \<Rightarrow> bytes \<Rightarrow> bool" where
  "sample_verify pub b sig \<longleftrightarrow> sig = b"

definition sample_sign :: "bytes \<Rightarrow> bytes \<Rightarrow> bytes" where
  "sample_sign key b = b"

definition sample_base64 :: "string \<Rightarrow> bytes option" where
  "sample_base64 s = Some (replicate 32 CHR 0x01)"

definition sample_enc_Release :: "Release \<Rightarrow> bytes result" where
  "sample_enc_Release r = Inr (if rel_Schema r = 1 then ''1'' else ''2'')"

definition sample_enc_line :: "transparencyLine \<Rightarrow> bytes result" where
  "sample_enc_line l = Inr (tl_ReleaseID l)"

definition sample_dec_Release :: "Release decoder" where
  "sample_dec_Release b = (if b = ''1'' then Inr (sample_release1, [])
     else if b = ''2'' then Inr (sample_release2, []) else Inl sample_err)"

definition sample_no_dec :: "'a decoder" where
  "sample_no_dec b = Inl sample_err"

definition sample_no_line :: "bytes \<Rightarrow> transparencyLine option" where
  "sample_no_line b = None"

definition sample_lib :: lib where
  "sample_lib = \<lparr>lib_sha256 = sample_sha256, lib_ed25519_verify = sample_verify,
     lib_ed25519_sign = sample_sign, lib_base64 = sample_base64, lib_enc_Release = sample_enc_Release,
     lib_enc_Assignment = asg_JobID, lib_enc_line = sample_enc_line, lib_dec_Release = sample_dec_Release,
     lib_dec_Assignment = sample_no_dec, lib_dec_Database = sample_no_dec,
     lib_dec_multiSigned = sample_no_dec, lib_dec_root = sample_no_dec,
     lib_dec_snapshot = sample_no_dec, lib_dec_timestamp = sample_no_dec,
     lib_dec_targets = sample_no_dec, lib_dec_line = sample_no_line\<rparr>"

definition sample_envelope :: Envelope where
  "sample_envelope = \<lparr>env_KeyID = ''key'', env_Payload = ''1'', env_Signature = ''1''\<rparr>"

definition sample_assignment :: Assignment where
  "sample_assignment = \<lparr>asg_JobID = ''j1'', asg_DeviceID = ''dev'', asg_Release = sample_envelope,
     asg_NotBefore = 0, asg_Deadline = 500, asg_AutoReboot = True, asg_CampaignID = []\<rparr>"

lemmas sample_defs = sample_digest_def sample_artifact_def sample_os_def sample_side_def
  sample_release1_def sample_release2_def sample_side_release_def sample_config_def sample_err_def
  sample_sha256_def sample_verify_def sample_sign_def sample_base64_def sample_enc_Release_def
  sample_enc_line_def sample_dec_Release_def sample_no_dec_def sample_no_line_def sample_lib_def sample_envelope_def sample_assignment_def zero_Artifact_def

end
