(* ===== verification/OTA_Verify.thy ===== *)
theory OTA_Verify
  imports OTA_Sample
begin

text \<open>
  Release verification (\<open>internal/ota/verify.go\<close>): the envelope's signature, the checks on the
  signed metadata, the typed targets and their dependency graph, signing and the
  assignment fingerprint. The main results: \<open>VerifyEnvelope\<close> returns a release only if a
  pinned key signed exactly these bytes and every check of the contract holds, and
  \<open>topoTargets\<close> accepts exactly the dependency lists that are closed and acyclic.
\<close>

section \<open>Artifacts and the SBOM\<close>

definition checkArtifact :: "Artifact \<Rightarrow> int \<Rightarrow> error option" where
  "checkArtifact a mx =
     (if \<not> digestPattern (art_SHA256 a) \<or> art_Size a \<le> 0 \<or> art_Size a > mx \<or> art_URL a = []
      then Some (Err ''invalid artifact size/digest'') else None)"

definition checkSBOM :: "Release \<Rightarrow> int \<Rightarrow> error option" where
  "checkSBOM r mx =
     (let pinned = rel_SBOMSHA256 r \<noteq> [];
          present = art_SHA256 (rel_SBOM r) \<noteq> [] \<or> art_URL (rel_SBOM r) \<noteq> []
                    \<or> art_Size (rel_SBOM r) \<noteq> 0
      in if \<not> pinned \<and> \<not> present then None
         else if \<not> pinned \<or> \<not> present \<or> art_SHA256 (rel_SBOM r) \<noteq> rel_SBOMSHA256 r
         then Some (Err ''SBOM digest does not match the pinned release digest'')
         else if \<not> digestPattern (rel_SBOMSHA256 r) then Some (Err ''invalid SBOM digest'')
         else checkArtifact (rel_SBOM r) mx)"

definition containsCap :: "string list \<Rightarrow> string \<Rightarrow> bool" where
  "containsCap xs want = list_ex (\<lambda>v. v = want) xs"

lemma containsCap_iff [simp]: "containsCap xs w \<longleftrightarrow> w \<in> set xs"
  by (induction xs) (auto simp: containsCap_def)

section \<open>The dependency check\<close>

text \<open>
  \<open>incoming\<close> is a Go map from target ID to the number of dependencies not yet processed;
  a missing entry reads as 0. \<open>ready\<close> is the work list. Processing an ID lowers the count
  of every target that names it, once per mention, and queues a target when its count
  reaches 0.
\<close>

type_synonym counts = "string \<Rightarrow> int"

definition dec_count :: "string \<Rightarrow> counts \<times> string list \<Rightarrow> counts \<times> string list" where
  "dec_count tid s =
     (let inc = (fst s)(tid := fst s tid - 1)
      in (inc, if inc tid = 0 then snd s @ [tid] else snd s))"

fun dec_deps :: "string \<Rightarrow> string \<Rightarrow> string list \<Rightarrow> counts \<times> string list \<Rightarrow> counts \<times> string list" where
  "dec_deps i tid [] s = s"
| "dec_deps i tid (d # ds) s = dec_deps i tid ds (if d = i then dec_count tid s else s)"

fun dec_targets :: "string \<Rightarrow> Target list \<Rightarrow> counts \<times> string list \<Rightarrow> counts \<times> string list" where
  "dec_targets i [] s = s"
| "dec_targets i (t # ts) s = dec_targets i ts (dec_deps i (tgt_ID t) (tgt_DependsOn t) s)"

text \<open>The same walk as one fold over the list of counts to lower.\<close>

definition mentions :: "string \<Rightarrow> Target list \<Rightarrow> string list" where
  "mentions i ts = concat (map (\<lambda>t. map (\<lambda>_. tgt_ID t) (filter ((=) i) (tgt_DependsOn t))) ts)"

lemma dec_deps_fold: "dec_deps i tid ds s = fold dec_count (map (\<lambda>_. tid) (filter ((=) i) ds)) s"
  by (induction ds arbitrary: s) auto

lemma dec_targets_fold: "dec_targets i ts s = fold dec_count (mentions i ts) s"
  by (induction ts arbitrary: s) (auto simp: mentions_def dec_deps_fold)

lemma set_mentions:
  "x \<in> set (mentions i ts) \<longleftrightarrow> (\<exists>t \<in> set ts. tgt_ID t = x \<and> i \<in> set (tgt_DependsOn t))"
  by (auto simp: mentions_def)

definition pos_ids :: "string set \<Rightarrow> counts \<Rightarrow> string set" where
  "pos_ids A inc = {x \<in> A. 0 < inc x}"

lemma pos_ids_finite: "finite A \<Longrightarrow> finite (pos_ids A inc)"
  by (simp add: pos_ids_def)

lemma dec_count_measure:
  assumes "finite A" "tid \<in> A"
  shows "length (snd (dec_count tid s)) + card (pos_ids A (fst (dec_count tid s)))
       \<le> length (snd s) + card (pos_ids A (fst s))"
proof (cases "fst s tid = 1")
  case True
  with assms have "pos_ids A (fst s) = insert tid (pos_ids A (fst (dec_count tid s)))"
    and "tid \<notin> pos_ids A (fst (dec_count tid s))"
    by (auto simp: pos_ids_def dec_count_def Let_def)
  with assms(1) True show ?thesis
    by (simp add: dec_count_def Let_def pos_ids_finite)
next
  case False
  then have "pos_ids A (fst (dec_count tid s)) \<subseteq> pos_ids A (fst s)"
    by (auto simp: pos_ids_def dec_count_def Let_def)
  then have "card (pos_ids A (fst (dec_count tid s))) \<le> card (pos_ids A (fst s))"
    using assms(1) by (intro card_mono pos_ids_finite)
  with False show ?thesis by (simp add: dec_count_def Let_def)
qed

lemma fold_dec_measure:
  assumes "finite A" "set es \<subseteq> A"
  shows "length (snd (fold dec_count es s)) + card (pos_ids A (fst (fold dec_count es s)))
       \<le> length (snd s) + card (pos_ids A (fst s))"
  using assms(2)
proof (induction es arbitrary: s)
  case (Cons e es)
  from Cons.prems have "e \<in> A" by simp
  with Cons.IH [of "dec_count e s"] Cons.prems dec_count_measure [OF assms(1), of e s]
  show ?case by simp
qed simp

text \<open>
  The work-list loop. It ends because a processed ID leaves the list and an ID joins it
  only when its positive count drops to 0.
\<close>

function topo_loop :: "Target list \<Rightarrow> string list \<Rightarrow> counts \<Rightarrow> int \<Rightarrow> int" where
  "topo_loop ts [] inc seen = seen"
| "topo_loop ts (i # ready) inc seen =
     topo_loop ts (snd (dec_targets i ts (inc, ready))) (fst (dec_targets i ts (inc, ready)))
       (seen + 1)"
  by pat_completeness auto
termination
proof (relation "measure (\<lambda>(ts, ready, inc, seen).
    length ready + card (pos_ids (set (map tgt_ID ts)) inc))", goal_cases)
  case 1
  show ?case by simp
next
  case (2 ts i ready inc seen)
  have "set (mentions i ts) \<subseteq> set (map tgt_ID ts)"
    by (auto simp: set_mentions)
  from fold_dec_measure [OF _ this, of "(inc, ready)"] show ?case
    by (simp add: dec_targets_fold)
qed

definition dep_missing :: "Target list \<Rightarrow> bool" where
  "dep_missing ts = list_ex (\<lambda>t. list_ex (\<lambda>d. d \<notin> set (map tgt_ID ts)) (tgt_DependsOn t)) ts"

fun count_deps :: "Target list \<Rightarrow> counts \<Rightarrow> counts" where
  "count_deps [] inc = inc"
| "count_deps (t # ts) inc =
     count_deps ts (inc(tgt_ID t := inc (tgt_ID t) + int (length (tgt_DependsOn t))))"

text \<open>
  \<open>for id, n := range incoming\<close> visits the IDs in an order the language leaves open:
  \<open>order\<close> is that order. \<open>topoTargets\<close> takes the order of first occurrence; the result does
  not depend on the choice (\<open>topoTargets_order\<close> below).
\<close>

definition topoTargets_in :: "string list \<Rightarrow> Target list \<Rightarrow> error option" where
  "topoTargets_in order ts =
     (if dep_missing ts then Some (Err ''target dependency missing'')
      else let inc = count_deps ts (\<lambda>_. 0);
               ready = filter (\<lambda>i. inc i = 0) order;
               seen = topo_loop ts ready inc 0
           in if seen \<noteq> int (length ts) then Some (Err ''target dependency cycle'') else None)"

definition topoTargets :: "Target list \<Rightarrow> error option" where
  "topoTargets ts = topoTargets_in (remdups (map tgt_ID ts)) ts"

section \<open>What the dependency check decides\<close>

definition dep_rel :: "Target list \<Rightarrow> (string \<times> string) set" where
  "dep_rel ts = {(d, tgt_ID t) | t d. t \<in> set ts \<and> d \<in> set (tgt_DependsOn t)}"

definition need :: "Target list \<Rightarrow> string set \<Rightarrow> counts" where
  "need ts P x = int (length (concat (map (\<lambda>t. filter (\<lambda>d. tgt_ID t = x \<and> d \<notin> P) (tgt_DependsOn t)) ts)))"

lemma need_Nil [simp]: "need [] P x = 0"
  by (simp add: need_def)

lemma need_Cons: "need (t # ts) P x =
    (if tgt_ID t = x then int (length (filter (\<lambda>d. d \<notin> P) (tgt_DependsOn t))) else 0) + need ts P x"
  by (simp add: need_def)

lemma count_deps_need: "count_deps ts inc x = inc x + need ts {} x"
  by (induction ts arbitrary: inc) (auto simp: need_Cons)

lemma need_zero_iff:
  "need ts P x = 0 \<longleftrightarrow> (\<forall>d. (d, x) \<in> dep_rel ts \<longrightarrow> d \<in> P)"
  by (auto simp: need_def dep_rel_def filter_empty_conv)

lemma count_list_map_const: "count_list (map (\<lambda>_. y) xs) x = (if y = x then length xs else 0)"
  by (induction xs) auto

lemma length_filter_insert:
  "i \<notin> P \<Longrightarrow> length (filter (\<lambda>d. d \<notin> P) ds)
     = length (filter (\<lambda>d. d \<notin> insert i P) ds) + length (filter ((=) i) ds)"
  by (induction ds) auto

lemma need_insert:
  assumes "i \<notin> P"
  shows "need ts (insert i P) x = need ts P x - int (count_list (mentions i ts) x)"
proof (induction ts)
  case Nil
  show ?case by (simp add: mentions_def)
next
  case (Cons t ts)
  have "count_list (mentions i (t # ts)) x
      = (if tgt_ID t = x then length (filter ((=) i) (tgt_DependsOn t)) else 0)
        + count_list (mentions i ts) x"
    by (simp add: mentions_def count_list_map_const)
  with Cons length_filter_insert [OF assms, of "tgt_DependsOn t"] show ?case
    by (simp add: need_Cons)
qed

lemma fold_dec_count:
  assumes "\<And>x. int (count_list es x) \<le> inc x"
  shows "\<exists>new. fold dec_count es (inc, rdy) = (\<lambda>x. inc x - int (count_list es x), rdy @ new)
    \<and> distinct new \<and> set new = {x \<in> set es. inc x = int (count_list es x)}"
  using assms
proof (induction es arbitrary: inc rdy)
  case (Cons e es)
  let ?inc = "inc(e := inc e - 1)" and ?rdy = "if inc e = 1 then rdy @ [e] else rdy"
  have le: "int (count_list es x) \<le> ?inc x" for x
    using Cons.prems [of x] by (auto split: if_splits)
  from Cons.IH [OF le, of ?rdy] obtain new where
    new: "fold dec_count es (?inc, ?rdy) = (\<lambda>x. ?inc x - int (count_list es x), ?rdy @ new)"
      "distinct new" "set new = {x \<in> set es. ?inc x = int (count_list es x)}"
    by blast
  let ?new = "if inc e = 1 then e # new else new"
  have "(\<lambda>x. ?inc x - int (count_list es x)) = (\<lambda>x. inc x - int (count_list (e # es) x))" by auto
  then have "fold dec_count (e # es) (inc, rdy) = (\<lambda>x. inc x - int (count_list (e # es) x), rdy @ ?new)"
    using new(1) by (cases "inc e = 1") (simp_all add: dec_count_def)
  moreover have e: "inc e = 1 \<Longrightarrow> e \<notin> set es" using le [of e] by (simp add: count_list_0_iff [symmetric])
  then have "distinct ?new" using new(2,3) by auto
  moreover have "set ?new = {x \<in> set (e # es). inc x = int (count_list (e # es) x)}"
    using new(3) e by (auto simp: count_notin)
  ultimately show ?case by blast
qed simp

text \<open>
  The loop invariant: \<open>dn\<close> lists the processed IDs in order, \<open>inc\<close> counts the dependencies
  outside it, and the IDs with nothing left to wait for are those processed or queued.
  \<open>deps_before\<close> says each listed ID comes after everything it depends on.
\<close>

definition deps_before :: "Target list \<Rightarrow> string list \<Rightarrow> bool" where
  "deps_before ts l \<longleftrightarrow>
     (\<forall>xs x ys. l = xs @ x # ys \<longrightarrow> (\<forall>d. (d, x) \<in> dep_rel ts \<longrightarrow> d \<in> set xs))"

definition kahn :: "Target list \<Rightarrow> string list \<Rightarrow> string list \<Rightarrow> counts \<Rightarrow> bool" where
  "kahn ts dn ready inc \<longleftrightarrow>
     inc = need ts (set dn) \<and> distinct (dn @ ready) \<and> deps_before ts dn
     \<and> set (dn @ ready) = {x \<in> set (map tgt_ID ts). need ts (set dn) x = 0}"

lemma deps_before_Nil [simp]: "deps_before ts []"
  by (simp add: deps_before_def)

lemma deps_before_snoc:
  "deps_before ts (l @ [x]) \<longleftrightarrow> deps_before ts l \<and> (\<forall>d. (d, x) \<in> dep_rel ts \<longrightarrow> d \<in> set l)"
  (is "?A \<longleftrightarrow> ?B")
proof
  assume A: ?A
  have "\<forall>d. (d, x) \<in> dep_rel ts \<longrightarrow> d \<in> set l"
    using A unfolding deps_before_def by blast
  moreover have "deps_before ts l"
    unfolding deps_before_def
  proof (intro allI impI)
    fix xs y ys d
    assume "l = xs @ y # ys" and d: "(d, y) \<in> dep_rel ts"
    then have "l @ [x] = xs @ y # (ys @ [x])" by simp
    with A d show "d \<in> set xs" unfolding deps_before_def by blast
  qed
  ultimately show ?B by blast
next
  assume B: ?B
  show ?A
    unfolding deps_before_def
  proof (intro allI impI)
    fix xs y ys d
    assume l: "l @ [x] = xs @ y # ys" and d: "(d, y) \<in> dep_rel ts"
    show "d \<in> set xs"
    proof (cases ys rule: rev_cases)
      case Nil
      with l d B show ?thesis by simp
    next
      case (snoc zs z)
      with l have "l = xs @ y # zs" by simp
      with B d show ?thesis unfolding deps_before_def by blast
    qed
  qed
qed

lemma need_nonneg: "0 \<le> need ts P x"
  by (simp add: need_def)

lemma count_mentions_le:
  assumes "i \<notin> P"
  shows "int (count_list (mentions i ts) x) \<le> need ts P x"
  using need_insert [OF assms, of ts x] need_nonneg [of ts "insert i P" x] by simp

lemma kahn_ready:
  assumes "i \<notin> P" "set rdy = {x \<in> set (map tgt_ID ts). need ts P x = 0}"
    and "set new = {x \<in> set (mentions i ts). need ts P x = int (count_list (mentions i ts) x)}"
  shows "set rdy \<union> set new = {x \<in> set (map tgt_ID ts). need ts (insert i P) x = 0}"
proof -
  have need': "need ts (insert i P) x = need ts P x - int (count_list (mentions i ts) x)" for x
    by (rule need_insert [OF assms(1)])
  have "x \<in> set (mentions i ts) \<or> count_list (mentions i ts) x = 0" for x by (auto simp: count_list_0_iff)
  moreover have "set (mentions i ts) \<subseteq> set (map tgt_ID ts)" by (auto simp: set_mentions)
  moreover have "need ts (insert i P) x = 0" if "need ts P x = 0" for x
    using that count_mentions_le [OF assms(1), of ts x] need' [of x] by simp
  ultimately show ?thesis using assms(2,3) need' by force
qed

lemma kahn_step:
  assumes K: "kahn ts dn (i # ready) inc"
  shows "kahn ts (dn @ [i]) (snd (dec_targets i ts (inc, ready))) (fst (dec_targets i ts (inc, ready)))"
proof -
  let ?P = "set dn" and ?es = "mentions i ts"
  from K have inc: "inc = need ts ?P" and dist: "distinct (dn @ i # ready)" and before: "deps_before ts dn"
    and rdy: "set (dn @ i # ready) = {x \<in> set (map tgt_ID ts). need ts ?P x = 0}"
    by (auto simp: kahn_def)
  from dist have i: "i \<notin> ?P" by simp
  have le: "int (count_list ?es x) \<le> inc x" for x
    using count_mentions_le [OF i] inc by simp
  from fold_dec_count [OF le, of ready] obtain new where new: "fold dec_count ?es (inc, ready)
      = (\<lambda>x. inc x - int (count_list ?es x), ready @ new)"
    "distinct new" "set new = {x \<in> set ?es. inc x = int (count_list ?es x)}"
    by blast
  have pos: "x \<in> set new \<Longrightarrow> 0 < inc x" for x
    using new(3) count_list_0_iff [of ?es x] by fastforce
  have "need ts ?P i = 0" using rdy by auto
  then have "deps_before ts (dn @ [i])"
    using before need_zero_iff [of ts ?P i] by (simp add: deps_before_snoc)
  moreover have "distinct ((dn @ [i]) @ ready @ new)"
    using dist new(2) pos rdy inc by fastforce
  moreover have "set ((dn @ [i]) @ ready @ new) = {x \<in> set (map tgt_ID ts). need ts (set (dn @ [i])) x = 0}"
    using kahn_ready [OF i rdy] new(3) by (simp add: inc Un_assoc)
  moreover have "need ts (set (dn @ [i])) x = inc x - int (count_list ?es x)" for x
    using need_insert [OF i, of ts x] inc by simp
  ultimately show ?thesis
    using new(1) by (auto simp: kahn_def dec_targets_fold)
qed

lemma topo_loop_kahn:
  "kahn ts dn ready inc \<Longrightarrow>
    \<exists>fin inc'. topo_loop ts ready inc (int (length dn)) = int (length fin) \<and> kahn ts fin [] inc'"
proof (induction ts ready inc "int (length dn)" arbitrary: dn rule: topo_loop.induct)
  case (1 ts inc)
  then show ?case by auto
next
  case (2 ts i ready inc)
  from kahn_step [OF "2.prems"] show ?case
    using "2.hyps" [of "dn @ [i]"] by (simp add: add.commute)
qed

lemma kahn_init:
  assumes "distinct order" "set order = set (map tgt_ID ts)"
  shows "kahn ts [] (filter (\<lambda>i. count_deps ts (\<lambda>_. 0) i = 0) order) (count_deps ts (\<lambda>_. 0))"
proof -
  have "count_deps ts (\<lambda>_. 0) = need ts {}"
    by (simp add: fun_eq_iff count_deps_need)
  with assms show ?thesis by (auto simp: kahn_def)
qed


lemma takeWhile_upto: "x \<notin> set xs \<Longrightarrow> takeWhile (\<lambda>y. y \<noteq> x) (xs @ x # ys) = xs"
  by (induction xs) auto

lemma deps_before_acyclic:
  assumes "deps_before ts l" "set l = set (map tgt_ID ts)"
  shows "acyclic (dep_rel ts)"
proof -
  let ?pos = "\<lambda>x. length (takeWhile (\<lambda>y. y \<noteq> x) l)"
  have "?pos d < ?pos x" if "(d, x) \<in> dep_rel ts" for d x
  proof -
    from that assms(2) have "x \<in> set l" by (auto simp: dep_rel_def)
    then obtain ys zs where l: "l = ys @ x # zs" "x \<notin> set ys"
      using split_list_first by metis
    with assms(1) that have "d \<in> set ys" unfolding deps_before_def by blast
    then obtain as bs where ys: "ys = as @ d # bs" "d \<notin> set as"
      using split_list_first by metis
    have "?pos x = length ys" using l by (simp add: takeWhile_upto)
    moreover have "?pos d = length as" using l ys by (simp add: takeWhile_upto)
    moreover have "length as < length ys" using ys by simp
    ultimately show ?thesis by simp
  qed
  then have "acyclic ((dep_rel ts)\<inverse>)" by (intro acyclicI_order [where f = ?pos]) auto
  then show ?thesis by simp
qed

lemma finite_dep_rel: "finite (dep_rel ts)"
proof -
  have "dep_rel ts = (\<Union>t \<in> set ts. (\<lambda>d. (d, tgt_ID t)) ` set (tgt_DependsOn t))"
    by (auto simp: dep_rel_def)
  then show ?thesis by simp
qed

lemma Domain_dep_rel: "Domain (dep_rel ts) = (\<Union>t \<in> set ts. set (tgt_DependsOn t))"
  by (auto simp: dep_rel_def Domain_unfold)

lemma dep_missing_iff: "dep_missing ts \<longleftrightarrow> \<not> Domain (dep_rel ts) \<subseteq> set (map tgt_ID ts)"
  by (auto simp: dep_missing_def list_ex_iff Domain_dep_rel)

lemma acyclic_covers:
  assumes fin: "kahn ts l [] inc" and dom: "Domain (dep_rel ts) \<subseteq> set (map tgt_ID ts)"
    and acy: "acyclic (dep_rel ts)"
  shows "set l = set (map tgt_ID ts)"
proof
  show "set l \<subseteq> set (map tgt_ID ts)" using fin by (auto simp: kahn_def)
  have "x \<in> set (map tgt_ID ts) \<longrightarrow> x \<in> set l" for x
  proof (induction x rule: wf_induct_rule [OF finite_acyclic_wf [OF finite_dep_rel acy]])
    case (1 x)
    show ?case
    proof
      assume x: "x \<in> set (map tgt_ID ts)"
      have "\<forall>d. (d, x) \<in> dep_rel ts \<longrightarrow> d \<in> set l" using 1 dom by blast
      then have "need ts (set l) x = 0" by (simp add: need_zero_iff)
      with x fin show "x \<in> set l" by (auto simp: kahn_def)
    qed
  qed
  then show "set (map tgt_ID ts) \<subseteq> set l" by blast
qed

lemma topoTargets_in_iff:
  assumes "distinct order" "set order = set (map tgt_ID ts)"
  shows "topoTargets_in order ts = None \<longleftrightarrow>
    distinct (map tgt_ID ts) \<and> Domain (dep_rel ts) \<subseteq> set (map tgt_ID ts) \<and> acyclic (dep_rel ts)"
proof -
  let ?ids = "map tgt_ID ts" and ?inc = "count_deps ts (\<lambda>_. 0)"
  obtain l inc where seen: "topo_loop ts (filter (\<lambda>i. ?inc i = 0) order) ?inc 0 = int (length l)"
    and K: "kahn ts l [] inc"
    using topo_loop_kahn [OF kahn_init [OF assms]] by auto
  from K have l: "distinct l" "set l \<subseteq> set ?ids" "deps_before ts l" by (auto simp: kahn_def)
  have eq: "topoTargets_in order ts = None \<longleftrightarrow> \<not> dep_missing ts \<and> length l = length ts"
    using seen by (simp add: topoTargets_in_def Let_def)
  have "length l = length ts \<longleftrightarrow> distinct ?ids \<and> set l = set ?ids"
  proof
    assume len: "length l = length ts"
    have "length ts = card (set l)" using l(1) len by (simp add: distinct_card)
    also have "\<dots> \<le> card (set ?ids)" using l(2) by (intro card_mono) auto
    finally have "card (set ?ids) = length ?ids" using card_length [of ?ids] by simp
    moreover from this have "set l = set ?ids"
      using l len by (intro card_subset_eq) (auto simp: distinct_card)
    ultimately show "distinct ?ids \<and> set l = set ?ids" using card_distinct by blast
  next
    assume "distinct ?ids \<and> set l = set ?ids"
    then have "length l = length ?ids" using l(1) by (metis distinct_card)
    then show "length l = length ts" by simp
  qed
  with eq K l(3) show ?thesis
    using dep_missing_iff acyclic_covers deps_before_acyclic by blast
qed

lemma topoTargets_iff:
  "topoTargets ts = None \<longleftrightarrow>
    distinct (map tgt_ID ts) \<and> Domain (dep_rel ts) \<subseteq> set (map tgt_ID ts) \<and> acyclic (dep_rel ts)"
  unfolding topoTargets_def by (rule topoTargets_in_iff) auto

lemma topoTargets_order:
  assumes "distinct order" "set order = set (map tgt_ID ts)"
  shows "topoTargets_in order ts = None \<longleftrightarrow> topoTargets ts = None"
  using topoTargets_in_iff [OF assms] topoTargets_iff by simp

section \<open>Verifying an envelope\<close>

definition supported_type :: "string \<Rightarrow> bool" where
  "supported_type ty \<longleftrightarrow>
     ty = ''os.rauc'' \<or> ty = ''container.oci'' \<or> ty = ''config.bundle'' \<or> ty = ''model.oci''"

definition check_target :: "Config \<Rightarrow> Target \<Rightarrow> error option" where
  "check_target c t = first_error
     [fail_if (\<not> supported_type (tgt_Type t)) ''unsupported target type'',
      fail_if (tgt_Type t = ''os.rauc'' \<and> tgt_Reboot t \<noteq> ''required'') ''os.rauc requires reboot'',
      fail_if (tgt_Type t \<noteq> ''os.rauc'' \<and> tgt_Reboot t \<noteq> [] \<and> tgt_Reboot t \<noteq> ''none'')
        ''payload reboot must be none'',
      fail_if (tgt_Rollback t \<noteq> [] \<and> tgt_Rollback t \<noteq> ''previous-digest''
          \<and> tgt_Rollback t \<noteq> ''slot'')
        ''unsupported rollback behavior'',
      fail_if (tgt_Requires t \<noteq> [] \<and> \<not> containsCap (cfg_Capabilities c) (tgt_Requires t))
        ''device missing required capability'',
      checkArtifact (tgt_Artifact t) (cfg_MaxArtifactBytes c),
      fail_if (tgt_StorageBytes t < 0) ''invalid storage requirement'']"

fun verify_targets :: "Config \<Rightarrow> string list \<Rightarrow> Target list \<Rightarrow> error option" where
  "verify_targets c seen [] = None"
| "verify_targets c seen (t # ts) =
     (if \<not> is_identifier (tgt_ID t) \<or> tgt_ID t \<in> set seen then Some (Err ''invalid target id'')
      else case check_target c t of
        Some e \<Rightarrow> Some e
      | None \<Rightarrow> verify_targets c (tgt_ID t # seen) ts)"

definition verify_schema2 :: "Config \<Rightarrow> Release \<Rightarrow> Release result" where
  "verify_schema2 c r =
     (if rel_Targets r = [] then Inl (Err ''schema 2 release requires targets'')
      else case verify_targets c [] (rel_Targets r) of
        Some e \<Rightarrow> Inl e
      | None \<Rightarrow> (case topoTargets (rel_Targets r) of
          Some e \<Rightarrow> Inl e
        | None \<Rightarrow> (case OSTarget r of
            Some t \<Rightarrow> Inr (r\<lparr>rel_Artifact := tgt_Artifact t\<rparr>)
          | None \<Rightarrow>
              if art_URL (rel_Artifact r) \<noteq> [] then
                (case checkArtifact (rel_Artifact r) (cfg_MaxArtifactBytes c) of
                   Some e \<Rightarrow> Inl e
                 | None \<Rightarrow> Inr r)
              else Inr r)))"

definition verify_schema1 :: "Config \<Rightarrow> Release \<Rightarrow> Release result" where
  "verify_schema1 c r =
     (if rel_Targets r \<noteq> [] then Inl (Err ''schema 1 release cannot carry targets'')
      else case checkArtifact (rel_Artifact r) (cfg_MaxArtifactBytes c) of
        Some e \<Rightarrow> Inl e
      | None \<Rightarrow> Inr r)"

definition verify_metadata :: "Config \<Rightarrow> Release \<Rightarrow> time \<Rightarrow> error option" where
  "verify_metadata c r now = first_error
     [fail_if ((rel_Schema r \<noteq> 1 \<and> rel_Schema r \<noteq> 2) \<or> \<not> is_identifier (rel_ID r)
          \<or> \<not> is_identifier (rel_Version r) \<or> rel_Sequence r = 0)
        ''invalid release metadata'',
      fail_if (rel_Compatible r \<noteq> cfg_Compatible c \<or> rel_Backend r \<noteq> cfg_Backend c)
        ''release incompatible with device/backend'',
      fail_if (\<not> rel_Expires r > now) ''release expired'',
      fail_if (rel_Adaptive r \<and> \<not> cfg_AllowAdaptive c)
        ''adaptive updates are not enabled for this device'',
      checkSBOM r (cfg_MaxArtifactBytes c)]"

definition VerifyEnvelope :: "lib \<Rightarrow> Envelope \<Rightarrow> Config \<Rightarrow> time \<Rightarrow> Release result" where
  "VerifyEnvelope L env c now =
     (case map_of (cfg_TrustKeys c) (env_KeyID env) of
        None \<Rightarrow> Inl (Err ''untrusted signing key'')
      | Some encoded \<Rightarrow> (case lib_base64 L encoded of
          None \<Rightarrow> Inl (Err ''invalid trust key'')
        | Some pub \<Rightarrow>
            if length pub \<noteq> 32 then Inl (Err ''invalid trust key'')
            else if length (env_Payload env) > 65536
                 \<or> \<not> lib_ed25519_verify L pub (env_Payload env) (env_Signature env)
            then Inl (Err ''invalid release signature'')
            else case StrictJSON (lib_dec_Release L) (env_Payload env) of
              Inl e \<Rightarrow> Inl (Err (''release: '' @ err_text e))
            | Inr r \<Rightarrow> (case verify_metadata c r now of
                Some e \<Rightarrow> Inl e
              | None \<Rightarrow> if rel_Schema r = 1 then verify_schema1 c r else verify_schema2 c r)))"

definition SignRelease :: "lib \<Rightarrow> Release \<Rightarrow> string \<Rightarrow> bytes \<Rightarrow> Envelope result" where
  "SignRelease L r i key =
     (if length key \<noteq> 64 then Inl (Err ''invalid private key'')
      else case lib_enc_Release L r of
        Inl e \<Rightarrow> Inl e
      | Inr b \<Rightarrow> Inr \<lparr>env_KeyID = i, env_Payload = b, env_Signature = lib_ed25519_sign L key b\<rparr>)"

definition Fingerprint :: "lib \<Rightarrow> Assignment \<Rightarrow> string" where
  "Fingerprint L a = lib_sha256 L (lib_enc_Assignment L a)"

section \<open>What verification establishes\<close>

lemma checkArtifact_None:
  "checkArtifact a mx = None \<longleftrightarrow>
     digestPattern (art_SHA256 a) \<and> 0 < art_Size a \<and> art_Size a \<le> mx \<and> art_URL a \<noteq> []"
  by (auto simp: checkArtifact_def)

definition target_ok :: "Config \<Rightarrow> Target \<Rightarrow> bool" where
  "target_ok c t \<longleftrightarrow> is_identifier (tgt_ID t) \<and> supported_type (tgt_Type t)
     \<and> (if tgt_Type t = ''os.rauc'' then tgt_Reboot t = ''required''
        else tgt_Reboot t \<in> {[], ''none''})
     \<and> tgt_Rollback t \<in> {[], ''previous-digest'', ''slot''}
     \<and> (tgt_Requires t \<noteq> [] \<longrightarrow> tgt_Requires t \<in> set (cfg_Capabilities c))
     \<and> checkArtifact (tgt_Artifact t) (cfg_MaxArtifactBytes c) = None
     \<and> 0 \<le> tgt_StorageBytes t"

lemma check_target_None: "check_target c t = None \<and> is_identifier (tgt_ID t) \<longleftrightarrow> target_ok c t"
  by (auto simp: check_target_def target_ok_def first_error_None not_less)

lemma verify_targets_None:
  "verify_targets c seen ts = None \<longleftrightarrow>
     list_all (target_ok c) ts \<and> distinct (map tgt_ID ts) \<and> set seen \<inter> set (map tgt_ID ts) = {}"
proof (induction ts arbitrary: seen)
  case (Cons t ts)
  show ?case
    using Cons [of "tgt_ID t # seen"] check_target_None [of c t]
    by (auto split: option.splits)
qed simp

section \<open>The contract of a release\<close>

text \<open>
  What \<open>VerifyEnvelope\<close> promises, said without its order of checks: \<open>signed_by\<close> for the
  signature, \<open>release_ok\<close> for the decoded metadata, \<open>effective_release\<close> for the release it
  hands on (schema 2 takes the artifact of its OS target).
\<close>

definition signed_by :: "lib \<Rightarrow> Config \<Rightarrow> Envelope \<Rightarrow> bytes \<Rightarrow> bool" where
  "signed_by L c env pub \<longleftrightarrow>
     (\<exists>encoded. map_of (cfg_TrustKeys c) (env_KeyID env) = Some encoded
        \<and> lib_base64 L encoded = Some pub \<and> length pub = 32)
   \<and> length (env_Payload env) \<le> 65536
   \<and> lib_ed25519_verify L pub (env_Payload env) (env_Signature env)"

definition artifact_ok :: "Config \<Rightarrow> Artifact \<Rightarrow> bool" where
  "artifact_ok c a \<longleftrightarrow> digestPattern (art_SHA256 a) \<and> 0 < art_Size a
     \<and> art_Size a \<le> cfg_MaxArtifactBytes c \<and> art_URL a \<noteq> []"

definition sbom_ok :: "Config \<Rightarrow> Release \<Rightarrow> bool" where
  "sbom_ok c r \<longleftrightarrow>
     rel_SBOMSHA256 r = [] \<and> rel_SBOM r = zero_Artifact
   \<or> rel_SBOMSHA256 r \<noteq> [] \<and> art_SHA256 (rel_SBOM r) = rel_SBOMSHA256 r \<and> artifact_ok c (rel_SBOM r)"

definition targets_ok :: "Config \<Rightarrow> Release \<Rightarrow> bool" where
  "targets_ok c r \<longleftrightarrow> rel_Targets r \<noteq> [] \<and> list_all (target_ok c) (rel_Targets r)
     \<and> distinct (map tgt_ID (rel_Targets r))
     \<and> Domain (dep_rel (rel_Targets r)) \<subseteq> set (map tgt_ID (rel_Targets r))
     \<and> acyclic (dep_rel (rel_Targets r))
     \<and> (OSTarget r = None \<and> art_URL (rel_Artifact r) \<noteq> [] \<longrightarrow> artifact_ok c (rel_Artifact r))"

definition release_ok :: "Config \<Rightarrow> time \<Rightarrow> Release \<Rightarrow> bool" where
  "release_ok c now r \<longleftrightarrow>
     is_identifier (rel_ID r) \<and> is_identifier (rel_Version r) \<and> rel_Sequence r \<noteq> 0
   \<and> rel_Compatible r = cfg_Compatible c \<and> rel_Backend r = cfg_Backend c
   \<and> now < rel_Expires r \<and> (rel_Adaptive r \<longrightarrow> cfg_AllowAdaptive c) \<and> sbom_ok c r
   \<and> (rel_Schema r = 1 \<and> rel_Targets r = [] \<and> artifact_ok c (rel_Artifact r)
      \<or> rel_Schema r = 2 \<and> targets_ok c r)"

definition effective_release :: "Release \<Rightarrow> Release" where
  "effective_release r = (if rel_Schema r = 1 then r
     else case OSTarget r of None \<Rightarrow> r | Some t \<Rightarrow> r\<lparr>rel_Artifact := tgt_Artifact t\<rparr>)"

lemma checkArtifact_ok: "checkArtifact a (cfg_MaxArtifactBytes c) = None \<longleftrightarrow> artifact_ok c a"
  by (simp add: checkArtifact_None artifact_ok_def)

lemma checkSBOM_None: "checkSBOM r (cfg_MaxArtifactBytes c) = None \<longleftrightarrow> sbom_ok c r"
proof -
  have "art_SHA256 (rel_SBOM r) = [] \<and> art_URL (rel_SBOM r) = [] \<and> art_Size (rel_SBOM r) = 0
    \<longleftrightarrow> rel_SBOM r = zero_Artifact"
    by (cases "rel_SBOM r") (auto simp: zero_Artifact_def)
  then show ?thesis
    by (auto simp: checkSBOM_def sbom_ok_def Let_def checkArtifact_ok artifact_ok_def zero_Artifact_def)
qed

lemma verify_schema1_Inr:
  "verify_schema1 c r = Inr r' \<longleftrightarrow> rel_Targets r = [] \<and> artifact_ok c (rel_Artifact r) \<and> r' = r"
  by (auto simp: verify_schema1_def checkArtifact_ok split: option.splits
      dest: checkArtifact_ok [THEN iffD2])

lemma verify_schema2_Inr:
  "rel_Schema r = 2 \<Longrightarrow> verify_schema2 c r = Inr r' \<longleftrightarrow> targets_ok c r \<and> r' = effective_release r"
  using verify_targets_None [of c "[]" "rel_Targets r"] topoTargets_iff [of "rel_Targets r"]
    checkArtifact_ok [of "rel_Artifact r" c]
  by (cases "verify_targets c [] (rel_Targets r)"; cases "topoTargets (rel_Targets r)";
      cases "OSTarget r"; cases "checkArtifact (rel_Artifact r) (cfg_MaxArtifactBytes c)")
    (auto simp: verify_schema2_def targets_ok_def effective_release_def)

lemma verify_metadata_None:
  "verify_metadata c r now = None \<longleftrightarrow> rel_Schema r \<in> {1, 2}
     \<and> is_identifier (rel_ID r) \<and> is_identifier (rel_Version r) \<and> rel_Sequence r \<noteq> 0
     \<and> rel_Compatible r = cfg_Compatible c \<and> rel_Backend r = cfg_Backend c
     \<and> now < rel_Expires r \<and> (rel_Adaptive r \<longrightarrow> cfg_AllowAdaptive c) \<and> sbom_ok c r"
  by (auto simp: verify_metadata_def first_error_None checkSBOM_None)

lemma VerifyEnvelope_iff:
  "VerifyEnvelope L env c now = Inr r \<longleftrightarrow>
     (\<exists>pub r0. signed_by L c env pub \<and> StrictJSON (lib_dec_Release L) (env_Payload env) = Inr r0
        \<and> release_ok c now r0 \<and> r = effective_release r0)"
proof (cases "StrictJSON (lib_dec_Release L) (env_Payload env)")
  case (Inr r0)
  have body: "(case verify_metadata c r0 now of Some e \<Rightarrow> Inl e
      | None \<Rightarrow> if rel_Schema r0 = 1 then verify_schema1 c r0 else verify_schema2 c r0) = Inr r
    \<longleftrightarrow> release_ok c now r0 \<and> r = effective_release r0"
    using verify_metadata_None [of c r0 now] verify_schema1_Inr [of c r0 r] verify_schema2_Inr [of r0 c r]
    by (cases "verify_metadata c r0 now") (auto simp: release_ok_def effective_release_def)
  show ?thesis
    by (auto simp: VerifyEnvelope_def signed_by_def Inr body [symmetric] split: option.splits)
qed (auto simp: VerifyEnvelope_def split: option.splits)

lemma VerifyEnvelope_release:
  assumes "VerifyEnvelope L env c now = Inr r"
  shows "is_identifier (rel_ID r)" "is_identifier (rel_Version r)" "rel_Sequence r \<noteq> 0"
    "now < rel_Expires r" "rel_Schema r = 1 \<or> rel_Schema r = 2"
    "rel_Schema r = 2 \<Longrightarrow> topoTargets (rel_Targets r) = None"
    "list_all (target_ok c) (rel_Targets r)" "distinct (map tgt_ID (rel_Targets r))"
    "HasOS r \<Longrightarrow> artifact_ok c (rel_Artifact r)"
proof -
  obtain r0 where r0: "release_ok c now r0" "r = effective_release r0"
    using assms by (auto simp: VerifyEnvelope_iff)
  have eff: "rel_ID r = rel_ID r0" "rel_Version r = rel_Version r0" "rel_Sequence r = rel_Sequence r0"
    "rel_Expires r = rel_Expires r0" "rel_Schema r = rel_Schema r0" "rel_Targets r = rel_Targets r0"
    using r0(2) by (simp_all add: effective_release_def split: option.splits)
  show "is_identifier (rel_ID r)" "is_identifier (rel_Version r)" "rel_Sequence r \<noteq> 0"
    "now < rel_Expires r" "rel_Schema r = 1 \<or> rel_Schema r = 2"
    "rel_Schema r = 2 \<Longrightarrow> topoTargets (rel_Targets r) = None"
    "list_all (target_ok c) (rel_Targets r)" "distinct (map tgt_ID (rel_Targets r))"
    using r0(1) by (auto simp: eff release_ok_def targets_ok_def topoTargets_iff)
  have ost: "OSTarget r = OSTarget r0" by (simp add: OSTarget_def eff)
  show "HasOS r \<Longrightarrow> artifact_ok c (rel_Artifact r)"
  proof (cases "OSTarget r0")
    case None
    assume "HasOS r"
    with None r0 show ?thesis by (auto simp: HasOS_def ost eff release_ok_def effective_release_def)
  next
    case (Some t)
    then have "t \<in> set (rel_Targets r0)" by (auto simp: OSTarget_def find_Some_iff)
    with Some r0 have "rel_Schema r0 = 2" "target_ok c t"
      by (auto simp: release_ok_def targets_ok_def list_all_iff)
    with Some r0(2) show ?thesis by (simp add: effective_release_def target_ok_def checkArtifact_ok)
  qed
qed

text \<open>
  C5. \<open>VerifyEnvelope\<close> returns a release exactly if the named trust key (32 bytes once decoded)
  verifies the signature over a payload of at most 64 KiB, the payload is one strict JSON
  release, and that release meets the whole contract: schema, identifiers, sequence,
  compatibility, expiry, adaptive opt-in, SBOM pinning, and for schema 2 well-formed targets
  with distinct IDs and a closed, acyclic dependency graph.
\<close>

theorem VerifyEnvelope_correct:
  "VerifyEnvelope L env c now = Inr r \<longleftrightarrow>
     (\<exists>pub r0. signed_by L c env pub \<and> StrictJSON (lib_dec_Release L) (env_Payload env) = Inr r0
        \<and> release_ok c now r0 \<and> r = effective_release r0)"
  by (rule VerifyEnvelope_iff)

text \<open>
  A release signed with \<open>SignRelease\<close> verifies on every device that pins the public key:
  for a signature scheme that verifies its own signatures under this key pair and a codec that
  decodes what it encoded, the envelope yields the release that was signed (with the OS
  target's artifact filled in) if and only if that release meets the contract.
\<close>

theorem SignRelease_roundtrip:
  assumes key: "map_of (cfg_TrustKeys c) i = Some encoded" "lib_base64 L encoded = Some pub" "length pub = 32"
    and scheme: "\<And>b. lib_ed25519_verify L pub b (lib_ed25519_sign L priv b)"
    and codec: "lib_enc_Release L r = Inr b" "lib_dec_Release L b = Inr (r, [])" "length b \<le> 65536"
    and signed: "SignRelease L r i priv = Inr env"
  shows "VerifyEnvelope L env c now = Inr (effective_release r) \<longleftrightarrow> release_ok c now r"
proof -
  have env: "env = \<lparr>env_KeyID = i, env_Payload = b, env_Signature = lib_ed25519_sign L priv b\<rparr>"
    using signed codec(1) by (auto simp: SignRelease_def split: if_splits)
  have "signed_by L c env pub" "StrictJSON (lib_dec_Release L) (env_Payload env) = Inr r"
    using key scheme codec by (auto simp: env signed_by_def StrictJSON_def)
  then show ?thesis by (auto simp: VerifyEnvelope_iff)
qed

theorem SignRelease_roundtrip_witness:
  "VerifyEnvelope sample_lib sample_envelope sample_config 5 = Inr (effective_release sample_release1)
    \<longleftrightarrow> release_ok sample_config 5 sample_release1"
  by (rule SignRelease_roundtrip [where i = "''key''" and encoded = "''pub''" and b = "''1''"
        and pub = "replicate 32 CHR 0x01" and priv = "replicate 64 CHR 0x01"])
    (simp_all add: sample_defs SignRelease_def)

end
