(* ===== verification/OTA_Files.thy ===== *)
theory OTA_Files
  imports OTA_Lib
begin

text \<open>
  The file system as the agent uses it. A path is the list of its components (the
  kernel's view of a cleaned absolute path), the tree is a finite map from paths to nodes,
  and every system call can fail: \<open>fs_fault\<close> says which call on which path fails in the
  current environment and with what message, \<open>fs_partial\<close> how many bytes reach a file whose
  write fails. Both are part of the state handed to an operation, so a theorem covers every
  failure of every call; within one handler a repeated call on the same path fares the same.
  Symbolic links are followed on the last component only.

  The theory holds \<open>CheckArtifact\<close> (\<open>internal/ota/download.go\<close>), \<open>copyFile\<close>
  (\<open>internal/ota/payload.go\<close>) and \<open>AtomicWrite\<close> (\<open>internal/ota/store.go\<close>).
\<close>

section \<open>Paths\<close>

type_synonym path = "string list"

fun split_slash :: "string \<Rightarrow> string list" where
  "split_slash [] = [[]]"
| "split_slash (c # cs) =
     (if c = CHR ''/'' then [] # split_slash cs
      else case split_slash cs of [] \<Rightarrow> [[c]] | x # xs \<Rightarrow> (c # x) # xs)"

text \<open>Lexical cleaning (\<open>filepath.Clean\<close>) of components below a cleaned absolute prefix.\<close>

fun clean_from :: "path \<Rightarrow> string list \<Rightarrow> path" where
  "clean_from acc [] = acc"
| "clean_from acc (x # xs) =
     (if x = [] \<or> x = ''.'' then clean_from acc xs
      else if x = ''..'' then clean_from (butlast acc) xs
      else clean_from (acc @ [x]) xs)"

definition abs_path :: "string \<Rightarrow> path" where
  "abs_path s = clean_from [] (split_slash s)"

definition Join :: "path \<Rightarrow> string \<Rightarrow> path" where
  "Join p name = clean_from p (split_slash name)"

definition plain :: "string \<Rightarrow> bool" where
  "plain x \<longleftrightarrow> x \<noteq> [] \<and> x \<noteq> ''.'' \<and> x \<noteq> ''..'' \<and> CHR ''/'' \<notin> set x"

lemma split_slash_plain: "CHR ''/'' \<notin> set x \<Longrightarrow> split_slash x = [x]"
  by (induction x) auto

lemma Join_plain [simp]: "plain x \<Longrightarrow> Join p x = p @ [x]"
  by (simp add: Join_def plain_def split_slash_plain)

lemma idchar_no_slash: "is_idchar c \<Longrightarrow> c \<noteq> CHR ''/''"
  by (auto simp: is_idchar_def is_alnum_def)

lemma plain_identifier: "is_identifier s \<Longrightarrow> plain s"
  using identifier_chars [of s]
  by (auto simp: plain_def is_identifier_def is_alnum_def list_all_iff dest: idchar_no_slash
      split: list.splits)

lemma hexchar_no_slash: "is_hexchar c \<Longrightarrow> c \<noteq> CHR ''/''"
  by (auto simp: is_hexchar_def)

lemma plainI: "2 < length x \<Longrightarrow> CHR ''/'' \<notin> set x \<Longrightarrow> plain x"
  by (auto simp: plain_def)

lemma plain_digest:
  assumes "digestPattern s"
  shows "plain (s @ ''.raucb'')"
proof (rule plainI)
  from assms show "2 < length (s @ ''.raucb'')" by (simp add: digestPattern_def)
  from assms have "CHR ''/'' \<notin> set s"
    by (auto simp: digestPattern_def list_all_iff dest: hexchar_no_slash)
  then show "CHR ''/'' \<notin> set (s @ ''.raucb'')" by simp
qed

section \<open>The tree and its faults\<close>

datatype node = RegFile bytes | Directory | Symlink path | Special

datatype io_op =
    IoMkdir path | IoOpen path | IoCreate path | IoStat path | IoRead path | IoWrite path
  | IoSync path | IoClose path | IoRename path path | IoRemove path | IoTruncate path
  | IoStatfs path | IoReadDir path | IoSeek path | IoTemp path

record fs =
  fs_nodes :: "(path \<times> node) list"
  fs_fault :: "io_op \<Rightarrow> string option"
  fs_partial :: "path \<Rightarrow> nat"
  fs_bavail :: "path \<Rightarrow> u64"
  fs_bsize :: u64

definition node_at :: "fs \<Rightarrow> path \<Rightarrow> node option" where
  "node_at f p = (if p = [] then Some Directory else map_of (fs_nodes f) p)"

definition put_node :: "path \<Rightarrow> node \<Rightarrow> fs \<Rightarrow> fs" where
  "put_node p n f = f\<lparr>fs_nodes := AList.update p n (fs_nodes f)\<rparr>"

definition del_node :: "path \<Rightarrow> fs \<Rightarrow> fs" where
  "del_node p f = f\<lparr>fs_nodes := AList.delete p (fs_nodes f)\<rparr>"

lemma node_at_put: "node_at (put_node p n f) q = (if q = p \<and> q \<noteq> [] then Some n else node_at f q)"
  by (auto simp: node_at_def put_node_def)

lemma node_at_del: "node_at (del_node p f) q = (if q = p \<and> q \<noteq> [] then None else node_at f q)"
  by (auto simp: node_at_def del_node_def)

lemma put_node_frame [simp]:
  "fs_fault (put_node p n f) = fs_fault f" "fs_partial (put_node p n f) = fs_partial f"
  "fs_bavail (put_node p n f) = fs_bavail f" "fs_bsize (put_node p n f) = fs_bsize f"
  by (simp_all add: put_node_def)

lemma del_node_frame [simp]:
  "fs_fault (del_node p f) = fs_fault f" "fs_partial (del_node p f) = fs_partial f"
  "fs_bavail (del_node p f) = fs_bavail f" "fs_bsize (del_node p f) = fs_bsize f"
  by (simp_all add: del_node_def)

definition fault :: "fs \<Rightarrow> io_op \<Rightarrow> error option" where
  "fault f op = map_option Err (fs_fault f op)"

lemma fault_put [simp]: "fault (put_node p n f) op = fault f op"
  by (simp add: fault_def)

lemma fault_del [simp]: "fault (del_node p f) op = fault f op"
  by (simp add: fault_def)

definition ErrNotExist :: error where
  "ErrNotExist = Err ''file does not exist''"

definition IsNotExist :: "error \<Rightarrow> bool" where
  "IsNotExist e \<longleftrightarrow> e = ErrNotExist"

text \<open>Following links: the kernel gives up after 40.\<close>

fun deref :: "nat \<Rightarrow> fs \<Rightarrow> path \<Rightarrow> path option" where
  "deref 0 f p = None"
| "deref (Suc n) f p = (case node_at f p of Some (Symlink q) \<Rightarrow> deref n f q | _ \<Rightarrow> Some p)"

definition follow :: "fs \<Rightarrow> path \<Rightarrow> path result" where
  "follow f p = (case deref (Suc 40) f p of
      None \<Rightarrow> Inl (Err ''too many levels of symbolic links'') | Some q \<Rightarrow> Inr q)"

lemma deref_plain: "(\<And>q. node_at f p \<noteq> Some (Symlink q)) \<Longrightarrow> deref (Suc n) f p = Some p"
  by (auto split: option.splits node.splits)

lemma follow_plain: "(\<And>q. node_at f p \<noteq> Some (Symlink q)) \<Longrightarrow> follow f p = Inr p"
  unfolding follow_def by (subst deref_plain) auto

lemma node_at_root [simp]: "node_at f [] = Some Directory"
  by (simp add: node_at_def)

section \<open>System calls\<close>

definition parent_ok :: "fs \<Rightarrow> path \<Rightarrow> bool" where
  "parent_ok f p \<longleftrightarrow> p \<noteq> [] \<and> node_at f (butlast p) = Some Directory"

definition os_Stat :: "fs \<Rightarrow> path \<Rightarrow> error option" where
  "os_Stat f p = (case fault f (IoStat p) of Some e \<Rightarrow> Some e
     | None \<Rightarrow> (case follow f p of Inl e \<Rightarrow> Some e
         | Inr q \<Rightarrow> if node_at f q = None then Some ErrNotExist else None))"

definition os_ReadFile :: "fs \<Rightarrow> path \<Rightarrow> bytes result" where
  "os_ReadFile f p = (case fault f (IoOpen p) of Some e \<Rightarrow> Inl e
     | None \<Rightarrow> (case follow f p of Inl e \<Rightarrow> Inl e
         | Inr q \<Rightarrow> (case node_at f q of
             None \<Rightarrow> Inl ErrNotExist
           | Some (RegFile b) \<Rightarrow> (case fault f (IoRead p) of Some e \<Rightarrow> Inl e | None \<Rightarrow> Inr b)
           | Some _ \<Rightarrow> Inl (Err ''not a regular file''))))"

fun mkdirs :: "path \<Rightarrow> string list \<Rightarrow> fs \<Rightarrow> error option \<times> fs" where
  "mkdirs p [] f = (None, f)"
| "mkdirs p (x # xs) f =
     (case node_at f (p @ [x]) of
        Some Directory \<Rightarrow> mkdirs (p @ [x]) xs f
      | Some _ \<Rightarrow> (Some (Err ''not a directory''), f)
      | None \<Rightarrow> mkdirs (p @ [x]) xs (put_node (p @ [x]) Directory f))"

definition os_MkdirAll :: "path \<Rightarrow> fs \<Rightarrow> error option \<times> fs" where
  "os_MkdirAll p f = (case fault f (IoMkdir p) of Some e \<Rightarrow> (Some e, f) | None \<Rightarrow> mkdirs [] p f)"

definition dir_empty :: "fs \<Rightarrow> path \<Rightarrow> bool" where
  "dir_empty f p \<longleftrightarrow> \<not> list_ex (\<lambda>q. q \<noteq> [] \<and> butlast q = p) (keys (fs_nodes f))"

definition os_Remove :: "path \<Rightarrow> fs \<Rightarrow> error option \<times> fs" where
  "os_Remove p f = (case fault f (IoRemove p) of Some e \<Rightarrow> (Some e, f)
     | None \<Rightarrow> (case node_at f p of
         None \<Rightarrow> (Some ErrNotExist, f)
       | Some Directory \<Rightarrow>
           if p \<noteq> [] \<and> dir_empty f p then (None, del_node p f)
           else (Some (Err ''directory not empty''), f)
       | Some _ \<Rightarrow> (None, del_node p f)))"

text \<open>The agent renames files only; renaming a directory is an error here.\<close>

definition os_Rename :: "path \<Rightarrow> path \<Rightarrow> fs \<Rightarrow> error option \<times> fs" where
  "os_Rename p q f = (case fault f (IoRename p q) of Some e \<Rightarrow> (Some e, f)
     | None \<Rightarrow> (case node_at f p of
         None \<Rightarrow> (Some ErrNotExist, f)
       | Some Directory \<Rightarrow> (Some (Err ''is a directory''), f)
       | Some n \<Rightarrow>
           if \<not> parent_ok f q then (Some ErrNotExist, f)
           else if node_at f q = Some Directory then (Some (Err ''file exists''), f)
           else if p = q then (None, f)
           else (None, put_node q n (del_node p f))))"

section \<open>Artifacts on disk\<close>

definition CheckArtifact :: "lib \<Rightarrow> fs \<Rightarrow> path \<Rightarrow> Artifact \<Rightarrow> error option" where
  "CheckArtifact L f p a = (case fault f (IoOpen p) of Some e \<Rightarrow> Some e
     | None \<Rightarrow> (case node_at f p of
         None \<Rightarrow> Some ErrNotExist
       | Some (Symlink _) \<Rightarrow> Some (Err ''too many levels of symbolic links'')
       | Some n \<Rightarrow> (case fault f (IoStat p) of Some e \<Rightarrow> Some e
           | None \<Rightarrow> (case n of
               RegFile b \<Rightarrow>
                 if int (length b) \<noteq> art_Size a then Some (Err ''artifact size mismatch'')
                 else (case fault f (IoRead p) of Some e \<Rightarrow> Some e
                   | None \<Rightarrow> if lib_sha256 L b \<noteq> art_SHA256 a
                       then Some (Err ''artifact digest mismatch'') else None)
             | _ \<Rightarrow> Some (Err ''artifact size mismatch'')))))"

definition holds_artifact :: "lib \<Rightarrow> fs \<Rightarrow> path \<Rightarrow> Artifact \<Rightarrow> bool" where
  "holds_artifact L f p a \<longleftrightarrow>
     (\<exists>b. node_at f p = Some (RegFile b) \<and> int (length b) = art_Size a \<and> lib_sha256 L b = art_SHA256 a)"

lemma CheckArtifact_sound: "CheckArtifact L f p a = None \<Longrightarrow> holds_artifact L f p a"
  by (auto simp: CheckArtifact_def holds_artifact_def split: option.splits node.splits if_splits)

lemma CheckArtifact_iff:
  assumes "fault f (IoOpen p) = None" "fault f (IoStat p) = None" "fault f (IoRead p) = None"
  shows "CheckArtifact L f p a = None \<longleftrightarrow> holds_artifact L f p a"
  using assms
  by (auto simp: CheckArtifact_def holds_artifact_def split: option.splits node.splits if_splits)

text \<open>
  \<open>copyFile\<close> opens the source, then truncates the destination, then copies: when both name
  the same file, the truncation empties the source before it is read.
\<close>

definition write_file :: "path \<Rightarrow> bytes \<Rightarrow> fs \<Rightarrow> error option \<times> fs" where
  "write_file p b f = (case fault f (IoWrite p) of
       Some e \<Rightarrow> (Some e, put_node p (RegFile (take (fs_partial f p) b)) f)
     | None \<Rightarrow> (fault f (IoSync p), put_node p (RegFile b) f))"

definition open_trunc :: "path \<Rightarrow> fs \<Rightarrow> path result" where
  "open_trunc p f = (case fault f (IoCreate p) of Some e \<Rightarrow> Inl e
     | None \<Rightarrow> (case follow f p of Inl e \<Rightarrow> Inl e
         | Inr q \<Rightarrow> (case node_at f q of
             Some Directory \<Rightarrow> Inl (Err ''is a directory'')
           | Some Special \<Rightarrow> Inl (Err ''not a regular file'')
           | _ \<Rightarrow> if parent_ok f q then Inr q else Inl ErrNotExist)))"

definition copyFile :: "path \<Rightarrow> path \<Rightarrow> fs \<Rightarrow> error option \<times> fs" where
  "copyFile src dst f = (case fault f (IoOpen src) of Some e \<Rightarrow> (Some e, f)
     | None \<Rightarrow> (case follow f src of Inl e \<Rightarrow> (Some e, f)
         | Inr s \<Rightarrow> (case node_at f s of
             None \<Rightarrow> (Some ErrNotExist, f)
           | Some n \<Rightarrow> (case open_trunc dst f of Inl e \<Rightarrow> (Some e, f)
               | Inr d \<Rightarrow>
                   (let f1 = put_node d (RegFile []) f in
                    case fault f (IoRead src) of Some e \<Rightarrow> (Some e, f1)
                    | None \<Rightarrow> (case node_at f1 s of
                        Some (RegFile b) \<Rightarrow> write_file d b f1
                      | _ \<Rightarrow> (Some (Err ''not a regular file''), f1)))))))"

text \<open>
  \<open>AtomicWrite\<close> writes a temporary file in the same directory, syncs it, renames it over the
  target and syncs the directory. The temporary file is gone on every return.
\<close>

definition AtomicWrite :: "path \<Rightarrow> bytes \<Rightarrow> fs \<Rightarrow> error option \<times> fs" where
  "AtomicWrite p b f =
     (if \<not> parent_ok f p then (Some ErrNotExist, f)
      else case fault f (IoTemp p) of Some e \<Rightarrow> (Some e, f)
      | None \<Rightarrow> (case fault f (IoWrite p) of Some e \<Rightarrow> (Some e, f)
        | None \<Rightarrow> (case fault f (IoSync p) of Some e \<Rightarrow> (Some e, f)
          | None \<Rightarrow> (case fault f (IoClose p) of Some e \<Rightarrow> (Some e, f)
            | None \<Rightarrow> (case fault f (IoRename (butlast p) p) of Some e \<Rightarrow> (Some e, f)
              | None \<Rightarrow>
                  if node_at f p = Some Directory then (Some (Err ''file exists''), f)
                  else (let f1 = put_node p (RegFile b) f in
                    case fault f (IoOpen (butlast p)) of Some e \<Rightarrow> (Some e, f1)
                    | None \<Rightarrow> (fault f (IoSync (butlast p)), f1)))))))"

section \<open>Facts about files\<close>

lemma AtomicWrite_old_or_new:
  "snd (AtomicWrite p b f) = f \<or> snd (AtomicWrite p b f) = put_node p (RegFile b) f"
  by (auto simp: AtomicWrite_def Let_def split: option.splits)

lemma AtomicWrite_ok:
  "fst (AtomicWrite p b f) = None \<Longrightarrow> snd (AtomicWrite p b f) = put_node p (RegFile b) f"
  by (auto simp: AtomicWrite_def Let_def split: option.splits if_splits)

lemma os_Remove_node:
  "node_at (snd (os_Remove p f)) q = (if q = p \<and> fst (os_Remove p f) = None then None else node_at f q)"
  by (cases "p = []") (auto simp: os_Remove_def node_at_del split: option.splits node.splits)

lemma os_Rename_other:
  "q \<noteq> p \<Longrightarrow> q \<noteq> r \<Longrightarrow> node_at (snd (os_Rename p r f)) q = node_at f q"
  by (auto simp: os_Rename_def node_at_put node_at_del split: option.splits node.splits)

lemma write_file_node:
  "q \<noteq> p \<Longrightarrow> node_at (snd (write_file p b f)) q = node_at f q"
  by (auto simp: write_file_def node_at_put split: option.splits)

lemma mkdirs_frame [simp]: "fs_fault (snd (mkdirs p xs f)) = fs_fault f"
  by (induction xs arbitrary: p f) (auto split: option.splits node.splits)

lemma mkdirs_keeps:
  "node_at f q = Some n \<Longrightarrow> node_at (snd (mkdirs p xs f)) q = Some n"
proof (induction xs arbitrary: p f)
  case (Cons x xs)
  have "node_at f (p @ [x]) = None \<Longrightarrow> node_at (put_node (p @ [x]) Directory f) q = Some n"
    using Cons.prems by (auto simp: node_at_put)
  with Cons show ?case by (auto split: option.splits node.splits)
qed simp

lemma MkdirAll_keeps: "os_MkdirAll p f = (eo, f1) \<Longrightarrow> node_at f q = Some n \<Longrightarrow> node_at f1 q = Some n"
  using mkdirs_keeps [of f q n "[]" p] by (auto simp: os_MkdirAll_def split: option.splits)

lemma mkdirs_new:
  "node_at (snd (mkdirs p xs f)) q \<noteq> node_at f q \<Longrightarrow> node_at (snd (mkdirs p xs f)) q = Some Directory"
proof (induction xs arbitrary: p f)
  case (Cons x xs)
  then show ?case
    by (cases "node_at (snd (mkdirs (p @ [x]) xs (put_node (p @ [x]) Directory f))) q
          = node_at (put_node (p @ [x]) Directory f) q")
      (auto simp: node_at_put split: option.splits node.splits if_splits)
qed simp

end
