(* ===== verification/OTA_Store.thy ===== *)
theory OTA_Store
  imports OTA_Verify OTA_Files
begin

text \<open>
  The journal (\<open>internal/ota/store.go\<close>): a \<open>Database\<close> value in memory and its copy in one SQLite
  row, replaced in one transaction by \<open>Update\<close>. \<open>validateDatabase\<close> guards every write,
  \<open>compactHot\<close> moves old finished jobs to the archive table, a failed write poisons the store.

  SQLite and JSON are not modelled inside: a transaction has one of three outcomes (committed;
  not committed; committed although \<open>Commit\<close> reported an error), chosen by \<open>st_env\<close> for each
  write in turn, so the theorems hold for every sequence of storage failures. \<open>cloneDB\<close>, the
  JSON round trip used as a deep copy, is the identity on values. The stored row is kept as
  what \<open>StrictJSON\<close> makes of its body. The test hooks \<open>beforeCommit\<close> and \<open>afterCommit\<close> are nil.
\<close>

section \<open>The validity check\<close>

definition hotJobLimit :: nat where "hotJobLimit = 10000"
definition hotEventLimit :: nat where "hotEventLimit = 9000"
definition eventLimit :: nat where "eventLimit = 10000"

definition validate_job :: "lib \<Rightarrow> Database \<Rightarrow> string \<times> Job \<Rightarrow> error option" where
  "validate_job L d p = (case p of (i, j) \<Rightarrow>
     if i \<noteq> asg_JobID (job_Assignment j) \<or> job_Fingerprint j \<noteq> Fingerprint L (job_Assignment j)
        \<or> rel_Sequence (job_Release j) > db_HighSequence d
     then Some (Err ''journal job integrity failure'')
     else if \<not> known_state (job_State j) then Some (Err ''unknown journal job state'')
     else if \<not> Terminal (job_State j) \<and> db_Active d \<noteq> i
     then Some (Err ''orphaned active journal job'')
     else None)"

definition validate_active :: "Database \<Rightarrow> error option" where
  "validate_active d =
     (if db_Active d \<noteq> [] then
        (case map_of (db_Jobs d) (db_Active d) of
           None \<Rightarrow> Some (Err ''invalid active job reference'')
         | Some j \<Rightarrow> if Terminal (job_State j) then Some (Err ''invalid active job reference'') else None)
      else None)"

fun validate_events :: "u64 \<Rightarrow> u64 \<Rightarrow> Event list \<Rightarrow> error option" where
  "validate_events high previous [] = None"
| "validate_events high previous (e # es) =
     (if ev_Sequence e \<le> previous \<or> ev_Sequence e > high then Some (Err ''invalid event ordering'')
      else validate_events high (ev_Sequence e) es)"

definition validateDatabase :: "lib \<Rightarrow> Database \<Rightarrow> error option" where
  "validateDatabase L d =
     (if db_Schema d \<noteq> 1 \<or> db_JobsNil d \<or> length (db_Jobs d) > hotJobLimit + 1
         \<or> length (db_Events d) > eventLimit
      then Some (Err ''unsupported or corrupt state'')
      else first_error (map (validate_job L d) (db_Jobs d)
             @ [validate_active d, validate_events (db_EventSequence d) 0 (db_Events d)]))"

section \<open>Archiving old jobs\<close>

text \<open>One pass over the map: the oldest finished job that is not the active one.\<close>

fun oldest :: "string \<Rightarrow> (string \<times> Job) list \<Rightarrow> string \<times> time \<Rightarrow> string \<times> time" where
  "oldest act [] s = s"
| "oldest act ((k, j) # xs) s =
     (if k = act \<or> \<not> Terminal (job_State j) then oldest act xs s
      else if fst s = [] \<or> job_Updated j < snd s then oldest act xs (k, job_Updated j)
      else oldest act xs s)"

lemma oldest_in: "fst (oldest act xs s) = fst s \<or>
   (\<exists>j. (fst (oldest act xs s), j) \<in> set xs \<and> Terminal (job_State j)) \<and> fst (oldest act xs s) \<noteq> act"
proof (induction xs arbitrary: s)
  case (Cons p xs)
  obtain k j where p: "p = (k, j)" by (cases p)
  show ?case
    using Cons [of s] Cons [of "(k, job_Updated j)"] by (auto simp: p)
qed simp

function compact_loop :: "nat \<Rightarrow> Database \<Rightarrow> Job list \<Rightarrow> (Job list \<times> Database) result" where
  "compact_loop lim d spilled =
     (if length (db_Jobs d) \<le> lim then Inr (spilled, d)
      else let i = fst (oldest (db_Active d) (db_Jobs d) ([], 0)) in
           if i = [] then Inl (Err ''journal capacity reached; export/ack events or reprovision journal under documented procedure'')
           else compact_loop lim (d\<lparr>db_Jobs := AList.delete i (db_Jobs d)\<rparr>)
                  (case map_of (db_Jobs d) i of Some j \<Rightarrow> spilled @ [j] | None \<Rightarrow> spilled))"
  by pat_completeness auto
termination
proof (relation "measure (\<lambda>(lim, d, spilled). length (db_Jobs d))", goal_cases)
  case (2 lim d spilled i)
  then obtain j where "(i, j) \<in> set (db_Jobs d)"
    using oldest_in [of "db_Active d" "db_Jobs d" "([], 0)"] by auto
  then have "length (AList.delete i (db_Jobs d)) < length (db_Jobs d)"
    unfolding AList.delete_eq by (intro length_filter_less) auto
  then show ?case by simp
qed simp

declare compact_loop.simps [simp del]

definition compactHot :: "Database \<Rightarrow> (Job list \<times> Database) result" where
  "compactHot d = (case compact_loop hotJobLimit d [] of
       Inl e \<Rightarrow> Inl e
     | Inr (spilled, d1) \<Rightarrow>
         if length (db_Events d1) > eventLimit then Inl (Err ''event outbox full; update paused'')
         else Inr (spilled, d1))"

section \<open>The store\<close>

datatype persist_outcome = Stored | NotStored string | StoredButFailed string

record store =
  st_data :: Database
  st_poisoned :: bool
  st_row :: "Database result option"
  st_archive :: "(string \<times> Job) list"
  st_env :: "nat \<Rightarrow> persist_outcome"
  st_writes :: nat

fun archive_jobs :: "Job list \<Rightarrow> (string \<times> Job) list \<Rightarrow> (string \<times> Job) list" where
  "archive_jobs [] a = a"
| "archive_jobs (j # js) a = archive_jobs js (AList.update (asg_JobID (job_Assignment j)) j a)"

definition persist :: "Database \<Rightarrow> Job list \<Rightarrow> store \<Rightarrow> error option \<times> store" where
  "persist d spilled s =
     (let s1 = s\<lparr>st_writes := Suc (st_writes s)\<rparr>;
          s2 = s1\<lparr>st_row := Some (Inr d), st_archive := archive_jobs spilled (st_archive s)\<rparr>
      in case st_env s (st_writes s) of
           Stored \<Rightarrow> (None, s2)
         | NotStored m \<Rightarrow> (Some (Err m), s1)
         | StoredButFailed m \<Rightarrow> (Some (Err m), s2))"

text \<open>
  \<open>Update\<close> runs a closure on a copy of the data. The closure may also touch the outside world
  (the transparency log), so it threads a value \<open>x\<close>; \<open>Update\<close> returns the error, that value and
  the store. \<open>pure_fn\<close> lifts a closure that only edits the copy.
\<close>

definition Update ::
  "lib \<Rightarrow> (Database \<Rightarrow> 'e \<Rightarrow> Database result \<times> 'e) \<Rightarrow> 'e \<Rightarrow> store \<Rightarrow> error option \<times> 'e \<times> store" where
  "Update L fn x s =
     (if st_poisoned s
      then (Some (Err ''state write failed; restart and inspect storage before continuing''), x, s)
      else case fn (st_data s) x of
        (Inl e, x1) \<Rightarrow> (Some e, x1, s)
      | (Inr next', x1) \<Rightarrow> (case compactHot next' of
          Inl e \<Rightarrow> (Some e, x1, s)
        | Inr (spilled, next1) \<Rightarrow> (case validateDatabase L next1 of
            Some e \<Rightarrow> (Some e, x1, s)
          | None \<Rightarrow> (case persist next1 spilled s of
              (Some e, s1) \<Rightarrow> (Some (Err (''persist state: '' @ err_text e)), x1, s1\<lparr>st_poisoned := True\<rparr>)
            | (None, s1) \<Rightarrow> (None, x1, s1\<lparr>st_data := next1\<rparr>)))))"

definition pure_fn :: "(Database \<Rightarrow> Database result) \<Rightarrow> Database \<Rightarrow> unit \<Rightarrow> Database result \<times> unit" where
  "pure_fn f d x = (f d, x)"

definition update :: "lib \<Rightarrow> (Database \<Rightarrow> Database result) \<Rightarrow> store \<Rightarrow> error option \<times> store" where
  "update L f s = (case Update L (pure_fn f) () s of (eo, _, s1) \<Rightarrow> (eo, s1))"

definition View :: "store \<Rightarrow> Database" where
  "View s = st_data s"

section \<open>Opening the store\<close>

text \<open>
  \<open>load\<close> prefers the SQLite row; a \<open>state.json\<close> left by an older agent is migrated when there is
  no row, and renamed away in either case. \<open>sql_err\<close> is the error of the \<open>SELECT\<close>, if any.
\<close>

definition legacy_path :: "string \<Rightarrow> path" where
  "legacy_path dir = Join (abs_path dir) ''state.json''"

definition migrated_path :: "string \<Rightarrow> path" where
  "migrated_path dir = Join (abs_path dir) ''state.json.migrated''"

definition load_row :: "lib \<Rightarrow> string \<Rightarrow> error option \<Rightarrow> Database option \<Rightarrow> store \<Rightarrow> fs \<Rightarrow> error option \<times> store \<times> fs" where
  "load_row L dir sql_err legacy s f =
     (case sql_err of Some e \<Rightarrow> (Some (Err (''sqlite snapshot: '' @ err_text e)), s, f)
      | None \<Rightarrow> (case st_row s of
          None \<Rightarrow> (case legacy of
              None \<Rightarrow> (None, s, f)
            | Some d \<Rightarrow> (case persist d [] s of
                (Some e, s1) \<Rightarrow> (Some e, s1, f)
              | (None, s1) \<Rightarrow> (case os_Rename (legacy_path dir) (migrated_path dir) f of
                  (eo, f1) \<Rightarrow> (eo, s1\<lparr>st_data := d\<rparr>, f1))))
        | Some (Inl e) \<Rightarrow> (Some (Err (''corrupt sqlite snapshot: '' @ err_text e)), s, f)
        | Some (Inr d) \<Rightarrow> (case validateDatabase L d of
            Some e \<Rightarrow> (Some e, s\<lparr>st_data := d\<rparr>, f)
          | None \<Rightarrow> (None, s\<lparr>st_data := d\<rparr>,
              if legacy = None then f else snd (os_Rename (legacy_path dir) (migrated_path dir) f)))))"

definition load :: "lib \<Rightarrow> string \<Rightarrow> error option \<Rightarrow> store \<Rightarrow> fs \<Rightarrow> error option \<times> store \<times> fs" where
  "load L dir sql_err s f =
     (case os_ReadFile f (legacy_path dir) of
        Inr b \<Rightarrow> (case StrictJSON (lib_dec_Database L) b of
            Inl e \<Rightarrow> (Some (Err (''corrupt state.json: '' @ err_text e)), s, f)
          | Inr d \<Rightarrow> (case validateDatabase L d of
              Some e \<Rightarrow> (Some e, s, f)
            | None \<Rightarrow> load_row L dir sql_err (Some d) s f))
      | Inl e \<Rightarrow> if IsNotExist e then load_row L dir sql_err None s f else (Some e, s, f))"

text \<open>
  \<open>OpenStore\<close> creates the directory, refuses one that others may write to, takes the lock file and
  opens the database. The mode bits, the lock and the SQLite calls answer through \<open>open_env\<close>; what
  an earlier process stored is the row and the archive of \<open>s0\<close>, of which nothing else survives.
\<close>

record open_env =
  oe_mode :: nat
  oe_lock_file :: "error option"
  oe_flock :: "error option"
  oe_sql_open :: "error option"
  oe_migrate :: "error option"
  oe_select :: "error option"

definition group_or_world_writable :: "nat \<Rightarrow> bool" where
  "group_or_world_writable m \<longleftrightarrow> odd (m div 2) \<or> odd (m div 16)"

definition fresh_store :: "store \<Rightarrow> store" where
  "fresh_store s0 = s0\<lparr>st_data := empty_Database, st_poisoned := False\<rparr>"

definition OpenStore ::
  "lib \<Rightarrow> string \<Rightarrow> open_env \<Rightarrow> store \<Rightarrow> fs \<Rightarrow> error option \<times> store \<times> fs" where
  "OpenStore L dir E s0 f =
     (let s = fresh_store s0 in
      case os_MkdirAll (abs_path dir) f of (Some e, f1) \<Rightarrow> (Some e, s, f1)
      | (None, f1) \<Rightarrow> (case fault f1 (IoStat (abs_path dir)) of Some e \<Rightarrow> (Some e, s, f1)
        | None \<Rightarrow>
          if node_at f1 (abs_path dir) \<noteq> Some Directory \<or> group_or_world_writable (oe_mode E)
          then (Some (Err ''state directory must not be symlink or group/world writable''), s, f1)
          else case oe_lock_file E of Some e \<Rightarrow> (Some e, s, f1)
          | None \<Rightarrow> (case oe_flock E of
              Some e \<Rightarrow> (Some (Err ''another agent owns state directory''), s, f1)
            | None \<Rightarrow> (case oe_sql_open E of Some e \<Rightarrow> (Some e, s, f1)
              | None \<Rightarrow> (case oe_migrate E of Some e \<Rightarrow> (Some e, s, f1)
                | None \<Rightarrow> load L dir (oe_select E) s f1)))))"

section \<open>What a valid journal is\<close>

text \<open>
  \<open>journal_ok\<close> says declaratively what \<open>validateDatabase\<close> checks: at most one unfinished job, which
  is the active one, and event sequence numbers that strictly increase, start above 0 and do not
  exceed the counter.
\<close>

definition job_ok :: "lib \<Rightarrow> Database \<Rightarrow> string \<Rightarrow> Job \<Rightarrow> bool" where
  "job_ok L d i j \<longleftrightarrow> i = asg_JobID (job_Assignment j)
     \<and> job_Fingerprint j = Fingerprint L (job_Assignment j)
     \<and> rel_Sequence (job_Release j) \<le> db_HighSequence d
     \<and> known_state (job_State j) \<and> (\<not> Terminal (job_State j) \<longrightarrow> db_Active d = i)"

definition events_ok :: "u64 \<Rightarrow> Event list \<Rightarrow> bool" where
  "events_ok high es \<longleftrightarrow> sorted_wrt (<) (0 # map ev_Sequence es)
     \<and> list_all (\<lambda>e. ev_Sequence e \<le> high) es"

definition journal_ok :: "lib \<Rightarrow> Database \<Rightarrow> bool" where
  "journal_ok L d \<longleftrightarrow> db_Schema d = 1 \<and> \<not> db_JobsNil d
     \<and> length (db_Jobs d) \<le> hotJobLimit + 1 \<and> length (db_Events d) \<le> eventLimit
     \<and> (\<forall>(i, j) \<in> set (db_Jobs d). job_ok L d i j)
     \<and> (db_Active d \<noteq> [] \<longrightarrow> (\<exists>j. map_of (db_Jobs d) (db_Active d) = Some j \<and> \<not> Terminal (job_State j)))
     \<and> events_ok (db_EventSequence d) (db_Events d)"

lemma journal_job_ok: "journal_ok L d \<Longrightarrow> map_of (db_Jobs d) i = Some j \<Longrightarrow> job_ok L d i j"
  unfolding journal_ok_def using map_of_SomeD by fastforce

lemma validate_job_None: "validate_job L d (i, j) = None \<longleftrightarrow> job_ok L d i j"
  by (auto simp: validate_job_def job_ok_def not_less)

lemma validate_events_None:
  "validate_events high prev es = None \<longleftrightarrow>
     sorted_wrt (<) (prev # map ev_Sequence es) \<and> list_all (\<lambda>e. ev_Sequence e \<le> high) es"
proof (induction es arbitrary: prev)
  case (Cons e es)
  show ?case
    using Cons [of "ev_Sequence e"] by (auto simp: not_le not_less intro: less_trans)
qed simp

lemma validateDatabase_None: "validateDatabase L d = None \<longleftrightarrow> journal_ok L d"
proof -
  have act: "validate_active d = None \<longleftrightarrow>
      (db_Active d \<noteq> [] \<longrightarrow> (\<exists>j. map_of (db_Jobs d) (db_Active d) = Some j \<and> \<not> Terminal (job_State j)))"
    by (auto simp: validate_active_def split: option.splits)
  have jobs: "(\<forall>e \<in> set (map (validate_job L d) (db_Jobs d)). e = None)
      \<longleftrightarrow> (\<forall>(i, j) \<in> set (db_Jobs d). job_ok L d i j)"
    by (auto simp: validate_job_None)
  show ?thesis
    unfolding validateDatabase_def journal_ok_def events_ok_def
    using jobs act validate_events_None [of "db_EventSequence d" 0 "db_Events d"]
    by (auto simp: first_error_None not_less)
qed

lemma journal_ok_empty [simp]: "journal_ok L empty_Database"
  by (simp add: journal_ok_def empty_Database_def events_ok_def)

section \<open>Archiving loses nothing\<close>

text \<open>\<open>spill_ok\<close> relates a journal, the jobs taken out of it and what is left.\<close>

definition spill_ok :: "nat \<Rightarrow> Database \<Rightarrow> Job list \<Rightarrow> Database \<Rightarrow> bool" where
  "spill_ok lim d extra d' \<longleftrightarrow> length (db_Jobs d') \<le> lim
    \<and> (\<exists>js. d' = d\<lparr>db_Jobs := js\<rparr>) \<and> distinct (keys (db_Jobs d'))
    \<and> (\<forall>i j. map_of (db_Jobs d') i = Some j \<longrightarrow> map_of (db_Jobs d) i = Some j)
    \<and> (\<forall>i j. map_of (db_Jobs d) i = Some j \<longrightarrow> map_of (db_Jobs d') i = Some j
          \<or> j \<in> set extra \<and> Terminal (job_State j) \<and> i \<noteq> db_Active d)
    \<and> (\<forall>j \<in> set extra. \<exists>i. map_of (db_Jobs d) i = Some j \<and> Terminal (job_State j) \<and> map_of (db_Jobs d') i = None)"

lemma spill_ok_Cons:
  assumes s: "spill_ok lim (d\<lparr>db_Jobs := AList.delete i (db_Jobs d)\<rparr>) extra d'"
    and j: "map_of (db_Jobs d) i = Some j" "Terminal (job_State j)" "i \<noteq> db_Active d"
  shows "spill_ok lim d (j # extra) d'"
proof -
  have sub: "map_of (db_Jobs d') k = Some j' \<Longrightarrow> k \<noteq> i \<and> map_of (db_Jobs d) k = Some j'" for k j'
    using s unfolding spill_ok_def by (metis Database.select_convs(4) Database.update_convs(4)
        Database.surjective fun_upd_apply map_of_delete_upd option.distinct(1))
  then have gone: "map_of (db_Jobs d') i = None" by (cases "map_of (db_Jobs d') i") auto
  have a: "\<forall>k j'. map_of (db_Jobs d) k = Some j' \<longrightarrow> map_of (db_Jobs d') k = Some j'
          \<or> j' \<in> set (j # extra) \<and> Terminal (job_State j') \<and> k \<noteq> db_Active d"
  proof (intro allI impI)
    fix k j' assume k: "map_of (db_Jobs d) k = Some j'"
    show "map_of (db_Jobs d') k = Some j' \<or> j' \<in> set (j # extra) \<and> Terminal (job_State j') \<and> k \<noteq> db_Active d"
    proof (cases "k = i")
      case False
      with k have "map_of (AList.delete i (db_Jobs d)) k = Some j'" by simp
      with s have "map_of (db_Jobs d') k = Some j' \<or> j' \<in> set extra \<and> Terminal (job_State j') \<and> k \<noteq> db_Active d"
        by (simp add: spill_ok_def del: map_of_delete_upd map_of_eq_Some_iff)
      then show ?thesis by auto
    qed (use k j in auto)
  qed
  have b: "\<forall>j' \<in> set (j # extra). \<exists>k. map_of (db_Jobs d) k = Some j' \<and> Terminal (job_State j')
          \<and> map_of (db_Jobs d') k = None"
  proof
    fix j' assume "j' \<in> set (j # extra)"
    then consider "j' = j" | "j' \<in> set extra" by auto
    then show "\<exists>k. map_of (db_Jobs d) k = Some j' \<and> Terminal (job_State j') \<and> map_of (db_Jobs d') k = None"
    proof cases
      case 1
      with j gone show ?thesis by blast
    next
      case 2
      with s show ?thesis by (fastforce simp: spill_ok_def simp del: map_of_eq_Some_iff split: if_splits)
    qed
  qed
  from s have "length (db_Jobs d') \<le> lim" "\<exists>js. d' = d\<lparr>db_Jobs := js\<rparr>" "distinct (keys (db_Jobs d'))"
    by (auto simp: spill_ok_def)
  with a b sub show ?thesis unfolding spill_ok_def by blast
qed

lemma compact_loop_inv:
  assumes "compact_loop lim d spilled = Inr (spilled', d')" "distinct (keys (db_Jobs d))"
  shows "\<exists>extra. spilled' = spilled @ extra \<and> spill_ok lim d extra d'"
  using assms
proof (induction lim d spilled arbitrary: spilled' d' rule: compact_loop.induct)
  case (1 lim d spilled)
  let ?i = "fst (oldest (db_Active d) (db_Jobs d) ([], 0))"
  let ?d = "d\<lparr>db_Jobs := AList.delete ?i (db_Jobs d)\<rparr>"
  show ?case
  proof (cases "length (db_Jobs d) \<le> lim")
    case True
    with 1(2,3) show ?thesis
      by (subst (asm) compact_loop.simps) (auto simp: spill_ok_def intro: exI [of _ "db_Jobs d"])
  next
    case False
    with 1(2) have i: "?i \<noteq> []" by (subst (asm) compact_loop.simps) (auto simp: Let_def split: if_splits)
    then obtain j where j: "(?i, j) \<in> set (db_Jobs d)" "Terminal (job_State j)" "?i \<noteq> db_Active d"
      using oldest_in [of "db_Active d" "db_Jobs d" "([], 0)"] by auto
    then have mj: "map_of (db_Jobs d) ?i = Some j" using 1(3) by simp
    have rec: "compact_loop lim ?d (spilled @ [j]) = Inr (spilled', d')"
      using 1(2) False i mj by (subst (asm) compact_loop.simps) (simp add: Let_def)
    have "distinct (keys (db_Jobs ?d))" using 1(3) by simp
    with 1(1) [OF False refl i, of spilled' d'] mj rec obtain extra where
      "spilled' = (spilled @ [j]) @ extra" "spill_ok lim ?d extra d'" by auto
    with spill_ok_Cons [OF _ mj j(2,3)] show ?thesis by (intro exI [of _ "j # extra"]) auto
  qed
qed

lemma compactHot_facts:
  assumes "compactHot d = Inr (spilled, d')" "distinct (keys (db_Jobs d))"
  shows "length (db_Jobs d') \<le> hotJobLimit" "\<exists>js. d' = d\<lparr>db_Jobs := js\<rparr>" "distinct (keys (db_Jobs d'))"
    "map_of (db_Jobs d') i = Some j \<Longrightarrow> map_of (db_Jobs d) i = Some j"
    "map_of (db_Jobs d) i = Some j \<Longrightarrow> map_of (db_Jobs d') i = None \<Longrightarrow>
       j \<in> set spilled \<and> Terminal (job_State j) \<and> i \<noteq> db_Active d"
    "j \<in> set spilled \<Longrightarrow> \<exists>i. map_of (db_Jobs d) i = Some j \<and> Terminal (job_State j) \<and> map_of (db_Jobs d') i = None"
proof -
  have c: "compact_loop hotJobLimit d [] = Inr (spilled, d')"
    using assms(1) by (auto simp: compactHot_def split: sum.splits if_splits)
  have inv: "spill_ok hotJobLimit d spilled d'" using compact_loop_inv [OF c assms(2)] by simp
  then show "length (db_Jobs d') \<le> hotJobLimit" "\<exists>js. d' = d\<lparr>db_Jobs := js\<rparr>" "distinct (keys (db_Jobs d'))"
    unfolding spill_ok_def by blast+
  show "map_of (db_Jobs d') i = Some j \<Longrightarrow> map_of (db_Jobs d) i = Some j"
    using inv unfolding spill_ok_def by blast
  show "map_of (db_Jobs d) i = Some j \<Longrightarrow> map_of (db_Jobs d') i = None \<Longrightarrow>
       j \<in> set spilled \<and> Terminal (job_State j) \<and> i \<noteq> db_Active d"
    using inv unfolding spill_ok_def by (metis option.distinct(1))
  show "j \<in> set spilled \<Longrightarrow> \<exists>i. map_of (db_Jobs d) i = Some j \<and> Terminal (job_State j) \<and> map_of (db_Jobs d') i = None"
    using inv unfolding spill_ok_def by blast
qed

lemma compactHot_small:
  "length (db_Jobs d) \<le> hotJobLimit \<Longrightarrow> length (db_Events d) \<le> eventLimit \<Longrightarrow> compactHot d = Inr ([], d)"
  by (simp add: compactHot_def compact_loop.simps)

lemma journal_limits_code [code_unfold]:
  "(hotJobLimit + 1 < n) = (10001 < int n)" "(eventLimit < n) = (10000 < int n)" "(hotEventLimit < n) = (9000 < int n)"
  by (simp_all add: hotJobLimit_def eventLimit_def hotEventLimit_def)

lemma compactHot_code [code]:
  "compactHot d = (if int (length (db_Jobs d)) \<le> 10000 \<and> int (length (db_Events d)) \<le> 10000 then Inr ([], d)
     else case compact_loop hotJobLimit d [] of
       Inl e \<Rightarrow> Inl e
     | Inr (spilled, d1) \<Rightarrow>
         if length (db_Events d1) > eventLimit then Inl (Err ''event outbox full; update paused'')
         else Inr (spilled, d1))"
  using compactHot_small [of d] by (auto simp: compactHot_def hotJobLimit_def eventLimit_def)

lemma archive_jobs_keeps:
  assumes "map_of a i = Some j"
  shows "map_of (archive_jobs js a) i = Some j \<or>
    (\<exists>j' \<in> set js. asg_JobID (job_Assignment j') = i)"
  using assms
proof (induction js arbitrary: a)
  case (Cons j' js)
  show ?case
  proof (cases "asg_JobID (job_Assignment j') = i")
    case False
    with Cons.prems have "map_of (AList.update (asg_JobID (job_Assignment j')) j' a) i = Some j" by simp
    from Cons.IH [OF this] show ?thesis by auto
  qed simp
qed simp

lemma archive_jobs_adds:
  assumes "j \<in> set js" "distinct (map (\<lambda>j. asg_JobID (job_Assignment j)) js)"
  shows "map_of (archive_jobs js a) (asg_JobID (job_Assignment j)) = Some j"
  using assms
proof (induction js arbitrary: a)
  case (Cons k js)
  show ?case
  proof (cases "j = k")
    case True
    have "map_of (AList.update (asg_JobID (job_Assignment k)) k a) (asg_JobID (job_Assignment k)) = Some k"
      by simp
    from archive_jobs_keeps [OF this, of js] Cons.prems(2) True show ?thesis by (force simp: image_iff)
  next
    case False
    with Cons show ?thesis by simp
  qed
qed simp

section \<open>What a write does\<close>

lemma persist_cases:
  obtains (stored) "persist d sp s = (None, s\<lparr>st_writes := Suc (st_writes s), st_row := Some (Inr d),
      st_archive := archive_jobs sp (st_archive s)\<rparr>)"
  | (lost) m where "persist d sp s = (Some (Err m), s\<lparr>st_writes := Suc (st_writes s)\<rparr>)"
  | (ambiguous) m where "persist d sp s = (Some (Err m), s\<lparr>st_writes := Suc (st_writes s),
      st_row := Some (Inr d), st_archive := archive_jobs sp (st_archive s)\<rparr>)"
  by (cases "st_env s (st_writes s)") (auto simp: persist_def Let_def)

text \<open>
  The three ways \<open>Update\<close> ends: refused before anything is written, written, or failed while
  writing (which poisons the store and may or may not have reached the disk).
\<close>

lemma Update_cases:
  assumes "Update L fn x s = (eo, x1, s1)"
  obtains (refused) e where "eo = Some e" "s1 = s"
  | (written) next' spilled d where "eo = None" "\<not> st_poisoned s" "fn (st_data s) x = (Inr next', x1)"
      "compactHot next' = Inr (spilled, d)" "journal_ok L d"
      "s1 = s\<lparr>st_writes := Suc (st_writes s), st_row := Some (Inr d),
        st_archive := archive_jobs spilled (st_archive s), st_data := d\<rparr>"
  | (broken) e next' spilled d where "eo = Some e" "\<not> st_poisoned s" "fn (st_data s) x = (Inr next', x1)"
      "compactHot next' = Inr (spilled, d)" "journal_ok L d" "st_data s1 = st_data s" "st_poisoned s1"
      "st_row s1 = st_row s \<and> st_archive s1 = st_archive s
       \<or> st_row s1 = Some (Inr d) \<and> st_archive s1 = archive_jobs spilled (st_archive s)"
proof -
  consider (early) e where "eo = Some e" "s1 = s"
    | (late) next' spilled d where "\<not> st_poisoned s" "fn (st_data s) x = (Inr next', x1)"
      "compactHot next' = Inr (spilled, d)" "journal_ok L d"
      "(case persist d spilled s of
          (Some e, s2) \<Rightarrow> (Some (Err (''persist state: '' @ err_text e)), x1, s2\<lparr>st_poisoned := True\<rparr>)
        | (None, s2) \<Rightarrow> (None, x1, s2\<lparr>st_data := d\<rparr>)) = (eo, x1, s1)"
    using assms
    by (auto simp: Update_def validateDatabase_None [symmetric] dest: sym
        split: if_splits prod.splits sum.splits option.splits)
  then show thesis
  proof cases
    case early
    then show ?thesis by (rule refused)
  next
    case late
    show ?thesis
      by (cases rule: persist_cases [of d spilled s]) (use late in \<open>auto intro: written [OF _ late(1-4)] broken [OF _ late(1-4)]\<close>)
  qed
qed

text \<open>
  \<open>durable\<close> is the journal a restart would read. The store's invariant: memory and disk are valid
  journals, and as long as the store is not poisoned they are the same.
\<close>

definition durable :: "store \<Rightarrow> Database" where
  "durable s = (case st_row s of Some (Inr d) \<Rightarrow> d | _ \<Rightarrow> empty_Database)"

definition good_db :: "lib \<Rightarrow> Database \<Rightarrow> bool" where
  "good_db L d \<longleftrightarrow> journal_ok L d \<and> distinct (keys (db_Jobs d))"

definition store_ok :: "lib \<Rightarrow> store \<Rightarrow> bool" where
  "store_ok L s \<longleftrightarrow> good_db L (st_data s) \<and> good_db L (durable s) \<and> (\<forall>e. st_row s \<noteq> Some (Inl e))
     \<and> (\<not> st_poisoned s \<longrightarrow> durable s = st_data s)"

definition keeps_keys :: "(Database \<Rightarrow> 'e \<Rightarrow> Database result \<times> 'e) \<Rightarrow> bool" where
  "keeps_keys fn \<longleftrightarrow> (\<forall>d x d' x'. distinct (keys (db_Jobs d)) \<and> fn d x = (Inr d', x') \<longrightarrow>
     distinct (keys (db_Jobs d')))"

lemma good_db_empty [simp]: "good_db L empty_Database"
  by (simp add: good_db_def) (simp add: empty_Database_def)

lemma compact_good:
  assumes "fn (st_data s) x = (Inr next', x1)" "compactHot next' = Inr (spilled, d)" "journal_ok L d"
    and "store_ok L s" "keeps_keys fn"
  shows "good_db L d"
proof -
  have "distinct (keys (db_Jobs next'))"
    using assms(1,4,5) by (auto simp: store_ok_def good_db_def keeps_keys_def)
  with assms(2,3) compactHot_facts(3) show ?thesis by (auto simp: good_db_def)
qed

lemma Update_store_ok:
  assumes "Update L fn x s = (eo, x1, s1)" "store_ok L s" "keeps_keys fn"
  shows "store_ok L s1"
  using assms(1)
proof (cases rule: Update_cases)
  case (written next' spilled d)
  with compact_good [OF written(3-5) assms(2,3)] show ?thesis by (simp add: store_ok_def durable_def)
next
  case (broken e next' spilled d)
  with compact_good [OF broken(3-5) assms(2,3)] assms(2) show ?thesis
    by (auto simp: store_ok_def durable_def dest: sym)
qed (use assms(2) in auto)

lemma Update_error_keeps_data:
  assumes "Update L fn x s = (Some e, x1, s1)"
  shows "st_data s1 = st_data s"
  using assms by (cases rule: Update_cases) auto

lemma Update_poisoned:
  assumes "Update L fn x s = (eo, x1, s1)" "st_poisoned s"
  shows "eo \<noteq> None \<and> s1 = s"
  using assms(1) by (cases rule: Update_cases) (use assms(2) in auto)

lemma update_Update: "update L f s = (eo, s1) \<longleftrightarrow> Update L (pure_fn f) () s = (eo, (), s1)"
  by (auto simp: update_def split: prod.splits)


section \<open>The journal's interface\<close>

text \<open>
  What the rest of the agent relies on: an update either fails and leaves the view alone, or is
  durable when it returns; after a failed write nothing more is written; at every moment a crash
  finds either the current view or the value of the one write that failed.
\<close>

locale journal =
  fixes view :: "'s \<Rightarrow> 'd" and disk :: "'s \<Rightarrow> 'd" and stopped :: "'s \<Rightarrow> bool"
    and upd :: "'f \<Rightarrow> 's \<Rightarrow> error option \<times> 's"
    and attempt :: "'f \<Rightarrow> 'd \<Rightarrow> 'd option"
    and inv :: "'s \<Rightarrow> bool" and valid :: "'d \<Rightarrow> bool" and fair :: "'f \<Rightarrow> bool"
  assumes upd_inv: "inv s \<Longrightarrow> fair f \<Longrightarrow> inv (snd (upd f s))"
    and inv_valid: "inv s \<Longrightarrow> valid (view s) \<and> valid (disk s)"
    and synced: "inv s \<Longrightarrow> \<not> stopped s \<Longrightarrow> disk s = view s"
    and upd_error: "fst (upd f s) \<noteq> None \<Longrightarrow> view (snd (upd f s)) = view s"
    and upd_ok: "fst (upd f s) = None \<Longrightarrow> \<not> stopped s \<and> \<not> stopped (snd (upd f s))
      \<and> attempt f (view s) = Some (view (snd (upd f s)))"
    and upd_disk: "stopped (snd (upd f s)) \<Longrightarrow> disk (snd (upd f s)) = disk s
      \<or> attempt f (view s) = Some (disk (snd (upd f s)))"
    and upd_stopped: "stopped s \<Longrightarrow> snd (upd f s) = s"
begin

definition run :: "'f list \<Rightarrow> 's \<Rightarrow> 's" where
  "run fs s = fold (\<lambda>f s. snd (upd f s)) fs s"

lemma run_inv: "inv s \<Longrightarrow> list_all fair fs \<Longrightarrow> inv (run fs s)"
  unfolding run_def by (induction fs arbitrary: s) (auto intro: upd_inv)

lemma acknowledged_durable: "inv s \<Longrightarrow> fair f \<Longrightarrow> fst (upd f s) = None \<Longrightarrow> disk (snd (upd f s)) = view (snd (upd f s))"
  using upd_ok upd_inv synced by blast

lemma run_stopped: "stopped s \<Longrightarrow> run fs s = s"
  unfolding run_def by (induction fs) (auto simp: upd_stopped)

lemma run_Cons: "run (f # fs) s = run fs (snd (upd f s))"
  by (simp add: run_def)

text \<open>
  After any run the disk holds the view, or the value some update of the run tried to write when
  it failed; in that case the view is still the one that update started from.
\<close>

lemma crash_history:
  assumes "inv s" "list_all fair fs" "disk s = view s"
  shows "disk (run fs s) = view (run fs s) \<or>
    (\<exists>pre f post. fs = pre @ f # post \<and> attempt f (view (run pre s)) = Some (disk (run fs s))
       \<and> view (run fs s) = view (run pre s))"
  using assms
proof (induction fs arbitrary: s)
  case (Cons f fs)
  let ?s = "snd (upd f s)"
  have inv: "inv ?s" "list_all fair fs" using Cons.prems upd_inv by auto
  show ?case
  proof (cases "stopped ?s")
    case True
    then have "fst (upd f s) \<noteq> None" using upd_ok by blast
    then have v: "view ?s = view s" by (rule upd_error)
    have r: "run (f # fs) s = ?s" using True by (simp add: run_Cons run_stopped)
    from upd_disk [OF True] Cons.prems(3) v show ?thesis
      unfolding r by (metis append_Nil run_def fold_simps(1))
  next
    case False
    with inv have "disk ?s = view ?s" by (simp add: synced)
    from Cons.IH [OF inv this] show ?thesis
    proof (elim disjE exE conjE)
      fix pre g post
      assume "fs = pre @ g # post" "attempt g (view (run pre ?s)) = Some (disk (run fs ?s))"
        "view (run fs ?s) = view (run pre ?s)"
      then show ?thesis
        by (intro disjI2 exI [of _ "f # pre"] exI [of _ g] exI [of _ post]) (simp add: run_Cons)
    qed (simp add: run_Cons)
  qed
qed (simp add: run_def)

lemma crash_valid: "inv s \<Longrightarrow> list_all fair fs \<Longrightarrow> valid (disk (run fs s))"
  using run_inv inv_valid by blast

end

definition written_by :: "(Database \<Rightarrow> Database result) \<Rightarrow> Database \<Rightarrow> Database option" where
  "written_by f d = (case f d of Inl e \<Rightarrow> None
     | Inr d1 \<Rightarrow> (case compactHot d1 of Inl e \<Rightarrow> None | Inr (spilled, d2) \<Rightarrow> Some d2))"

interpretation store: journal st_data durable st_poisoned "update L" written_by "store_ok L" "good_db L"
  "\<lambda>f. keeps_keys (pure_fn f)" for L
proof
  fix s f
  obtain eo s1 where u: "update L f s = (eo, s1)" by (cases "update L f s")
  then have U: "Update L (pure_fn f) () s = (eo, (), s1)" by (simp add: update_Update)
  show "store_ok L s \<Longrightarrow> keeps_keys (pure_fn f) \<Longrightarrow> store_ok L (snd (update L f s))"
    using Update_store_ok [OF U] u by simp
  show "fst (update L f s) \<noteq> None \<Longrightarrow> st_data (snd (update L f s)) = st_data s"
    using Update_error_keeps_data U u by fastforce
  show "fst (update L f s) = None \<Longrightarrow> \<not> st_poisoned s \<and> \<not> st_poisoned (snd (update L f s))
      \<and> written_by f (st_data s) = Some (st_data (snd (update L f s)))"
    using U unfolding u by (cases rule: Update_cases) (auto simp: written_by_def pure_fn_def)
  show "st_poisoned (snd (update L f s)) \<Longrightarrow> durable (snd (update L f s)) = durable s
      \<or> written_by f (st_data s) = Some (durable (snd (update L f s)))"
    using U unfolding u
    by (cases rule: Update_cases) (auto simp: written_by_def pure_fn_def durable_def)
  show "st_poisoned s \<Longrightarrow> snd (update L f s) = s"
    using Update_poisoned [OF U] u by simp
qed (auto simp: store_ok_def)

lemma load_fresh:
  assumes "store_ok L s" "os_ReadFile f (legacy_path dir) = Inl ErrNotExist"
  shows "\<exists>s1. load L dir None (fresh_store s) f = (None, s1, f) \<and> st_data s1 = durable s \<and> store_ok L s1
    \<and> \<not> st_poisoned s1"
proof (cases "st_row s")
  case None
  with assms show ?thesis
    by (simp add: load_def load_row_def IsNotExist_def fresh_store_def store_ok_def durable_def)
next
  case (Some r)
  with assms(1) obtain d where d: "st_row s = Some (Inr d)" "good_db L d"
    by (cases r) (auto simp: store_ok_def durable_def)
  with assms show ?thesis
    by (auto simp: load_def load_row_def IsNotExist_def fresh_store_def store_ok_def durable_def
        validateDatabase_None good_db_def split: option.splits)
qed

section \<open>Archiving always finds room\<close>

lemma oldest_nonempty:
  "[] \<notin> fst ` set xs \<Longrightarrow>
    fst s \<noteq> [] \<or> (\<exists>(k, j) \<in> set xs. k \<noteq> act \<and> Terminal (job_State j)) \<Longrightarrow> fst (oldest act xs s) \<noteq> []"
proof (induction xs arbitrary: s)
  case (Cons p xs)
  obtain k j where p: "p = (k, j)" by (cases p)
  have ne: "[] \<notin> fst ` set xs" "k \<noteq> []" using Cons.prems(1) by (auto simp: p)
  show ?case
    using Cons.IH [OF ne(1), of s] Cons.IH [OF ne(1), of "(k, job_Updated j)"] Cons.prems(2) ne(2)
    by (auto simp: p)
qed auto

text \<open>All jobs but possibly the active one are finished, and no key is empty.\<close>

definition compactable :: "Database \<Rightarrow> bool" where
  "compactable d \<longleftrightarrow> distinct (keys (db_Jobs d)) \<and> [] \<notin> set (keys (db_Jobs d))
     \<and> (\<forall>(i, j) \<in> set (db_Jobs d). i \<noteq> db_Active d \<longrightarrow> Terminal (job_State j))"

lemma journal_compactable:
  "good_db L d \<Longrightarrow> [] \<notin> set (keys (db_Jobs d)) \<Longrightarrow> compactable d"
  by (fastforce simp: good_db_def journal_ok_def job_ok_def compactable_def)

lemma compact_loop_succeeds: "compactable d \<Longrightarrow> 0 < lim \<Longrightarrow> is_ok (compact_loop lim d spilled)"
proof (induction lim d spilled rule: compact_loop.induct)
  case (1 lim d spilled)
  let ?i = "fst (oldest (db_Active d) (db_Jobs d) ([], 0))"
  let ?d = "d\<lparr>db_Jobs := AList.delete ?i (db_Jobs d)\<rparr>"
  show ?case
  proof (cases "length (db_Jobs d) \<le> lim")
    case True
    then show ?thesis by (subst compact_loop.simps) simp
  next
    case False
    have "\<exists>p \<in> set (db_Jobs d). fst p \<noteq> db_Active d"
    proof (rule ccontr)
      assume "\<not> ?thesis"
      then have "set (keys (db_Jobs d)) \<subseteq> {db_Active d}" by auto
      moreover have "card (set (keys (db_Jobs d))) = length (db_Jobs d)"
        using 1(2) distinct_card [of "keys (db_Jobs d)"] by (simp add: compactable_def)
      ultimately have "length (db_Jobs d) \<le> 1"
        by (metis card.empty card_insert_disjoint card_mono empty_iff finite.emptyI finite.insertI One_nat_def)
      with False 1(3) show False by simp
    qed
    then have "\<exists>(k, j) \<in> set (db_Jobs d). k \<noteq> db_Active d \<and> Terminal (job_State j)"
      using 1(2) by (fastforce simp: compactable_def)
    then have i: "?i \<noteq> []" using 1(2) by (intro oldest_nonempty) (auto simp: compactable_def)
    have "compactable ?d" using 1(2) by (auto simp: compactable_def set_delete_eq)
    with 1(1) [OF False refl i] 1(3) show ?thesis
      by (subst compact_loop.simps) (simp add: False i Let_def)
  qed
qed

section \<open>Properties\<close>

text \<open>
  C20. \<open>validateDatabase\<close> accepts exactly the journals that satisfy the declarative invariant
  \<open>journal_ok\<close>: schema and size limits, every job filed under its own ID with the fingerprint of its assignment and
  a sequence number within the anti-rollback counter, only the active job unfinished, the active
  reference pointing at an unfinished job, and strictly increasing event sequence numbers up to the
  counter.
\<close>

theorem validateDatabase_correct: "validateDatabase L d = None \<longleftrightarrow> journal_ok L d"
  by (rule validateDatabase_None)

text \<open>
  C6. Crash consistency of the journal. Start from a good store and run any closures through
  \<open>Update\<close>, with any storage failures on the way; kill the process and open the store
  again. Loading succeeds with a valid journal, and that journal is the last one the agent had
  in memory, or, after a failed write, what that write was trying to store.
\<close>

theorem journal_crash_consistent:
  assumes "store_ok L s" "\<not> st_poisoned s" "list_all (\<lambda>g. keeps_keys (pure_fn g)) gs"
    and "os_ReadFile f (legacy_path dir) = Inl ErrNotExist"
    and "s' = fold (\<lambda>g s. snd (update L g s)) gs s"
  shows "\<exists>s1. load L dir None (fresh_store s') f = (None, s1, f) \<and> journal_ok L (st_data s1)
    \<and> (st_data s1 = st_data s' \<or>
       (\<exists>pre g post. gs = pre @ g # post
          \<and> written_by g (st_data (fold (\<lambda>g s. snd (update L g s)) pre s)) = Some (st_data s1)
          \<and> st_data s' = st_data (fold (\<lambda>g s. snd (update L g s)) pre s)))"
proof -
  note run = store.run_def [of L]
  have s': "s' = store.run L gs s" by (simp add: assms(5) run)
  have "store_ok L s'" unfolding s' by (rule store.run_inv [OF assms(1,3)])
  from load_fresh [OF this assms(4)] obtain s1 where
    s1: "load L dir None (fresh_store s') f = (None, s1, f)" "st_data s1 = durable s'" "store_ok L s1"
    by blast
  have "durable s = st_data s" using assms(1,2) by (simp add: store_ok_def)
  from store.crash_history [OF assms(1,3) this] s1 show ?thesis
    by (auto simp: s' [symmetric] run [symmetric] store_ok_def good_db_def intro!: exI [of _ s1])
qed

definition sample_store :: store where
  "sample_store = \<lparr>st_data = empty_Database, st_poisoned = False, st_row = None, st_archive = [],
     st_env = (\<lambda>n. if n = 1 then StoredButFailed ''disk'' else Stored), st_writes = 0\<rparr>"

definition sample_update :: "u64 \<Rightarrow> Database \<Rightarrow> Database result" where
  "sample_update n d = Inr (d\<lparr>db_HighSequence := n\<rparr>)"

definition sample_empty_fs :: fs where
  "sample_empty_fs = \<lparr>fs_nodes = [], fs_fault = (\<lambda>_. None), fs_partial = (\<lambda>_. 0),
     fs_bavail = (\<lambda>_. 100), fs_bsize = 1\<rparr>"

lemma sample_store_ok:
  "store_ok L sample_store" "\<not> st_poisoned sample_store" "keeps_keys (pure_fn (sample_update n))"
  "os_ReadFile sample_empty_fs (legacy_path ''/s'') = Inl ErrNotExist"
proof -
  show "store_ok L sample_store" "\<not> st_poisoned sample_store" "keeps_keys (pure_fn (sample_update n))"
    by (auto simp: store_ok_def sample_store_def durable_def keeps_keys_def pure_fn_def sample_update_def)
  show "os_ReadFile sample_empty_fs (legacy_path ''/s'') = Inl ErrNotExist" by code_simp
qed

theorem journal_crash_consistent_witness:
  "\<exists>s1. load sample_lib ''/s'' None (fresh_store (fold (\<lambda>g s. snd (update sample_lib g s))
       [sample_update 4, sample_update 5, sample_update 6] sample_store)) sample_empty_fs = (None, s1, sample_empty_fs)
     \<and> journal_ok sample_lib (st_data s1)"
  using journal_crash_consistent [OF sample_store_ok(1,2) _ sample_store_ok(4) refl,
      of "[sample_update 4, sample_update 5, sample_update 6]" sample_lib] sample_store_ok(3)
  by auto

text \<open>
  An acknowledged write is durable: when \<open>Update\<close> returns nil, reopening the store after a
  crash yields exactly the journal the closure produced (after archiving).
\<close>

theorem acknowledged_write_survives:
  assumes "store_ok L s" "keeps_keys (pure_fn g)" "update L g s = (None, s')"
    and "os_ReadFile f (legacy_path dir) = Inl ErrNotExist"
  shows "\<exists>s1. load L dir None (fresh_store s') f = (None, s1, f)
    \<and> written_by g (st_data s) = Some (st_data s1) \<and> st_data s1 = st_data s'"
proof -
  have ok: "store_ok L s'" using store.upd_inv [OF assms(1,2)] assms(3) by simp
  have "durable s' = st_data s'" "written_by g (st_data s) = Some (st_data s')"
    using store.acknowledged_durable [OF assms(1,2)] store.upd_ok [of L g s] assms(3) by auto
  with load_fresh [OF ok assms(4)] show ?thesis by auto
qed

theorem acknowledged_write_survives_witness:
  "\<exists>s' s1. update sample_lib (sample_update 4) sample_store = (None, s')
     \<and> load sample_lib ''/s'' None (fresh_store s') sample_empty_fs = (None, s1, sample_empty_fs)
     \<and> db_HighSequence (st_data s1) = 4"
proof -
  have "fst (update sample_lib (sample_update 4) sample_store) = None" by code_simp
  then obtain s' where s': "update sample_lib (sample_update 4) sample_store = (None, s')"
    by (metis prod.collapse)
  have "db_HighSequence (st_data (snd (update sample_lib (sample_update 4) sample_store))) = 4" by code_simp
  with acknowledged_write_survives [OF sample_store_ok(1,3) s' sample_store_ok(4)] s' show ?thesis by auto
qed


definition sample_job :: "string \<Rightarrow> JobState \<Rightarrow> time \<Rightarrow> Job" where
  "sample_job i st t = \<lparr>job_Assignment = sample_assignment\<lparr>asg_JobID := i\<rparr>, job_Release = sample_release1,
     job_Fingerprint = sample_digest, job_State = st, job_Error = [], job_OldSlot = [], job_OldVersion = [],
     job_TargetSlot = [], job_BootID = [], job_HealthStarted = 0, job_RebootRequested = False,
     job_Deferred = False, job_DownloadAfter = 0, job_PayloadsApplied = False, job_TraceID = [],
     job_SpanID = [], job_Updated = t\<rparr>"

definition sample_jobs :: Database where
  "sample_jobs = empty_Database\<lparr>db_Active := ''a'', db_Jobs := [(''a'', sample_job ''a'' Verified 1),
     (''b'', sample_job ''b'' Committed 3), (''c'', sample_job ''c'' Failed 2)]\<rparr>"


end
