(* ===== verification/OTA_Trust.thy ===== *)
theory OTA_Trust
  imports OTA_Store
begin

text \<open>
  The optional trust metadata (\<open>internal/ota/trustmeta.go\<close>): a signed root with rotation, the chain
  timestamp \<open>\<rightarrow>\<close> snapshot \<open>\<rightarrow>\<close> targets, authorization of the release key by role or
  delegation, the signed SBOM and the hash-chained transparency log. \<open>releaseArtifacts\<close>
  (\<open>internal/ota/campaign.go\<close>), the list of artifacts a release names, is here because the policy
  check walks it.
\<close>

section \<open>The artifacts of a release\<close>

definition add_artifact :: "Artifact \<Rightarrow> Artifact list \<Rightarrow> Artifact list result" where
  "add_artifact a out =
     (if art_SHA256 a = [] \<and> art_URL a = [] \<and> art_Size a = 0 then Inr out
      else if \<not> digestPattern (art_SHA256 a) \<or> art_Size a \<le> 0
      then Inl (Err ''campaign artifact missing digest'')
      else if art_SHA256 a \<in> set (map art_SHA256 out) then Inr out
      else Inr (out @ [a]))"

fun add_artifacts :: "Artifact list \<Rightarrow> Artifact list \<Rightarrow> Artifact list result" where
  "add_artifacts [] out = Inr out"
| "add_artifacts (a # as) out =
     (case add_artifact a out of Inl e \<Rightarrow> Inl e | Inr out1 \<Rightarrow> add_artifacts as out1)"

definition releaseArtifacts :: "Release \<Rightarrow> Artifact list result" where
  "releaseArtifacts r =
     (case add_artifacts (rel_Artifact r # rel_SBOM r # map tgt_Artifact (rel_Targets r)) [] of
        Inl e \<Rightarrow> Inl e
      | Inr out \<Rightarrow> if out = [] then Inl (Err ''campaign has no artifact'') else Inr out)"

section \<open>Signature thresholds\<close>

definition lookup_key :: "(string \<times> string) list \<Rightarrow> string \<Rightarrow> string" where
  "lookup_key m k = (case map_of m k of None \<Rightarrow> [] | Some v \<Rightarrow> v)"

fun threshold_loop ::
  "lib \<Rightarrow> bytes \<Rightarrow> (string \<times> string) list \<Rightarrow> metaRole \<Rightarrow> string list \<Rightarrow> keySignature list
    \<Rightarrow> string list result" where
  "threshold_loop L payload ks role seen [] = Inr seen"
| "threshold_loop L payload ks role seen (sig # sigs) =
     (if \<not> containsString (role_KeyIDs role) (ks_KeyID sig) \<or> ks_KeyID sig \<in> set seen
      then threshold_loop L payload ks role seen sigs
      else case decodeKey L (lookup_key ks (ks_KeyID sig)) of
        Inl e \<Rightarrow> Inl e
      | Inr pub \<Rightarrow>
          if \<not> lib_ed25519_verify L pub payload (ks_Signature sig)
          then Inl (Err (''invalid signature from '' @ ks_KeyID sig))
          else threshold_loop L payload ks role (ks_KeyID sig # seen) sigs)"

definition verifyThreshold ::
  "lib \<Rightarrow> bytes \<Rightarrow> keySignature list \<Rightarrow> (string \<times> string) list \<Rightarrow> metaRole \<Rightarrow> error option" where
  "verifyThreshold L payload sigs ks role =
     (if role_Threshold role < 1 \<or> int (length (role_KeyIDs role)) < role_Threshold role
      then Some (Err ''role threshold is not configured'')
      else case threshold_loop L payload ks role [] sigs of
        Inl e \<Rightarrow> Some e
      | Inr seen \<Rightarrow> if int (length seen) < role_Threshold role
          then Some (Err ''signature threshold not met'') else None)"

section \<open>Reading signed documents and the root\<close>

definition readSigned :: "lib \<Rightarrow> fs \<Rightarrow> path \<Rightarrow> (bytes \<times> multiSigned) result" where
  "readSigned L f p = (case os_ReadFile f p of Inl e \<Rightarrow> Inl e
     | Inr b \<Rightarrow> (case StrictJSON (lib_dec_multiSigned L) b of Inl e \<Rightarrow> Inl e
         | Inr doc \<Rightarrow> if ms_Payload doc = [] \<or> ms_Signatures doc = []
             then Inl (Err ''metadata signature missing'') else Inr (ms_Payload doc, doc)))"

definition role_of :: "rootMeta \<Rightarrow> string \<Rightarrow> metaRole" where
  "role_of root n = (case map_of (root_Roles root) n of None \<Rightarrow> zero_metaRole | Some r \<Rightarrow> r)"

definition root_signed_by :: "lib \<Rightarrow> rootMeta \<Rightarrow> string \<Rightarrow> bytes \<Rightarrow> multiSigned \<Rightarrow> error option" where
  "root_signed_by L root n payload doc =
     verifyThreshold L payload (ms_Signatures doc) (root_Keys root) (role_of root n)"

definition loadRoot :: "lib \<Rightarrow> fs \<Rightarrow> string \<Rightarrow> string \<Rightarrow> bytes \<Rightarrow> time \<Rightarrow> (rootMeta \<times> bytes) result" where
  "loadRoot L f dir pinned stored now =
     (case readSigned L f (Join (abs_path dir) ''root.json'') of Inl e \<Rightarrow> Inl e
      | Inr (payload, doc) \<Rightarrow> (case StrictJSON (lib_dec_root L) payload of
          Inl e \<Rightarrow> Inl (Err (''root metadata: '' @ err_text e))
        | Inr candidate \<Rightarrow>
            if root_Schema candidate \<noteq> 1 \<or> root_Version candidate = 0 \<or> \<not> root_Expires candidate > now
            then Inl (Err ''root metadata is stale'')
            else if stored = [] then
              (if lib_sha256 L payload \<noteq> pinned
               then Inl (Err ''root metadata does not match the pinned digest'')
               else case root_signed_by L candidate ''root'' payload doc of
                 Some e \<Rightarrow> Inl (Err (''root metadata: '' @ err_text e))
               | None \<Rightarrow> Inr (candidate, payload))
            else (case StrictJSON (lib_dec_root L) stored of
              Inl e \<Rightarrow> Inl (Err (''stored root metadata: '' @ err_text e))
            | Inr current \<Rightarrow>
                if root_Version candidate < root_Version current then Inl (Err ''root rollback'')
                else if root_Version candidate = root_Version current then
                  (if lib_sha256 L payload \<noteq> lib_sha256 L stored
                   then Inl (Err ''root version reused with different bytes'')
                   else Inr (current, stored))
                else (case root_signed_by L current ''root'' payload doc of
                  Some e \<Rightarrow> Inl (Err (''root update: '' @ err_text e))
                | None \<Rightarrow> (case root_signed_by L candidate ''root'' payload doc of
                    Some e \<Rightarrow> Inl (Err ''root update is not signed by its new root keys'')
                  | None \<Rightarrow> Inr (candidate, payload))))))"

section \<open>Who may sign a release\<close>

fun distinct_types :: "string list \<Rightarrow> Target list \<Rightarrow> string list" where
  "distinct_types out [] = out"
| "distinct_types out (t # ts) =
     (if tgt_Type t \<in> set out then distinct_types out ts else distinct_types (out @ [tgt_Type t]) ts)"

definition releaseTypes :: "Release \<Rightarrow> string list" where
  "releaseTypes r = (if rel_Schema r = 1 then [''os.rauc''] else distinct_types [] (rel_Targets r))"

fun delegation_types :: "delegation \<Rightarrow> string list \<Rightarrow> error option" where
  "delegation_types d [] = None"
| "delegation_types d (ty # tys) =
     (if \<not> containsString (del_Types d) ty then Some (Err (''delegated key cannot sign '' @ ty))
      else delegation_types d tys)"

fun authorize_delegated :: "string \<Rightarrow> string list \<Rightarrow> delegation list \<Rightarrow> error option" where
  "authorize_delegated keyID tys [] = Some (Err ''release key is not authorized'')"
| "authorize_delegated keyID tys (d # ds) =
     (if \<not> containsString (del_KeyIDs d) keyID then authorize_delegated keyID tys ds
      else delegation_types d tys)"

definition authorizeReleaseKey :: "rootMeta \<Rightarrow> string \<Rightarrow> string list \<Rightarrow> error option" where
  "authorizeReleaseKey root keyID tys =
     (case map_of (root_Roles root) ''targets'' of
        Some role \<Rightarrow> if containsString (role_KeyIDs role) keyID then None
          else authorize_delegated keyID tys (root_Delegations root)
      | None \<Rightarrow> authorize_delegated keyID tys (root_Delegations root))"

section \<open>The supply-chain decision\<close>

record supplyDecision =
  sd_active :: bool
  sd_rootPayload :: bytes
  sd_rootVersion :: u64
  sd_snapshotVersion :: u64
  sd_snapshotSHA :: string
  sd_payloadSHA :: string

definition no_decision :: supplyDecision where
  "no_decision = \<lparr>sd_active = False, sd_rootPayload = [], sd_rootVersion = 0, sd_snapshotVersion = 0,
     sd_snapshotSHA = [], sd_payloadSHA = []\<rparr>"

definition meta_file :: "Config \<Rightarrow> string \<Rightarrow> path" where
  "meta_file c n = Join (abs_path (cfg_TrustDir c)) n"

definition check_timestamp :: "lib \<Rightarrow> fs \<Rightarrow> Config \<Rightarrow> rootMeta \<Rightarrow> time \<Rightarrow> timestampMeta result" where
  "check_timestamp L f c root now =
     (case readSigned L f (meta_file c ''timestamp.json'') of Inl e \<Rightarrow> Inl e
      | Inr (payload, doc) \<Rightarrow> (case StrictJSON (lib_dec_timestamp L) payload of
          Inl e \<Rightarrow> Inl (Err (''timestamp metadata: '' @ err_text e))
        | Inr ts \<Rightarrow>
            if \<not> ts_Expires ts > now then Inl (Err ''timestamp metadata expired'')
            else case root_signed_by L root ''timestamp'' payload doc of
              Some e \<Rightarrow> Inl (Err (''timestamp metadata: '' @ err_text e))
            | None \<Rightarrow> Inr ts))"

definition check_snapshot ::
  "lib \<Rightarrow> fs \<Rightarrow> Config \<Rightarrow> Database \<Rightarrow> rootMeta \<Rightarrow> timestampMeta \<Rightarrow> time \<Rightarrow> (snapshotMeta \<times> string) result" where
  "check_snapshot L f c db root ts now =
     (case readSigned L f (meta_file c ''snapshot.json'') of Inl e \<Rightarrow> Inl e
      | Inr (payload, doc) \<Rightarrow>
          (let sha = lib_sha256 L payload in
           if sha \<noteq> ts_SnapshotSHA256 ts then Inl (Err ''timestamp does not match the snapshot'')
           else case StrictJSON (lib_dec_snapshot L) payload of
             Inl e \<Rightarrow> Inl (Err (''snapshot metadata: '' @ err_text e))
           | Inr snap \<Rightarrow>
               if snap_Version snap \<noteq> ts_SnapshotVersion ts
               then Inl (Err ''timestamp snapshot version mismatch'')
               else if snap_Version snap < db_SnapshotVersion db
                 \<or> snap_Version snap = db_SnapshotVersion db \<and> db_SnapshotSHA db \<noteq> [] \<and> sha \<noteq> db_SnapshotSHA db
               then Inl (Err ''snapshot rollback'')
               else if \<not> snap_Expires snap > now then Inl (Err ''snapshot metadata expired'')
               else case root_signed_by L root ''snapshot'' payload doc of
                 Some e \<Rightarrow> Inl (Err (''snapshot metadata: '' @ err_text e))
               | None \<Rightarrow> Inr (snap, sha)))"

definition check_targets_meta ::
  "lib \<Rightarrow> fs \<Rightarrow> Config \<Rightarrow> rootMeta \<Rightarrow> snapshotMeta \<Rightarrow> time \<Rightarrow> targetsMeta result" where
  "check_targets_meta L f c root snap now =
     (case readSigned L f (meta_file c ''targets.json'') of Inl e \<Rightarrow> Inl e
      | Inr (payload, doc) \<Rightarrow>
          if lib_sha256 L payload \<noteq> snap_TargetsSHA256 snap
          then Inl (Err ''snapshot does not match the targets metadata'')
          else case StrictJSON (lib_dec_targets L) payload of
            Inl e \<Rightarrow> Inl (Err (''targets metadata: '' @ err_text e))
          | Inr tm \<Rightarrow>
              if tm_Version tm \<noteq> snap_TargetsVersion snap \<or> \<not> tm_Expires tm > now
              then Inl (Err ''targets metadata is stale'')
              else case root_signed_by L root ''targets'' payload doc of
                Some e \<Rightarrow> Inl (Err (''targets metadata: '' @ err_text e))
              | None \<Rightarrow> Inr tm)"

fun rejected :: "targetsMeta \<Rightarrow> Artifact list \<Rightarrow> error option" where
  "rejected tm [] = None"
| "rejected tm (a # as) =
     (if containsString (tm_RejectSHA256 tm) (art_SHA256 a)
      then Some (Err ''artifact rejected by vulnerability policy'') else rejected tm as)"

definition evaluateSupplyChain ::
  "lib \<Rightarrow> fs \<Rightarrow> Config \<Rightarrow> Database \<Rightarrow> bytes \<Rightarrow> string \<Rightarrow> Release \<Rightarrow> time \<Rightarrow> supplyDecision result" where
  "evaluateSupplyChain L f c db releasePayload keyID r now =
     (if cfg_TrustDir c = [] then Inr no_decision
      else case loadRoot L f (cfg_TrustDir c) (cfg_RootSHA256 c) (db_RootPayload db) now of
        Inl e \<Rightarrow> Inl e
      | Inr (root, rootPayload) \<Rightarrow> (case check_timestamp L f c root now of
          Inl e \<Rightarrow> Inl e
        | Inr ts \<Rightarrow> (case check_snapshot L f c db root ts now of
            Inl e \<Rightarrow> Inl e
          | Inr (snap, snapSHA) \<Rightarrow> (case check_targets_meta L f c root snap now of
              Inl e \<Rightarrow> Inl e
            | Inr tm \<Rightarrow>
                (let payloadSHA = lib_sha256 L releasePayload in
                 if \<not> containsString (tm_ReleaseSHA256 tm) payloadSHA
                 then Inl (Err ''release is not in the signed targets metadata'')
                 else case releaseArtifacts r of
                   Inl e \<Rightarrow> Inl e
                 | Inr arts \<Rightarrow> (case rejected tm arts of
                     Some e \<Rightarrow> Inl e
                   | None \<Rightarrow> (case authorizeReleaseKey root keyID (releaseTypes r) of
                       Some e \<Rightarrow> Inl e
                     | None \<Rightarrow> Inr \<lparr>sd_active = True, sd_rootPayload = rootPayload,
                         sd_rootVersion = root_Version root, sd_snapshotVersion = snap_Version snap,
                         sd_snapshotSHA = snapSHA, sd_payloadSHA = payloadSHA\<rparr>)))))))"

section \<open>The transparency log\<close>

fun split_lines :: "string \<Rightarrow> string list" where
  "split_lines [] = [[]]"
| "split_lines (c # cs) =
     (if c = CHR 0x0A then [] # split_lines cs
      else case split_lines cs of [] \<Rightarrow> [[c]] | x # xs \<Rightarrow> (c # x) # xs)"

definition trim_newline :: "string \<Rightarrow> string" where
  "trim_newline s = (if s \<noteq> [] \<and> last s = CHR 0x0A then butlast s else s)"

definition genesis :: string where
  "genesis = replicate 64 CHR ''0''"

datatype log_scan = LogBad error | LogPresent | LogEnd string

fun scan_log :: "lib \<Rightarrow> string \<Rightarrow> string \<Rightarrow> string \<Rightarrow> string list \<Rightarrow> log_scan" where
  "scan_log L releaseID sha prev [] = LogEnd prev"
| "scan_log L releaseID sha prev (line # ls) =
     (if line = [] then scan_log L releaseID sha prev ls
      else case lib_dec_line L line of
        None \<Rightarrow> LogBad (Err ''transparency log failed'')
      | Some row \<Rightarrow>
          if tl_Prev row \<noteq> prev then LogBad (Err ''transparency log failed'')
          else if tl_PayloadSHA256 row = sha \<and> tl_ReleaseID row \<noteq> releaseID
          then LogBad (Err ''transparency log already has this release digest'')
          else if tl_PayloadSHA256 row = sha \<and> tl_ReleaseID row = releaseID then LogPresent
          else scan_log L releaseID sha (lib_sha256 L (line @ [CHR 0x0A])) ls)"

definition log_path :: "string \<Rightarrow> path" where
  "log_path dir = Join (abs_path dir) ''transparency.log''"

definition append_file :: "path \<Rightarrow> bytes \<Rightarrow> fs \<Rightarrow> error option \<times> fs" where
  "append_file p b f = (case open_trunc p f of Inl e \<Rightarrow> (Some e, f)
     | Inr q \<Rightarrow>
         (let old = (case node_at f q of Some (RegFile x) \<Rightarrow> x | _ \<Rightarrow> []) in
          case fault f (IoWrite p) of
            Some e \<Rightarrow> (Some e, put_node q (RegFile (old @ take (fs_partial f p) b)) f)
          | None \<Rightarrow> (fault f (IoSync p), put_node q (RegFile (old @ b)) f)))"

definition append_row :: "lib \<Rightarrow> string \<Rightarrow> string \<Rightarrow> string \<Rightarrow> string \<Rightarrow> fs \<Rightarrow> error option \<times> fs" where
  "append_row L dir releaseID sha txt f =
     (if txt \<noteq> [] \<and> last txt \<noteq> CHR 0x0A then (Some (Err ''transparency log failed''), f)
      else case scan_log L releaseID sha genesis (split_lines (trim_newline txt)) of
        LogBad e \<Rightarrow> (Some e, f)
      | LogPresent \<Rightarrow> (None, f)
      | LogEnd prev \<Rightarrow>
          (case lib_enc_line L \<lparr>tl_Prev = prev, tl_ReleaseID = releaseID, tl_PayloadSHA256 = sha\<rparr> of
             Inl e \<Rightarrow> (Some e, f)
           | Inr row \<Rightarrow> append_file (log_path dir) (row @ [CHR 0x0A]) f))"

definition appendTransparency :: "lib \<Rightarrow> string \<Rightarrow> string \<Rightarrow> string \<Rightarrow> fs \<Rightarrow> error option \<times> fs" where
  "appendTransparency L dir releaseID sha f =
     (case os_ReadFile f (log_path dir) of
        Inl e \<Rightarrow> if \<not> IsNotExist e then (Some e, f) else append_row L dir releaseID sha [] f
      | Inr b \<Rightarrow> append_row L dir releaseID sha b f)"

definition applySupplyChain ::
  "lib \<Rightarrow> string \<Rightarrow> supplyDecision \<Rightarrow> string \<Rightarrow> Database \<Rightarrow> fs \<Rightarrow> Database result \<times> fs" where
  "applySupplyChain L stateDir dec releaseID d f =
     (if \<not> sd_active dec then (Inr d, f)
      else case appendTransparency L stateDir releaseID (sd_payloadSHA dec) f of
        (Some e, f1) \<Rightarrow> (Inl e, f1)
      | (None, f1) \<Rightarrow> (Inr (d\<lparr>db_RootPayload := sd_rootPayload dec, db_RootVersion := sd_rootVersion dec,
          db_SnapshotVersion := sd_snapshotVersion dec, db_SnapshotSHA := sd_snapshotSHA dec\<rparr>), f1))"

section \<open>The SBOM signature\<close>

definition verifySBOMSignature :: "lib \<Rightarrow> fs \<Rightarrow> path \<Rightarrow> Release \<Rightarrow> Config \<Rightarrow> error option" where
  "verifySBOMSignature L f p r c =
     (if rel_SBOMKeyID r = [] \<and> rel_SBOMSignature r = [] \<and> \<not> cfg_RequireSBOMSignature c then None
      else if rel_SBOMKeyID r = [] \<or> rel_SBOMSignature r = [] then Some (Err ''signed SBOM is required'')
      else let encoded = lookup_key (cfg_TrustKeys c) (rel_SBOMKeyID r) in
        if encoded = [] then Some (Err ''SBOM signing key is not pinned'')
        else case decodeKey L encoded of
          Inl e \<Rightarrow> Some e
        | Inr pub \<Rightarrow> (case os_ReadFile f p of
            Inl e \<Rightarrow> Some e
          | Inr b \<Rightarrow> if \<not> lib_ed25519_verify L pub b (rel_SBOMSignature r)
              then Some (Err ''SBOM signature does not match'') else None))"

section \<open>What the metadata guarantees\<close>

text \<open>
  A threshold of distinct key IDs of the role, each of which verifies the payload under its own
  key.
\<close>

definition valid_signer :: "lib \<Rightarrow> bytes \<Rightarrow> keySignature list \<Rightarrow> (string \<times> string) list \<Rightarrow> string \<Rightarrow> bool" where
  "valid_signer L payload sigs ks k \<longleftrightarrow>
     (\<exists>sig \<in> set sigs. \<exists>pub. ks_KeyID sig = k \<and> decodeKey L (lookup_key ks k) = Inr pub
        \<and> lib_ed25519_verify L pub payload (ks_Signature sig))"

definition threshold_met :: "lib \<Rightarrow> bytes \<Rightarrow> keySignature list \<Rightarrow> (string \<times> string) list \<Rightarrow> metaRole \<Rightarrow> bool" where
  "threshold_met L payload sigs ks role \<longleftrightarrow> 1 \<le> role_Threshold role
     \<and> (\<exists>S \<subseteq> set (role_KeyIDs role). finite S \<and> role_Threshold role \<le> int (card S)
          \<and> (\<forall>k \<in> S. valid_signer L payload sigs ks k))"

lemma threshold_loop_sound:
  assumes "threshold_loop L payload ks role seen sigs = Inr res" "distinct seen"
    and "\<forall>k \<in> set seen. k \<in> set (role_KeyIDs role) \<and> valid_signer L payload all ks k" "set sigs \<subseteq> set all"
  shows "distinct res \<and> (\<forall>k \<in> set res. k \<in> set (role_KeyIDs role) \<and> valid_signer L payload all ks k)"
  using assms
proof (induction sigs arbitrary: seen)
  case (Cons sig sigs)
  show ?case
  proof (cases "\<not> containsString (role_KeyIDs role) (ks_KeyID sig) \<or> ks_KeyID sig \<in> set seen")
    case True
    then have "threshold_loop L payload ks role seen (sig # sigs) = threshold_loop L payload ks role seen sigs"
      by (simp only: threshold_loop.simps if_True)
    with Cons.IH [of seen] Cons.prems show ?thesis by (metis list.set_intros(2) subset_iff)
  next
    case False
    with Cons.prems(1) obtain pub where pub: "decodeKey L (lookup_key ks (ks_KeyID sig)) = Inr pub"
      "lib_ed25519_verify L pub payload (ks_Signature sig)"
      "threshold_loop L payload ks role (ks_KeyID sig # seen) sigs = Inr res"
      by (auto split: sum.splits if_splits)
    from Cons.prems(4) pub have "valid_signer L payload all ks (ks_KeyID sig)"
      by (auto simp: valid_signer_def)
    then show ?thesis
      using Cons.prems(2,3,4) False by (intro Cons.IH [OF pub(3)]) auto
  qed
qed auto

lemma verifyThreshold_sound:
  assumes "verifyThreshold L payload sigs ks role = None"
  shows "threshold_met L payload sigs ks role"
proof -
  from assms obtain res where res: "threshold_loop L payload ks role [] sigs = Inr res"
    "role_Threshold role \<le> int (length res)" "1 \<le> role_Threshold role"
    by (auto simp: verifyThreshold_def split: if_splits sum.splits)
  from threshold_loop_sound [OF res(1)] have "distinct res"
    "\<forall>k \<in> set res. k \<in> set (role_KeyIDs role) \<and> valid_signer L payload sigs ks k" by auto
  with res(2,3) show ?thesis
    unfolding threshold_met_def by (intro conjI exI [of _ "set res"]) (auto simp: distinct_card)
qed

lemma loadRoot_cases:
  assumes "loadRoot L f dir pinned stored now = Inr (root, payload)"
  obtains (first) doc :: multiSigned where "stored = []" "lib_sha256 L payload = pinned"
      "readSigned L f (Join (abs_path dir) ''root.json'') = Inr (payload, doc)"
      "StrictJSON (lib_dec_root L) payload = Inr root"
      "threshold_met L payload (ms_Signatures doc) (root_Keys root) (role_of root ''root'')"
  | (same) "stored \<noteq> []" "payload = stored" "StrictJSON (lib_dec_root L) stored = Inr root"
  | (rotated) current :: rootMeta and doc :: multiSigned where "stored \<noteq> []" "StrictJSON (lib_dec_root L) stored = Inr current"
      "readSigned L f (Join (abs_path dir) ''root.json'') = Inr (payload, doc)"
      "StrictJSON (lib_dec_root L) payload = Inr root" "root_Version current < root_Version root"
      "threshold_met L payload (ms_Signatures doc) (root_Keys current) (role_of current ''root'')"
      "threshold_met L payload (ms_Signatures doc) (root_Keys root) (role_of root ''root'')"
proof -
  obtain payload' doc candidate where cand: "readSigned L f (Join (abs_path dir) ''root.json'') = Inr (payload', doc)"
    "StrictJSON (lib_dec_root L) payload' = Inr candidate"
    using assms by (auto simp: loadRoot_def split: sum.splits prod.splits)
  show thesis
  proof (cases "stored = []")
    case True
    with assms cand have "candidate = root" "payload' = payload" "lib_sha256 L payload = pinned"
      "root_signed_by L root ''root'' payload doc = None"
      by (auto simp: loadRoot_def split: if_splits option.splits)
    with True cand show thesis
      by (intro first [of doc]) (auto simp: root_signed_by_def dest: verifyThreshold_sound)
  next
    case False
    with assms cand obtain current where cur: "StrictJSON (lib_dec_root L) stored = Inr current"
      by (auto simp: loadRoot_def split: if_splits sum.splits)
    consider "root = current" "payload = stored"
      | "candidate = root" "payload' = payload" "root_Version current < root_Version root"
        "root_signed_by L current ''root'' payload doc = None" "root_signed_by L root ''root'' payload doc = None"
      using assms cand cur False
      by (auto simp: loadRoot_def linorder_neq_iff split: if_splits option.splits)
    then show thesis
    proof cases
      case 1
      with False cur show thesis by (intro same) auto
    next
      case 2
      with False cur cand show thesis
        by (intro rotated [of current doc]) (auto simp: root_signed_by_def dest: verifyThreshold_sound)
    qed
  qed
qed

end
