(* ===== verification/OTA_Health.thy ===== *)
theory OTA_Health
  imports OTA_Files
begin

text \<open>
  Local health checks (\<open>internal/ota/health.go\<close>). A file check is a \<open>Stat\<close>; the systemd and
  HTTP probes leave the process, so their answers are functions in \<open>probes\<close>: the exit of
  \<open>systemctl is-active\<close>, the error of building the request, and the error or status code of
  the request.
\<close>

record probes =
  pr_systemd :: "string \<Rightarrow> error option"
  pr_http_request :: "string \<Rightarrow> error option"
  pr_http_do :: "string \<Rightarrow> int result"

definition probe_one :: "probes \<Rightarrow> fs \<Rightarrow> Check \<Rightarrow> error option" where
  "probe_one P f k =
     (if chk_Kind k = ''file'' then os_Stat f (abs_path (chk_Target k))
      else if chk_Kind k = ''systemd'' then pr_systemd P (chk_Target k)
      else if chk_Kind k = ''http'' then
        (case pr_http_request P (chk_Target k) of
           Some e \<Rightarrow> Some e
         | None \<Rightarrow> (case pr_http_do P (chk_Target k) of
             Inl e \<Rightarrow> Some e
           | Inr code \<Rightarrow> if code \<noteq> 200 then Some (Err ''HTTP status'') else None))
      else Some (Err ''unknown health check''))"

definition check_name :: "Check \<Rightarrow> string" where
  "check_name k = (if chk_Name k = [] then chk_Kind k @ '':'' @ chk_Target k else chk_Name k)"

fun LocalHealth :: "probes \<Rightarrow> fs \<Rightarrow> Check list \<Rightarrow> error option" where
  "LocalHealth P f [] = None"
| "LocalHealth P f (k # ks) =
     (case probe_one P f k of
        None \<Rightarrow> LocalHealth P f ks
      | Some _ \<Rightarrow> Some (HealthError (check_name k) (Err (chk_Kind k @ '' health check failed''))))"

lemma LocalHealth_None: "LocalHealth P f ks = None \<longleftrightarrow> (\<forall>k \<in> set ks. probe_one P f k = None)"
  by (induction ks) (auto split: option.splits)

lemma LocalHealth_Some:
  "LocalHealth P f ks = Some e \<Longrightarrow>
     \<exists>pre k post. ks = pre @ k # post \<and> (\<forall>k' \<in> set pre. probe_one P f k' = None)
       \<and> probe_one P f k \<noteq> None
       \<and> e = HealthError (check_name k) (Err (chk_Kind k @ '' health check failed''))"
proof (induction ks)
  case (Cons k ks)
  show ?case
  proof (cases "probe_one P f k")
    case None
    with Cons obtain pre k' post where "ks = pre @ k' # post"
      "\<forall>k'' \<in> set pre. probe_one P f k'' = None" "probe_one P f k' \<noteq> None"
      "e = HealthError (check_name k') (Err (chk_Kind k' @ '' health check failed''))"
      by auto
    with None show ?thesis by (intro exI [of _ "k # pre"] exI [of _ k'] exI [of _ post]) auto
  next
    case (Some x)
    with Cons.prems show ?thesis by (intro exI [of _ "[]"] exI [of _ k] exI [of _ ks]) auto
  qed
qed simp

end
