(* ===== verification/OTA_Payload.thy ===== *)
theory OTA_Payload
  imports OTA_Verify OTA_Health "HOL-Library.Multiset"
begin

text \<open>
  Side payloads of schema-2 releases (\<open>internal/ota/payload.go\<close>): the order in which targets
  are applied, applying them by moving \<open>current\<close> to \<open>previous\<close> and copying the verified
  artifact, and undoing or finalising that. \<open>orderedTargets\<close> is shown to return a
  dependency-respecting permutation whenever \<open>topoTargets\<close> accepts the list.
\<close>

section \<open>Ordering the targets\<close>

fun init_counts :: "Target list \<Rightarrow> counts \<Rightarrow> counts" where
  "init_counts [] inc = inc"
| "init_counts (t # ts) inc = init_counts ts (inc(tgt_ID t := int (length (tgt_DependsOn t))))"

fun dec_rest_deps :: "string \<Rightarrow> string \<Rightarrow> string list \<Rightarrow> counts \<Rightarrow> counts" where
  "dec_rest_deps i tid [] inc = inc"
| "dec_rest_deps i tid (d # ds) inc =
     dec_rest_deps i tid ds (if d = i then inc(tid := inc tid - 1) else inc)"

fun dec_rest :: "string \<Rightarrow> Target list \<Rightarrow> counts \<Rightarrow> counts" where
  "dec_rest i [] inc = inc"
| "dec_rest i (t # ts) inc = dec_rest i ts (dec_rest_deps i (tgt_ID t) (tgt_DependsOn t) inc)"

fun order_round :: "Target list \<Rightarrow> Target list \<Rightarrow> counts \<times> Target list \<Rightarrow> counts \<times> Target list" where
  "order_round [] rest s = s"
| "order_round (t # ready) rest s =
     order_round ready rest (dec_rest (tgt_ID t) rest (fst s), snd s @ [t])"

function ordered_loop :: "nat \<Rightarrow> Target list \<Rightarrow> counts \<Rightarrow> Target list \<Rightarrow> Target list result" where
  "ordered_loop n left inc out =
     (if length out < n then
        (let ready = filter (\<lambda>t. inc (tgt_ID t) = 0) left;
             rest = filter (\<lambda>t. inc (tgt_ID t) \<noteq> 0) left
         in if ready = [] then Inl (Err ''target dependency cycle'')
            else ordered_loop n rest (fst (order_round ready rest (inc, out)))
                   (snd (order_round ready rest (inc, out))))
      else Inr out)"
  by pat_completeness auto
termination
proof (relation "measure (\<lambda>(n, left, inc, out). length left)", goal_cases)
  case (2 n left inc out ready rest)
  then obtain t where "t \<in> set left" "inc (tgt_ID t) = 0"
    by (auto simp: filter_empty_conv)
  then have "length (filter (\<lambda>t. inc (tgt_ID t) \<noteq> 0) left) < length left"
    by (intro length_filter_less [of t]) auto
  with 2 show ?case by simp
qed simp

declare ordered_loop.simps [simp del]

definition orderedTargets :: "Target list \<Rightarrow> Target list result" where
  "orderedTargets ts = (case topoTargets ts of
       Some e \<Rightarrow> Inl e
     | None \<Rightarrow> ordered_loop (length ts) ts (init_counts ts (\<lambda>_. 0)) [])"

section \<open>Applying, undoing and finalising\<close>

definition cache_file :: "string \<Rightarrow> Artifact \<Rightarrow> path" where
  "cache_file sd a = Join (Join (abs_path sd) ''cache'') (art_SHA256 a @ ''.raucb'')"

definition payload_dir :: "string \<Rightarrow> Target \<Rightarrow> path" where
  "payload_dir sd t = Join (Join (abs_path sd) ''payloads'') (tgt_ID t)"

definition current_file :: "string \<Rightarrow> Target \<Rightarrow> path" where
  "current_file sd t = Join (payload_dir sd t) ''current''"

definition previous_file :: "string \<Rightarrow> Target \<Rightarrow> path" where
  "previous_file sd t = Join (payload_dir sd t) ''previous''"

definition is_side :: "Target \<Rightarrow> bool" where
  "is_side t \<longleftrightarrow> tgt_Type t \<noteq> ''os.rauc''"

fun rollback_targets :: "string \<Rightarrow> Target list \<Rightarrow> fs \<Rightarrow> error option \<times> fs" where
  "rollback_targets sd [] f = (None, f)"
| "rollback_targets sd (t # ts) f =
     (if \<not> is_side t then rollback_targets sd ts f
      else if os_Stat f (previous_file sd t) = None then
        (let f1 = snd (os_Remove (current_file sd t) f) in
         case os_Rename (previous_file sd t) (current_file sd t) f1 of
           (Some e, f2) \<Rightarrow> (Some e, f2)
         | (None, f2) \<Rightarrow> rollback_targets sd ts f2)
      else rollback_targets sd ts (snd (os_Remove (current_file sd t) f)))"

definition rollbackSidePayloads :: "string \<Rightarrow> Release \<Rightarrow> fs \<Rightarrow> error option \<times> fs" where
  "rollbackSidePayloads sd r f = rollback_targets sd (rel_Targets r) f"

fun commit_targets :: "string \<Rightarrow> Target list \<Rightarrow> fs \<Rightarrow> fs" where
  "commit_targets sd [] f = f"
| "commit_targets sd (t # ts) f =
     (if \<not> is_side t then commit_targets sd ts f
      else commit_targets sd ts (snd (os_Remove (previous_file sd t) f)))"

definition commitSidePayloads :: "string \<Rightarrow> Release \<Rightarrow> fs \<Rightarrow> fs" where
  "commitSidePayloads sd r f = commit_targets sd (rel_Targets r) f"

text \<open>
  The storage requirement is a comparison of 64-bit words: the product of free blocks and
  block size wraps, as in the source.
\<close>

definition storage_check :: "path \<Rightarrow> Target \<Rightarrow> fs \<Rightarrow> error option" where
  "storage_check dir t f =
     (if tgt_StorageBytes t > 0 then
        (case fault f (IoStatfs dir) of Some e \<Rightarrow> Some e
         | None \<Rightarrow> if fs_bavail f dir * fs_bsize f < word_of_int (tgt_StorageBytes t)
             then Some (Err ''payload storage requirement not met'') else None)
      else None)"

definition keep_previous :: "string \<Rightarrow> Target \<Rightarrow> fs \<Rightarrow> error option \<times> fs" where
  "keep_previous sd t f =
     (if os_Stat f (current_file sd t) = None then
        (let f1 = snd (os_Remove (previous_file sd t) f)
         in os_Rename (current_file sd t) (previous_file sd t) f1)
      else (None, f))"

definition payload_health :: "probes \<Rightarrow> Check list \<Rightarrow> Target \<Rightarrow> fs \<Rightarrow> error option" where
  "payload_health P checks t f =
     (if tgt_Health t = [] then None
      else let selected = filter (\<lambda>c. chk_Name c = tgt_Health t) checks
           in if selected = []
              then Some (Err (''payload health check not configured: '' @ tgt_Health t))
              else LocalHealth P f selected)"

text \<open>
  One target: the error, whether it was added to \<open>touched\<close>, and the file system.
\<close>

definition apply_one ::
  "lib \<Rightarrow> probes \<Rightarrow> string \<Rightarrow> Check list \<Rightarrow> Target \<Rightarrow> fs \<Rightarrow> error option \<times> bool \<times> fs" where
  "apply_one L P sd checks t f =
     (case CheckArtifact L f (cache_file sd (tgt_Artifact t)) (tgt_Artifact t) of
        Some e \<Rightarrow> (Some e, False, f)
      | None \<Rightarrow> (case os_MkdirAll (payload_dir sd t) f of
          (Some e, f1) \<Rightarrow> (Some e, False, f1)
        | (None, f1) \<Rightarrow> (case storage_check (payload_dir sd t) t f1 of
            Some e \<Rightarrow> (Some e, False, f1)
          | None \<Rightarrow> (case keep_previous sd t f1 of
              (Some e, f2) \<Rightarrow> (Some e, False, f2)
            | (None, f2) \<Rightarrow>
                (case copyFile (cache_file sd (tgt_Artifact t)) (current_file sd t) f2 of
                   (Some e, f3) \<Rightarrow> (Some e, True, f3)
                 | (None, f3) \<Rightarrow> (payload_health P checks t f3, True, f3))))))"

fun apply_targets ::
  "lib \<Rightarrow> probes \<Rightarrow> string \<Rightarrow> Check list \<Rightarrow> Target list \<Rightarrow> Target list \<Rightarrow> fs
    \<Rightarrow> error option \<times> Target list \<times> fs" where
  "apply_targets L P sd checks touched [] f = (None, touched, f)"
| "apply_targets L P sd checks touched (t # ts) f =
     (if \<not> is_side t then apply_targets L P sd checks touched ts f
      else case apply_one L P sd checks t f of
        (eo, tch, f1) \<Rightarrow>
          (let touched' = (if tch then touched @ [t] else touched) in
           case eo of Some e \<Rightarrow> (Some e, touched', f1)
           | None \<Rightarrow> apply_targets L P sd checks touched' ts f1))"

definition applySidePayloads ::
  "lib \<Rightarrow> probes \<Rightarrow> string \<Rightarrow> Release \<Rightarrow> Check list \<Rightarrow> fs \<Rightarrow> error option \<times> fs" where
  "applySidePayloads L P sd r checks f =
     (case orderedTargets (rel_Targets r) of
        Inl e \<Rightarrow> (Some e, f)
      | Inr order \<Rightarrow> (case apply_targets L P sd checks [] order f of
          (None, touched, f1) \<Rightarrow> (None, f1)
        | (Some e, touched, f1) \<Rightarrow>
            (Some e, if touched = [] then f1 else snd (rollback_targets sd touched f1))))"

section \<open>The order respects the dependencies\<close>

lemma dec_rest_deps_count: "dec_rest_deps i tid ds inc x = inc x - (if x = tid then int (count_list ds i) else 0)"
  by (induction ds arbitrary: inc) auto

lemma dec_rest_mentions: "dec_rest i ts inc x = inc x - int (count_list (mentions i ts) x)"
proof (induction ts arbitrary: inc)
  case (Cons t ts)
  have "count_list (tgt_DependsOn t) i = length (filter ((=) i) (tgt_DependsOn t))"
    by (simp add: count_list_eq_length_filter)
  with Cons show ?case by (simp add: mentions_def dec_rest_deps_count count_list_map_const)
qed (simp add: mentions_def)

lemma mentions_other: "tgt_ID t \<notin> set (map tgt_ID ts) \<Longrightarrow> count_list (mentions i ts) (tgt_ID t) = 0"
  by (metis count_list_0_iff image_eqI list.set_map set_mentions)

lemma mentions_distinct:
  "distinct (map tgt_ID ts) \<Longrightarrow> t \<in> set ts \<Longrightarrow>
    count_list (mentions i ts) (tgt_ID t) = count_list (tgt_DependsOn t) i"
proof (induction ts)
  case (Cons u ts)
  have c: "count_list (mentions i (u # ts)) x
      = (if tgt_ID u = x then count_list (tgt_DependsOn u) i else 0) + count_list (mentions i ts) x" for x
    by (simp add: mentions_def count_list_map_const count_list_eq_length_filter)
  show ?case
  proof (cases "t = u")
    case True
    with Cons.prems c mentions_other [of u ts i] show ?thesis by simp
  next
    case False
    with Cons.prems have "t \<in> set ts" "tgt_ID u \<noteq> tgt_ID t" by force+
    with Cons c show ?thesis by simp
  qed
qed simp

lemma need_other: "tgt_ID t \<notin> set (map tgt_ID ts) \<Longrightarrow> need ts P (tgt_ID t) = 0"
  by (auto simp: need_zero_iff dep_rel_def)

lemma init_counts_other: "x \<notin> set (map tgt_ID ts) \<Longrightarrow> init_counts ts inc x = inc x"
  by (induction ts arbitrary: inc) auto

lemma init_counts_need:
  "distinct (map tgt_ID ts) \<Longrightarrow> t \<in> set ts \<Longrightarrow> init_counts ts inc (tgt_ID t) = need ts {} (tgt_ID t)"
proof (induction ts arbitrary: inc)
  case (Cons u ts)
  show ?case
  proof (cases "t = u")
    case True
    with Cons.prems need_other [of u ts "{}"] init_counts_other [of "tgt_ID u" ts] show ?thesis
      by (simp add: need_Cons)
  next
    case False
    with Cons.prems have "t \<in> set ts" "tgt_ID u \<noteq> tgt_ID t" by force+
    with Cons show ?thesis by (simp add: need_Cons)
  qed
qed simp

lemma order_round_out [simp]: "snd (order_round ready rest s) = snd s @ ready"
  by (induction ready arbitrary: s) auto

lemma order_round_inc:
  assumes "distinct (map tgt_ID ts)" "distinct (map tgt_ID rest)" "set rest \<subseteq> set ts"
    and "t \<in> set rest" "distinct (map tgt_ID ready)" "set (map tgt_ID ready) \<inter> P = {}"
    and "fst s (tgt_ID t) = need ts P (tgt_ID t)"
  shows "fst (order_round ready rest s) (tgt_ID t) = need ts (P \<union> set (map tgt_ID ready)) (tgt_ID t)"
  using assms(5-7)
proof (induction ready arbitrary: s P)
  case (Cons r ready)
  let ?s = "(dec_rest (tgt_ID r) rest (fst s), snd s @ [r])"
  have "tgt_ID r \<notin> P" using Cons.prems by auto
  moreover have "count_list (mentions (tgt_ID r) rest) (tgt_ID t)
      = count_list (mentions (tgt_ID r) ts) (tgt_ID t)"
    using assms(1-4) by (auto simp: mentions_distinct subset_iff)
  ultimately have "fst ?s (tgt_ID t) = need ts (insert (tgt_ID r) P) (tgt_ID t)"
    using Cons.prems(3) by (simp add: dec_rest_mentions need_insert)
  from Cons.IH [OF _ _ this] Cons.prems show ?case by auto
qed simp

lemma deps_before_append:
  "deps_before ts l \<Longrightarrow> (\<And>x d. x \<in> set xs \<Longrightarrow> (d, x) \<in> dep_rel ts \<Longrightarrow> d \<in> set l) \<Longrightarrow>
    deps_before ts (l @ xs)"
proof (induction xs rule: rev_induct)
  case (snoc x xs)
  then have "deps_before ts ((l @ xs) @ [x])" by (subst deps_before_snoc) auto
  then show ?case by simp
qed simp

text \<open>The loop invariant of \<open>orderedTargets\<close>, and that some target is always ready.\<close>

definition ord_inv :: "Target list \<Rightarrow> Target list \<Rightarrow> counts \<Rightarrow> Target list \<Rightarrow> bool" where
  "ord_inv ts left inc out \<longleftrightarrow>
     mset out + mset left = mset ts \<and> deps_before ts (map tgt_ID out)
     \<and> (\<forall>t \<in> set left. inc (tgt_ID t) = need ts (set (map tgt_ID out)) (tgt_ID t))"

lemma ord_inv_ready:
  assumes inv: "ord_inv ts left inc out" and topo: "topoTargets ts = None" and "left \<noteq> []"
  shows "\<exists>t \<in> set left. inc (tgt_ID t) = 0"
proof -
  from topo have dom: "Domain (dep_rel ts) \<subseteq> set (map tgt_ID ts)" and acy: "acyclic (dep_rel ts)"
    by (auto simp: topoTargets_iff)
  let ?Q = "set (map tgt_ID left)"
  obtain x where x: "x \<in> ?Q" "\<And>d. (d, x) \<in> dep_rel ts \<Longrightarrow> d \<notin> ?Q"
    using wfE_min' [OF finite_acyclic_wf [OF finite_dep_rel acy], of ?Q] \<open>left \<noteq> []\<close>
    by (metis list.map_disc_iff set_empty)
  have ids: "set (map tgt_ID ts) = set (map tgt_ID out) \<union> ?Q"
    using inv by (metis ord_inv_def image_Un list.set_map set_mset_mset set_mset_union)
  have "need ts (set (map tgt_ID out)) x = 0"
    unfolding need_zero_iff using x(2) dom ids by (blast dest: DomainI)
  with x(1) inv show ?thesis by (auto simp: ord_inv_def)
qed

lemma ord_inv_step:
  assumes inv: "ord_inv ts left inc out" and dist: "distinct (map tgt_ID ts)"
    and ready: "ready = filter (\<lambda>t. inc (tgt_ID t) = 0) left"
    and rest: "rest = filter (\<lambda>t. inc (tgt_ID t) \<noteq> 0) left"
  shows "ord_inv ts rest (fst (order_round ready rest (inc, out))) (out @ ready)"
proof -
  from inv have ms: "mset out + mset left = mset ts" and before: "deps_before ts (map tgt_ID out)"
    and inc: "\<forall>t \<in> set left. inc (tgt_ID t) = need ts (set (map tgt_ID out)) (tgt_ID t)"
    by (auto simp: ord_inv_def)
  have "mset (map tgt_ID (out @ left)) = mset (map tgt_ID ts)"
    using ms by (metis image_mset_union mset_append mset_map)
  then have dall: "distinct (map tgt_ID (out @ left))"
    using dist by (metis mset_eq_imp_distinct_iff)
  have sub: "set left \<subseteq> set ts" using ms by (metis set_mset_mset set_mset_union sup_ge2)
  have d1: "distinct (map tgt_ID rest)" "distinct (map tgt_ID ready)"
    "set (map tgt_ID ready) \<inter> set (map tgt_ID out) = {}"
    using dall by (auto simp: ready rest distinct_map_filter)
  have "mset left = mset ready + mset rest"
    unfolding ready rest by (simp add: multiset_partition [symmetric])
  with ms have m: "mset (out @ ready) + mset rest = mset ts"
    by (simp add: add.assoc)
  have b: "deps_before ts (map tgt_ID (out @ ready))"
    using before inc by (auto intro!: deps_before_append simp: ready need_zero_iff)
  have "\<forall>t \<in> set rest. fst (order_round ready rest (inc, out)) (tgt_ID t)
      = need ts (set (map tgt_ID (out @ ready))) (tgt_ID t)"
  proof
    fix t assume t: "t \<in> set rest"
    then have "fst (inc, out) (tgt_ID t) = need ts (set (map tgt_ID out)) (tgt_ID t)"
      using inc by (auto simp: rest)
    from order_round_inc [OF dist d1(1) _ t d1(2,3) this] sub show
      "fst (order_round ready rest (inc, out)) (tgt_ID t)
        = need ts (set (map tgt_ID (out @ ready))) (tgt_ID t)"
      by (auto simp: rest)
  qed
  with m b show ?thesis by (auto simp: ord_inv_def)
qed

lemma ordered_loop_ok:
  "ord_inv ts left inc out \<Longrightarrow> topoTargets ts = None \<Longrightarrow>
    \<exists>res. ordered_loop (length ts) left inc out = Inr res \<and> mset res = mset ts
      \<and> deps_before ts (map tgt_ID res)"
proof (induction "length ts" left inc out rule: ordered_loop.induct)
  case (1 left inc out)
  from "1.prems"(1) have len: "length out + length left = length ts"
    by (metis ord_inv_def size_mset size_union)
  show ?case
  proof (cases "length out < length ts")
    case True
    let ?ready = "filter (\<lambda>t. inc (tgt_ID t) = 0) left"
    let ?rest = "filter (\<lambda>t. inc (tgt_ID t) \<noteq> 0) left"
    from True len have "left \<noteq> []" by auto
    then have ne: "?ready \<noteq> []"
      using ord_inv_ready [OF "1.prems"] by (auto simp: filter_empty_conv)
    have "distinct (map tgt_ID ts)" using "1.prems"(2) by (simp add: topoTargets_iff)
    from ord_inv_step [OF "1.prems"(1) this refl refl]
    have "ord_inv ts ?rest (fst (order_round ?ready ?rest (inc, out)))
      (snd (order_round ?ready ?rest (inc, out)))" by simp
    from "1.hyps" [OF True refl refl ne this "1.prems"(2)] True ne show ?thesis
      by (simp add: ordered_loop.simps [of _ left inc out] Let_def)
  next
    case False
    with len have "length left = 0" by linarith
    then have "left = []" by simp
    with False "1.prems"(1) show ?thesis
      by (simp add: ordered_loop.simps [of _ "[]" inc out] ord_inv_def)
  qed
qed

lemma orderedTargets_ok:
  assumes "topoTargets ts = None"
  shows "\<exists>res. orderedTargets ts = Inr res \<and> mset res = mset ts \<and> deps_before ts (map tgt_ID res)"
proof -
  have "ord_inv ts ts (init_counts ts (\<lambda>_. 0)) []"
    using assms by (auto simp: ord_inv_def topoTargets_iff init_counts_need)
  from ordered_loop_ok [OF this assms] assms show ?thesis by (simp add: orderedTargets_def)
qed


section \<open>Payload files\<close>

text \<open>
  Under \<open>abs_path sd\<close> the payload of target \<open>t\<close> lives in \<open>payloads/<ID>/current\<close>, the one it
  replaced in \<open>payloads/<ID>/previous\<close>, and the verified artifacts in \<open>cache\<close>. Identifiers and
  digests are plain names, so these paths never leave the state directory and never
  coincide for different targets.
\<close>

lemma plain_names [simp]:
  "plain ''cache''" "plain ''payloads''" "plain ''current''" "plain ''previous''"
  by (simp_all add: plain_def)

lemma payload_paths:
  assumes "is_identifier (tgt_ID t)"
  shows "payload_dir sd t = abs_path sd @ [''payloads'', tgt_ID t]"
    "current_file sd t = abs_path sd @ [''payloads'', tgt_ID t, ''current'']"
    "previous_file sd t = abs_path sd @ [''payloads'', tgt_ID t, ''previous'']"
  using assms
  by (simp_all add: payload_dir_def current_file_def previous_file_def plain_identifier)

lemma cache_file_path:
  "digestPattern (art_SHA256 a) \<Longrightarrow> cache_file sd a = abs_path sd @ [''cache'', art_SHA256 a @ ''.raucb'']"
  by (simp add: cache_file_def plain_digest)

definition reg_or_none :: "fs \<Rightarrow> path \<Rightarrow> bool" where
  "reg_or_none f p \<longleftrightarrow> (case node_at f p of None \<Rightarrow> True | Some (RegFile _) \<Rightarrow> True | _ \<Rightarrow> False)"

text \<open>
  \<open>payload_quiet\<close>: the calls that move a target's two files do not fail. \<open>payload_sane\<close>: each
  of the two is absent or a regular file, and there is no \<open>previous\<close> without a \<open>current\<close>.
\<close>

definition payload_quiet :: "string \<Rightarrow> Target \<Rightarrow> fs \<Rightarrow> bool" where
  "payload_quiet sd t f \<longleftrightarrow>
     fault f (IoStat (current_file sd t)) = None \<and> fault f (IoStat (previous_file sd t)) = None
   \<and> fault f (IoRemove (current_file sd t)) = None \<and> fault f (IoRemove (previous_file sd t)) = None
   \<and> fault f (IoRename (current_file sd t) (previous_file sd t)) = None
   \<and> fault f (IoRename (previous_file sd t) (current_file sd t)) = None"

definition payload_sane :: "string \<Rightarrow> Target \<Rightarrow> fs \<Rightarrow> bool" where
  "payload_sane sd t f \<longleftrightarrow>
     reg_or_none f (current_file sd t) \<and> reg_or_none f (previous_file sd t)
   \<and> (node_at f (current_file sd t) = None \<longrightarrow> node_at f (previous_file sd t) = None)"

lemma reg_follow: "reg_or_none f p \<Longrightarrow> follow f p = Inr p"
  by (rule follow_plain) (auto simp: reg_or_none_def)

lemma os_Stat_reg:
  "fault f (IoStat p) = None \<Longrightarrow> reg_or_none f p \<Longrightarrow> os_Stat f p = None \<longleftrightarrow> node_at f p \<noteq> None"
  by (auto simp: os_Stat_def reg_follow)

lemma os_Remove_reg:
  assumes "fault f (IoRemove p) = None" "reg_or_none f p" "p \<noteq> []"
  shows "node_at (snd (os_Remove p f)) q = (if q = p then None else node_at f q)"
  using assms by (auto simp: os_Remove_def reg_or_none_def node_at_del split: option.splits node.splits)

lemma os_Remove_fault [simp]: "fs_fault (snd (os_Remove p f)) = fs_fault f"
  by (auto simp: os_Remove_def split: option.splits node.splits)

lemma os_Rename_fault [simp]: "fs_fault (snd (os_Rename p q f)) = fs_fault f"
  by (auto simp: os_Rename_def split: option.splits node.splits)

lemma fault_cong: "fs_fault f = fs_fault g \<Longrightarrow> fault f op = fault g op"
  by (simp add: fault_def)

lemma os_Rename_reg:
  assumes "fault f (IoRename p q) = None" "node_at f p = Some (RegFile b)" "parent_ok f q"
    "reg_or_none f q" "p \<noteq> q"
  shows "os_Rename p q f = (None, put_node q (RegFile b) (del_node p f))"
  using assms by (auto simp: os_Rename_def reg_or_none_def)

lemma put_del_node:
  "p \<noteq> [] \<Longrightarrow> q \<noteq> [] \<Longrightarrow> node_at (put_node q n (del_node p f)) r
     = (if r = q then Some n else if r = p then None else node_at f r)"
  by (auto simp: node_at_put node_at_del)


lemma current_previous_distinct: "is_identifier (tgt_ID t) \<Longrightarrow> current_file sd t \<noteq> previous_file sd t"
  by (simp add: payload_paths)

text \<open>What each call does to the two files of one target, and that it leaves the rest alone.\<close>

lemma keep_previous_effect:
  assumes "is_identifier (tgt_ID t)" "payload_quiet sd t f" "payload_sane sd t f"
    and dir: "node_at f (payload_dir sd t) = Some Directory"
  shows "\<exists>f1. keep_previous sd t f = (None, f1) \<and> fs_fault f1 = fs_fault f
    \<and> node_at f1 (current_file sd t) = None
    \<and> node_at f1 (previous_file sd t) = node_at f (current_file sd t)
    \<and> (\<forall>q. q \<noteq> current_file sd t \<longrightarrow> q \<noteq> previous_file sd t \<longrightarrow> node_at f1 q = node_at f q)"
proof (cases "node_at f (current_file sd t) = None")
  case True
  with assms show ?thesis
    by (auto simp: keep_previous_def payload_quiet_def payload_sane_def os_Stat_reg)
next
  case False
  let ?c = "current_file sd t" and ?p = "previous_file sd t"
  let ?f1 = "snd (os_Remove ?p f)"
  from False assms(3) obtain b where b: "node_at f ?c = Some (RegFile b)"
    by (auto simp: payload_sane_def reg_or_none_def split: option.splits node.splits)
  have ne: "?c \<noteq> ?p" "?c \<noteq> []" "?p \<noteq> []" "payload_dir sd t \<noteq> ?p" "butlast ?p = payload_dir sd t"
    using assms(1) by (simp_all add: payload_paths butlast_append)
  have f1: "node_at ?f1 q = (if q = ?p then None else node_at f q)" for q
    using assms(2,3) ne by (simp add: os_Remove_reg payload_quiet_def payload_sane_def)
  have "os_Rename ?c ?p ?f1 = (None, put_node ?p (RegFile b) (del_node ?c ?f1))"
    using assms(2) ne b dir
    by (intro os_Rename_reg)
      (auto simp: f1 payload_quiet_def reg_or_none_def parent_ok_def fault_def)
  moreover have "os_Stat f ?c = None"
    using assms(2,3) b by (simp add: os_Stat_reg payload_quiet_def payload_sane_def)
  ultimately show ?thesis
    using b ne by (auto simp: keep_previous_def put_del_node f1)
qed

lemma write_file_at:
  "p \<noteq> [] \<Longrightarrow> \<exists>b'. node_at (snd (write_file p b f)) p = Some (RegFile b')
     \<and> (fst (write_file p b f) = None \<longrightarrow> b' = b)"
  by (auto simp: write_file_def node_at_put split: option.splits)

lemma write_file_reg: "p \<noteq> [] \<Longrightarrow> reg_or_none (snd (write_file p b f)) p"
  by (auto simp: write_file_def reg_or_none_def node_at_put split: option.splits)

lemma write_file_fault [simp]: "fs_fault (snd (write_file p b f)) = fs_fault f"
  by (auto simp: write_file_def split: option.splits)

lemma copyFile_fault [simp]: "fs_fault (snd (copyFile s d f)) = fs_fault f"
  by (auto simp: copyFile_def Let_def split: option.splits sum.splits node.splits)

lemma open_trunc_reg: "reg_or_none f d \<Longrightarrow> open_trunc d f = Inr q \<Longrightarrow> q = d"
  by (auto simp: open_trunc_def reg_follow split: option.splits node.splits if_splits)

lemma copyFile_effect:
  assumes "reg_or_none f d" "d \<noteq> []"
  shows "(\<forall>q. q \<noteq> d \<longrightarrow> node_at (snd (copyFile s d f)) q = node_at f q)"
    and "reg_or_none (snd (copyFile s d f)) d"
proof -
  have "snd (copyFile s d f) = f
     \<or> snd (copyFile s d f) = put_node d (RegFile []) f
     \<or> (\<exists>b. snd (copyFile s d f) = snd (write_file d b (put_node d (RegFile []) f)))"
    using open_trunc_reg [OF assms(1)]
    by (auto simp: copyFile_def Let_def split: option.splits sum.splits node.splits)
  then show "\<forall>q. q \<noteq> d \<longrightarrow> node_at (snd (copyFile s d f)) q = node_at f q"
    "reg_or_none (snd (copyFile s d f)) d"
    using assms write_file_reg [OF assms(2)]
    by (auto simp: node_at_put write_file_node reg_or_none_def)
qed

lemma copyFile_ok:
  assumes "fst (copyFile s d f) = None" "reg_or_none f d" "node_at f s = Some (RegFile b)"
    "s \<noteq> d" "d \<noteq> []"
  shows "node_at (snd (copyFile s d f)) d = Some (RegFile b)"
proof -
  have "follow f s = Inr s" by (rule follow_plain) (simp add: assms(3))
  with assms show ?thesis
    using open_trunc_reg [OF assms(2)] write_file_at [OF assms(5), of b "put_node d (RegFile []) f"]
    by (auto simp: copyFile_def Let_def node_at_put split: option.splits sum.splits node.splits)
qed

lemma rollback_one:
  assumes "is_identifier (tgt_ID t)" "payload_quiet sd t f" "is_side t"
    and "reg_or_none f (current_file sd t)" "reg_or_none f (previous_file sd t)"
    and "node_at f (previous_file sd t) \<noteq> None \<Longrightarrow> node_at f (payload_dir sd t) = Some Directory"
  shows "\<exists>f1. rollback_targets sd (t # ts) f = rollback_targets sd ts f1 \<and> fs_fault f1 = fs_fault f
    \<and> node_at f1 (current_file sd t) = node_at f (previous_file sd t)
    \<and> node_at f1 (previous_file sd t) = None
    \<and> (\<forall>q. q \<noteq> current_file sd t \<longrightarrow> q \<noteq> previous_file sd t \<longrightarrow> node_at f1 q = node_at f q)"
proof -
  let ?c = "current_file sd t" and ?p = "previous_file sd t"
  let ?f1 = "snd (os_Remove ?c f)"
  have ne: "?c \<noteq> ?p" "?c \<noteq> []" "?p \<noteq> []" "payload_dir sd t \<noteq> ?c" "butlast ?c = payload_dir sd t"
    using assms(1) by (simp_all add: payload_paths butlast_append)
  have f1: "node_at ?f1 q = (if q = ?c then None else node_at f q)" for q
    using assms(2,4) ne by (simp add: os_Remove_reg payload_quiet_def)
  show ?thesis
  proof (cases "node_at f ?p = None")
    case True
    then have "os_Stat f ?p \<noteq> None"
      using assms(2,5) by (simp add: os_Stat_reg payload_quiet_def)
    with True assms(3) ne show ?thesis
      by (intro exI [of _ ?f1]) (auto simp: f1)
  next
    case False
    with assms(5) obtain b where b: "node_at f ?p = Some (RegFile b)"
      by (auto simp: reg_or_none_def split: option.splits node.splits)
    have "os_Stat f ?p = None"
      using assms(2,5) False by (simp add: os_Stat_reg payload_quiet_def)
    moreover have "os_Rename ?p ?c ?f1 = (None, put_node ?c (RegFile b) (del_node ?p ?f1))"
      using assms(2) assms(6) [OF False] ne b
      by (intro os_Rename_reg)
        (auto simp: f1 payload_quiet_def reg_or_none_def parent_ok_def fault_def)
    ultimately show ?thesis
      using assms(3) ne b
      by (intro exI [of _ "put_node ?c (RegFile b) (del_node ?p ?f1)"])
        (auto simp: put_del_node f1)
  qed
qed


lemma mkdirs_length:
  "length q > length p + length xs \<Longrightarrow> node_at (snd (mkdirs p xs f)) q = node_at f q"
  by (induction xs arbitrary: p f) (auto simp: node_at_put split: option.splits node.splits)

lemma mkdirs_ok:
  "fst (mkdirs p xs f) = None \<Longrightarrow> node_at f p = Some Directory \<Longrightarrow>
     node_at (snd (mkdirs p xs f)) (p @ xs) = Some Directory"
proof (induction xs arbitrary: p f)
  case (Cons x xs)
  from Cons.IH [of "p @ [x]"] Cons.prems show ?case
    by (auto simp: node_at_put split: option.splits node.splits)
qed simp

lemma os_MkdirAll_effect:
  shows "fs_fault (snd (os_MkdirAll p f)) = fs_fault f"
    and "length q > length p \<Longrightarrow> node_at (snd (os_MkdirAll p f)) q = node_at f q"
    and "node_at f q = Some n \<Longrightarrow> node_at (snd (os_MkdirAll p f)) q = Some n"
    and "fst (os_MkdirAll p f) = None \<Longrightarrow> node_at (snd (os_MkdirAll p f)) p = Some Directory"
  using mkdirs_ok [of "[]" p f]
  by (auto simp: os_MkdirAll_def mkdirs_length mkdirs_keeps split: option.splits)

text \<open>
  Files below a payload directory. Applying a target creates directories, and when it reports
  the target as touched it has saved the old \<open>current\<close> as \<open>previous\<close>; every other such file is
  as before.
\<close>

definition deep :: "string \<Rightarrow> path \<Rightarrow> bool" where
  "deep sd q \<longleftrightarrow> length (abs_path sd) + 2 < length q"

lemma deep_files:
  "is_identifier (tgt_ID t) \<Longrightarrow> deep sd (current_file sd t)"
  "is_identifier (tgt_ID t) \<Longrightarrow> deep sd (previous_file sd t)"
  by (simp_all add: deep_def payload_paths)

lemma mkdir_payload:
  assumes "is_identifier (tgt_ID t)" "payload_quiet sd t f" "payload_sane sd t f"
  shows "payload_quiet sd t (snd (os_MkdirAll (payload_dir sd t) f))"
    and "payload_sane sd t (snd (os_MkdirAll (payload_dir sd t) f))"
    and "deep sd q \<Longrightarrow> node_at (snd (os_MkdirAll (payload_dir sd t) f)) q = node_at f q"
proof -
  let ?g = "snd (os_MkdirAll (payload_dir sd t) f)"
  have gl: "deep sd q \<Longrightarrow> node_at ?g q = node_at f q" for q
    using assms(1) by (intro os_MkdirAll_effect(2)) (simp add: deep_def payload_paths)
  then show "deep sd q \<Longrightarrow> node_at ?g q = node_at f q" .
  show "payload_quiet sd t ?g"
    using assms(2) os_MkdirAll_effect(1) [of "payload_dir sd t" f]
    by (simp add: payload_quiet_def fault_def)
  show "payload_sane sd t ?g"
    using assms(3) gl deep_files [OF assms(1)] by (simp add: payload_sane_def reg_or_none_def)
qed

lemma apply_one_cases:
  assumes "is_identifier (tgt_ID t)" "payload_quiet sd t f" "payload_sane sd t f"
    and res: "apply_one L P sd checks t f = (eo, tch, f1)"
  obtains (early) "\<not> tch" "eo \<noteq> None" "f1 = f \<or> f1 = snd (os_MkdirAll (payload_dir sd t) f)"
  | (late) h where "tch" "CheckArtifact L f (cache_file sd (tgt_Artifact t)) (tgt_Artifact t) = None"
      "fst (os_MkdirAll (payload_dir sd t) f) = None"
      "keep_previous sd t (snd (os_MkdirAll (payload_dir sd t) f)) = (None, h)"
      "f1 = snd (copyFile (cache_file sd (tgt_Artifact t)) (current_file sd t) h)"
      "eo = None \<longrightarrow> fst (copyFile (cache_file sd (tgt_Artifact t)) (current_file sd t) h) = None"
proof -
  let ?g = "snd (os_MkdirAll (payload_dir sd t) f)"
  have keep: "\<exists>h. keep_previous sd t ?g = (None, h)" if "fst (os_MkdirAll (payload_dir sd t) f) = None"
    using keep_previous_effect [OF assms(1) mkdir_payload(1,2) [OF assms(1-3)]
        os_MkdirAll_effect(4) [OF that]] by blast
  show thesis
  proof (cases tch)
    case True
    with res show thesis
      by (intro late [of "snd (keep_previous sd t ?g)"])
        (auto simp: apply_one_def split: option.splits prod.splits)
  next
    case False
    with res keep show thesis
      by (intro early) (auto simp: apply_one_def dest: sym split: option.splits prod.splits)
  qed
qed

lemma copied_artifact:
  assumes "holds_artifact L f s a" "node_at f s = node_at h s" "reg_or_none h d" "s \<noteq> d" "d \<noteq> []" "fst (copyFile s d h) = None"
  shows "holds_artifact L (snd (copyFile s d h)) d a"
  using assms(1,2) copyFile_ok [OF assms(6,3) _ assms(4,5)] by (auto simp: holds_artifact_def)

lemma apply_one_effect:
  assumes tid: "is_identifier (tgt_ID t)" and quiet: "payload_quiet sd t f"
    and sane: "payload_sane sd t f" and dig: "digestPattern (art_SHA256 (tgt_Artifact t))"
    and res: "apply_one L P sd checks t f = (eo, tch, f1)"
  shows "fs_fault f1 = fs_fault f
    \<and> (\<forall>q. node_at f q = Some Directory \<longrightarrow> node_at f1 q = Some Directory)
    \<and> (if tch then node_at f1 (payload_dir sd t) = Some Directory
          \<and> node_at f1 (previous_file sd t) = node_at f (current_file sd t)
          \<and> reg_or_none f1 (current_file sd t)
          \<and> (\<forall>q. deep sd q \<longrightarrow> q \<noteq> current_file sd t \<longrightarrow> q \<noteq> previous_file sd t \<longrightarrow>
                node_at f1 q = node_at f q)
        else eo \<noteq> None \<and> (\<forall>q. deep sd q \<longrightarrow> node_at f1 q = node_at f q))
    \<and> (eo = None \<longrightarrow> holds_artifact L f1 (current_file sd t) (tgt_Artifact t))"
  using tid quiet sane res
proof (cases rule: apply_one_cases)
  case early
  with os_MkdirAll_effect(1,3) [where p = "payload_dir sd t" and f = f] mkdir_payload(3) [OF tid quiet sane]
  show ?thesis by auto
next
  case (late h)
  let ?c = "current_file sd t" and ?p = "previous_file sd t" and ?d = "payload_dir sd t"
  let ?s = "cache_file sd (tgt_Artifact t)" and ?g = "snd (os_MkdirAll ?d f)"
  note made = mkdir_payload [OF tid quiet sane] and keeps = os_MkdirAll_effect(3) [where p = ?d and f = f]
  have dirg: "node_at ?g ?d = Some Directory" using late(3) by (rule os_MkdirAll_effect(4))
  have h: "fs_fault h = fs_fault ?g" "node_at h ?c = None" "node_at h ?p = node_at ?g ?c"
    "\<And>q. q \<noteq> ?c \<Longrightarrow> q \<noteq> ?p \<Longrightarrow> node_at h q = node_at ?g q"
    using keep_previous_effect [OF tid made(1,2) dirg] late(4) by auto
  have rc: "reg_or_none h ?c" and cne: "?c \<noteq> []" "?c \<noteq> ?p" "?d \<noteq> ?c" "?d \<noteq> ?p" "?s \<noteq> ?c" "?s \<noteq> ?p"
    using tid dig h(2) by (simp_all add: reg_or_none_def payload_paths cache_file_path)
  note eff = copyFile_effect [OF rc cne(1), of ?s, folded late(5)]
  have "node_at ?g ?c \<noteq> Some Directory" "node_at ?g ?p \<noteq> Some Directory"
    using made(2) by (auto simp: payload_sane_def reg_or_none_def)
  then have dirs: "node_at f q = Some Directory \<longrightarrow> node_at f1 q = Some Directory" for q
    using keeps [of q Directory] h(4) [of q] eff(1) by (cases "q = ?c \<or> q = ?p") auto
  have cached: "holds_artifact L f ?s (tgt_Artifact t)" using late(2) by (rule CheckArtifact_sound)
  then have "node_at f ?s = node_at h ?s" using cne h(4) [of ?s] keeps [of ?s] by (auto simp: holds_artifact_def)
  then have "eo = None \<longrightarrow> holds_artifact L f1 ?c (tgt_Artifact t)"
    using copied_artifact [OF cached _ rc cne(5,1)] late(5,6) by auto
  moreover have "fs_fault f1 = fs_fault f" "node_at f1 ?d = Some Directory"
    using late(5) h(1) os_MkdirAll_effect(1) [of ?d f] eff(1) cne h(4) [of ?d] dirg by auto
  moreover have "node_at f1 ?p = node_at f ?c" "\<forall>q. deep sd q \<longrightarrow> q \<noteq> ?c \<longrightarrow> q \<noteq> ?p \<longrightarrow> node_at f1 q = node_at f q"
    using eff(1) cne h(3,4) made(3) deep_files [OF tid] by auto
  ultimately show ?thesis using late(1) dirs eff(2) by auto
qed

section \<open>All or nothing\<close>

text \<open>
  The invariant while the targets are applied, relative to the file system \<open>f0\<close> at the start:
  a touched target has its old \<open>current\<close> saved, a target still to come is untouched.
\<close>

definition touched_ok :: "string \<Rightarrow> fs \<Rightarrow> Target \<Rightarrow> fs \<Rightarrow> bool" where
  "touched_ok sd f0 t f \<longleftrightarrow>
     node_at f (payload_dir sd t) = Some Directory
   \<and> node_at f (previous_file sd t) = node_at f0 (current_file sd t)
   \<and> reg_or_none f (current_file sd t)"

definition untouched :: "string \<Rightarrow> fs \<Rightarrow> Target \<Rightarrow> fs \<Rightarrow> bool" where
  "untouched sd f0 t f \<longleftrightarrow>
     node_at f (current_file sd t) = node_at f0 (current_file sd t)
   \<and> node_at f (previous_file sd t) = node_at f0 (previous_file sd t)"

definition payload_pre :: "string \<Rightarrow> Target list \<Rightarrow> fs \<Rightarrow> bool" where
  "payload_pre sd ts f \<longleftrightarrow> distinct (map tgt_ID ts)
     \<and> list_all (\<lambda>t. is_identifier (tgt_ID t) \<and> digestPattern (art_SHA256 (tgt_Artifact t))
          \<and> payload_quiet sd t f \<and> payload_sane sd t f) ts"

lemma payload_files_distinct:
  assumes "is_identifier (tgt_ID t)" "is_identifier (tgt_ID u)" "tgt_ID t \<noteq> tgt_ID u"
  shows "current_file sd t \<noteq> current_file sd u" "current_file sd t \<noteq> previous_file sd u"
    "previous_file sd t \<noteq> current_file sd u" "previous_file sd t \<noteq> previous_file sd u"
  using assms by (simp_all add: payload_paths)

text \<open>What undoing the first of several targets leaves for the others.\<close>

lemma rollback_first:
  assumes "distinct (map tgt_ID (t # ts))" "list_all is_side (t # ts)" "list_all (\<lambda>t. is_identifier (tgt_ID t)) (t # ts)"
    and "list_all (\<lambda>t. payload_quiet sd t f) (t # ts)"
    and "list_all (\<lambda>t. touched_ok sd f0 t f) (t # ts)" and "list_all (\<lambda>t. reg_or_none f0 (current_file sd t)) (t # ts)"
  obtains f1 where "rollback_targets sd (t # ts) f = rollback_targets sd ts f1" "fs_fault f1 = fs_fault f"
    "node_at f1 (current_file sd t) = node_at f0 (current_file sd t)" "node_at f1 (previous_file sd t) = None"
    "\<forall>q. q \<noteq> current_file sd t \<longrightarrow> q \<noteq> previous_file sd t \<longrightarrow> node_at f1 q = node_at f q"
    "list_all (\<lambda>u. payload_quiet sd u f1) ts" "list_all (\<lambda>u. touched_ok sd f0 u f1) ts"
proof -
  have t: "is_identifier (tgt_ID t)" "payload_quiet sd t f" "is_side t" "touched_ok sd f0 t f"
    "reg_or_none f (previous_file sd t)"
    using assms by (auto simp: touched_ok_def reg_or_none_def)
  obtain f1 where f1: "rollback_targets sd (t # ts) f = rollback_targets sd ts f1" "fs_fault f1 = fs_fault f"
    "node_at f1 (current_file sd t) = node_at f (previous_file sd t)" "node_at f1 (previous_file sd t) = None"
    "\<forall>q. q \<noteq> current_file sd t \<longrightarrow> q \<noteq> previous_file sd t \<longrightarrow> node_at f1 q = node_at f q"
    using rollback_one [OF t(1-3) _ t(5), of ts] t(4) by (auto simp: touched_ok_def)
  have "touched_ok sd f0 u f1" if u: "u \<in> set ts" for u
  proof -
    have "is_identifier (tgt_ID u)" "tgt_ID u \<noteq> tgt_ID t" "touched_ok sd f0 u f"
      using assms(1,3,5) u by (auto simp: list_all_iff) (metis image_eqI)
    with f1(5) t(1) show ?thesis
      by (simp add: touched_ok_def reg_or_none_def payload_files_distinct payload_paths)
  qed
  moreover have "list_all (\<lambda>u. payload_quiet sd u f1) ts"
    using assms(4) f1(2) by (simp add: list_all_iff payload_quiet_def fault_def)
  ultimately show thesis using that [of f1] f1 t(4) by (simp add: list_all_iff touched_ok_def)
qed

lemma rollback_restores:
  assumes "distinct (map tgt_ID ts)" "list_all is_side ts" "list_all (\<lambda>t. is_identifier (tgt_ID t)) ts"
    and "list_all (\<lambda>t. payload_quiet sd t f) ts"
    and "list_all (\<lambda>t. touched_ok sd f0 t f) ts" and "list_all (\<lambda>t. reg_or_none f0 (current_file sd t)) ts"
  shows "(\<forall>t \<in> set ts. node_at (snd (rollback_targets sd ts f)) (current_file sd t)
            = node_at f0 (current_file sd t))
    \<and> (\<forall>q. (\<forall>t \<in> set ts. q \<noteq> current_file sd t \<and> q \<noteq> previous_file sd t) \<longrightarrow>
            node_at (snd (rollback_targets sd ts f)) q = node_at f q)"
  using assms
proof (induction ts arbitrary: f)
  case (Cons t ts)
  obtain f1 where f1: "rollback_targets sd (t # ts) f = rollback_targets sd ts f1" "fs_fault f1 = fs_fault f"
    "node_at f1 (current_file sd t) = node_at f0 (current_file sd t)" "node_at f1 (previous_file sd t) = None"
    "\<forall>q. q \<noteq> current_file sd t \<longrightarrow> q \<noteq> previous_file sd t \<longrightarrow> node_at f1 q = node_at f q"
    "list_all (\<lambda>u. payload_quiet sd u f1) ts" "list_all (\<lambda>u. touched_ok sd f0 u f1) ts"
    by (rule rollback_first [OF Cons.prems])
  have IH: "\<forall>u \<in> set ts. node_at (snd (rollback_targets sd ts f1)) (current_file sd u) = node_at f0 (current_file sd u)"
    "\<And>q. (\<forall>u \<in> set ts. q \<noteq> current_file sd u \<and> q \<noteq> previous_file sd u) \<Longrightarrow>
        node_at (snd (rollback_targets sd ts f1)) q = node_at f1 q"
    using Cons.IH [OF _ _ _ f1(6,7)] Cons.prems by auto
  have "is_identifier (tgt_ID t)" "u \<in> set ts \<Longrightarrow> is_identifier (tgt_ID u) \<and> tgt_ID u \<noteq> tgt_ID t" for u
    using Cons.prems(1,3) by (auto simp: list_all_iff) (metis image_eqI)
  then have "\<forall>u \<in> set ts. current_file sd t \<noteq> current_file sd u \<and> current_file sd t \<noteq> previous_file sd u"
    using payload_files_distinct by metis
  with IH f1(1,3,5) show ?case by auto
qed simp

lemma apply_one_frame:
  assumes "apply_one L P sd checks t f = (eo, tch, f1)"
    and "is_identifier (tgt_ID t)" "payload_quiet sd t f" "payload_sane sd t f"
    and "digestPattern (art_SHA256 (tgt_Artifact t))"
    and u: "is_identifier (tgt_ID u)" "tgt_ID u \<noteq> tgt_ID t"
  shows "node_at f1 (current_file sd u) = node_at f (current_file sd u)"
    and "node_at f1 (previous_file sd u) = node_at f (previous_file sd u)"
    and "touched_ok sd f0 u f \<Longrightarrow> touched_ok sd f0 u f1"
    and "untouched sd f0 u f \<Longrightarrow> untouched sd f0 u f1"
proof -
  note eff = apply_one_effect [OF assms(2-5,1)]
  show c: "node_at f1 (current_file sd u) = node_at f (current_file sd u)"
    and p: "node_at f1 (previous_file sd u) = node_at f (previous_file sd u)"
    using eff deep_files [OF u(1)] payload_files_distinct [OF u(1) assms(2) u(2)]
    by (auto split: if_splits)
  show "touched_ok sd f0 u f \<Longrightarrow> touched_ok sd f0 u f1"
    using eff c p by (auto simp: touched_ok_def reg_or_none_def)
  show "untouched sd f0 u f \<Longrightarrow> untouched sd f0 u f1"
    using c p by (simp add: untouched_def)
qed

definition apply_inv :: "lib \<Rightarrow> string \<Rightarrow> fs \<Rightarrow> Target list \<Rightarrow> Target list \<Rightarrow> fs \<Rightarrow> bool" where
  "apply_inv L sd f0 touched left f \<longleftrightarrow>
     list_all is_side touched \<and> fs_fault f = fs_fault f0
   \<and> (\<forall>t \<in> set touched. touched_ok sd f0 t f)
   \<and> (\<forall>t \<in> set left. is_side t \<longrightarrow> untouched sd f0 t f)"

lemma apply_inv_pre:
  assumes "apply_inv L sd f0 touched (t # ts) f" "payload_pre sd (touched @ t # ts) f0" "is_side t"
  shows "is_identifier (tgt_ID t)" "payload_quiet sd t f" "payload_sane sd t f"
    "digestPattern (art_SHA256 (tgt_Artifact t))"
  using assms
  by (auto simp: apply_inv_def payload_pre_def untouched_def payload_sane_def payload_quiet_def
      fault_def reg_or_none_def)

lemma apply_inv_step:
  assumes res: "apply_one L P sd checks t f = (eo, tch, f1)"
    and inv: "apply_inv L sd f0 touched (t # ts) f"
    and pre: "payload_pre sd (touched @ t # ts) f0" and side: "is_side t"
  shows "if tch then apply_inv L sd f0 (touched @ [t]) ts f1
    else eo \<noteq> None \<and> apply_inv L sd f0 touched (t # ts) f1"
proof -
  note t = apply_inv_pre [OF inv pre side]
  note eff = apply_one_effect [OF t res]
  have other: "is_identifier (tgt_ID u) \<and> tgt_ID u \<noteq> tgt_ID t" if "u \<in> set touched \<union> set ts" for u
    using pre that by (auto simp: payload_pre_def list_all_iff) (metis image_eqI)+
  have tk: "touched_ok sd f0 u f1" if "u \<in> set touched" for u
    using that inv other apply_one_frame(3) [OF res t] by (simp add: apply_inv_def)
  have un: "untouched sd f0 u f1" if "u \<in> set ts" "is_side u" for u
    using that inv other apply_one_frame(4) [OF res t] by (simp add: apply_inv_def)
  have self: "untouched sd f0 t f" using inv side by (simp add: apply_inv_def)
  show ?thesis
  proof (cases tch)
    case True
    then have "touched_ok sd f0 t f1" using eff self by (simp add: touched_ok_def untouched_def)
    with True eff inv side tk un show ?thesis by (auto simp: apply_inv_def)
  next
    case False
    then have "untouched sd f0 t f1"
      using eff self deep_files [OF t(1)] by (simp add: untouched_def)
    with False eff inv side tk un show ?thesis by (auto simp: apply_inv_def)
  qed
qed

lemma apply_targets_inv:
  assumes "apply_targets L P sd checks touched ts f = (eo, touched', f1)"
    and "payload_pre sd (touched @ ts) f0" and "apply_inv L sd f0 touched ts f"
  shows "\<exists>left. apply_inv L sd f0 touched' left f1 \<and> set touched' \<subseteq> set (touched @ ts)
    \<and> {t \<in> set (touched @ ts). is_side t} \<subseteq> set touched' \<union> set left \<and> distinct (map tgt_ID touched')
    \<and> (eo = None \<longrightarrow> left = [])"
  using assms
proof (induction ts arbitrary: touched f)
  case Nil
  then show ?case by (intro exI [of _ "[]"]) (auto simp: payload_pre_def)
next
  case (Cons t ts)
  show ?case
  proof (cases "is_side t")
    case False
    with Cons.prems have "payload_pre sd (touched @ ts) f0" "apply_inv L sd f0 touched ts f"
      "apply_targets L P sd checks touched ts f = (eo, touched', f1)"
      by (auto simp: payload_pre_def apply_inv_def)
    from Cons.IH [OF this(3,1,2)] False show ?thesis by auto
  next
    case True
    obtain eo1 tch f' where one: "apply_one L P sd checks t f = (eo1, tch, f')"
      by (cases "apply_one L P sd checks t f")
    note step = apply_inv_step [OF one Cons.prems(3,2) True]
    show ?thesis
    proof (cases eo1)
      case None
      with step have tch: tch "apply_inv L sd f0 (touched @ [t]) ts f'" by (auto split: if_splits)
      with Cons.prems one None True have
        "apply_targets L P sd checks (touched @ [t]) ts f' = (eo, touched', f1)" by simp
      from Cons.IH [OF this _ tch(2)] Cons.prems(2) show ?thesis by auto
    next
      case (Some e)
      with Cons.prems(1) one True have r: "eo = Some e" "f1 = f'"
        "touched' = (if tch then touched @ [t] else touched)" by auto
      with step Cons.prems(2) show ?thesis
        by (intro exI [of _ "if tch then ts else t # ts"]) (auto simp: payload_pre_def)
    qed
  qed
qed

lemma rollback_undoes:
  assumes inv: "apply_inv L sd f0 touched left f" and pre: "payload_pre sd ts f0"
    and sub: "set touched \<subseteq> set ts" "distinct (map tgt_ID touched)"
    and t: "t \<in> set touched \<union> set left" "t \<in> set ts" "is_side t"
  shows "node_at (snd (rollback_targets sd touched f)) (current_file sd t) = node_at f0 (current_file sd t)"
proof -
  have "list_all (\<lambda>t. is_identifier (tgt_ID t)) touched" "list_all (\<lambda>t. payload_quiet sd t f) touched"
    "list_all (\<lambda>t. reg_or_none f0 (current_file sd t)) touched"
    using pre sub inv
    by (auto simp: payload_pre_def list_all_iff payload_sane_def apply_inv_def payload_quiet_def fault_def)
  with rollback_restores [of touched sd f f0] inv sub(2)
  have R: "\<forall>t \<in> set touched. node_at (snd (rollback_targets sd touched f)) (current_file sd t)
            = node_at f0 (current_file sd t)"
    "\<And>q. (\<forall>t \<in> set touched. q \<noteq> current_file sd t \<and> q \<noteq> previous_file sd t) \<Longrightarrow>
            node_at (snd (rollback_targets sd touched f)) q = node_at f q"
    by (auto simp: apply_inv_def list_all_iff)
  show ?thesis
  proof (cases "t \<in> set touched")
    case False
    have ids: "is_identifier (tgt_ID u)" "tgt_ID u \<noteq> tgt_ID t" if "u \<in> set touched" for u
    proof -
      from pre sub(1) that show "is_identifier (tgt_ID u)" by (auto simp: payload_pre_def list_all_iff)
      from pre have "inj_on tgt_ID (set ts)" by (simp add: payload_pre_def distinct_map)
      with sub(1) that t(2) False show "tgt_ID u \<noteq> tgt_ID t" by (metis inj_on_def subset_iff)
    qed
    have "is_identifier (tgt_ID t)" using pre t(2) by (auto simp: payload_pre_def list_all_iff)
    with ids have "\<forall>u \<in> set touched. current_file sd t \<noteq> current_file sd u \<and> current_file sd t \<noteq> previous_file sd u"
      using payload_files_distinct by metis
    with R(2) have "node_at (snd (rollback_targets sd touched f)) (current_file sd t) = node_at f (current_file sd t)"
      by simp
    with False t inv show ?thesis by (auto simp: apply_inv_def untouched_def)
  qed (use R in simp)
qed

lemma applySidePayloads_undone:
  assumes pre: "payload_pre sd (rel_Targets r) f0" and topo: "topoTargets (rel_Targets r) = None"
    and res: "applySidePayloads L P sd r checks f0 = (Some e, f1)"
    and t: "t \<in> set (rel_Targets r)" "is_side t"
  shows "node_at f1 (current_file sd t) = node_at f0 (current_file sd t)"
proof -
  obtain ord where ord: "orderedTargets (rel_Targets r) = Inr ord" "mset ord = mset (rel_Targets r)"
    using orderedTargets_ok [OF topo] by blast
  obtain eo touched f2 where at: "apply_targets L P sd checks [] ord f0 = (eo, touched, f2)"
    by (cases "apply_targets L P sd checks [] ord f0")
  have pre': "payload_pre sd ord f0"
    using pre ord(2) unfolding payload_pre_def list_all_iff
    by (metis mset_eq_imp_distinct_iff mset_eq_setD mset_map)
  have st: "t \<in> set ord" using t(1) ord(2) by (metis mset_eq_setD)
  from apply_targets_inv [OF at, of f0] pre' obtain left where
    left: "apply_inv L sd f0 touched left f2" "set touched \<subseteq> set ord"
      "{t \<in> set ord. is_side t} \<subseteq> set touched \<union> set left" "distinct (map tgt_ID touched)"
    by (auto simp: apply_inv_def untouched_def)
  have "f1 = snd (rollback_targets sd touched f2)"
    using res ord(1) at by (auto simp: applySidePayloads_def split: option.splits if_splits)
  with rollback_undoes [OF left(1) pre' left(2,4) _ st t(2)] left(3) st t(2) show ?thesis by auto
qed

lemma apply_targets_holds:
  assumes "apply_targets L P sd checks touched ts f = (None, touched', f1)"
    and "payload_pre sd (touched @ ts) f0" and "apply_inv L sd f0 touched ts f"
    and "\<forall>t \<in> set touched. holds_artifact L f (current_file sd t) (tgt_Artifact t)"
  shows "\<forall>t \<in> set (touched @ ts). is_side t \<longrightarrow> holds_artifact L f1 (current_file sd t) (tgt_Artifact t)"
  using assms
proof (induction ts arbitrary: touched f)
  case (Cons t ts)
  show ?case
  proof (cases "is_side t")
    case False
    with Cons.prems have "payload_pre sd (touched @ ts) f0" "apply_inv L sd f0 touched ts f"
      "apply_targets L P sd checks touched ts f = (None, touched', f1)"
      by (auto simp: payload_pre_def apply_inv_def)
    from Cons.IH [OF this(3,1,2) Cons.prems(4)] False show ?thesis by auto
  next
    case True
    obtain eo1 tch f' where one: "apply_one L P sd checks t f = (eo1, tch, f')"
      by (cases "apply_one L P sd checks t f")
    note step = apply_inv_step [OF one Cons.prems(3,2) True]
    note t = apply_inv_pre [OF Cons.prems(3,2) True]
    from Cons.prems(1) one True have none: "eo1 = None" by (auto simp: Let_def split: option.splits)
    with step have tch: tch "apply_inv L sd f0 (touched @ [t]) ts f'" by (auto split: if_splits)
    with Cons.prems one none True have
      rest: "apply_targets L P sd checks (touched @ [t]) ts f' = (None, touched', f1)" by simp
    have "holds_artifact L f' (current_file sd u) (tgt_Artifact u)" if u: "u \<in> set touched" for u
    proof -
      have "is_identifier (tgt_ID u)" "tgt_ID u \<noteq> tgt_ID t"
        using Cons.prems(2) u by (auto simp: payload_pre_def list_all_iff) (metis image_eqI)+
      from apply_one_frame(1) [OF one t this] Cons.prems(4) u show ?thesis
        by (simp add: holds_artifact_def)
    qed
    moreover have "holds_artifact L f' (current_file sd t) (tgt_Artifact t)"
      using apply_one_effect [OF t one] none by simp
    ultimately show ?thesis
      using Cons.IH [OF rest _ tch(2)] Cons.prems(2) by simp
  qed
qed (auto)

lemma applySidePayloads_done:
  assumes pre: "payload_pre sd (rel_Targets r) f0"
    and res: "applySidePayloads L P sd r checks f0 = (None, f1)"
    and t: "t \<in> set (rel_Targets r)" "is_side t"
  shows "holds_artifact L f1 (current_file sd t) (tgt_Artifact t) \<and> touched_ok sd f0 t f1
    \<and> fs_fault f1 = fs_fault f0"
proof -
  have topo: "topoTargets (rel_Targets r) = None"
    using res by (auto simp: applySidePayloads_def orderedTargets_def split: option.splits)
  obtain ord where ord: "orderedTargets (rel_Targets r) = Inr ord" "mset ord = mset (rel_Targets r)"
    using orderedTargets_ok [OF topo] by blast
  obtain touched where at: "apply_targets L P sd checks [] ord f0 = (None, touched, f1)"
    using res ord(1) by (auto simp: applySidePayloads_def split: option.splits prod.splits)
  have pre': "payload_pre sd ord f0"
    using pre ord(2) unfolding payload_pre_def list_all_iff
    by (metis mset_eq_imp_distinct_iff mset_eq_setD mset_map)
  have st: "t \<in> set ord" using t(1) ord(2) by (metis mset_eq_setD)
  have inv0: "apply_inv L sd f0 [] ord f0" by (simp add: apply_inv_def untouched_def)
  from apply_targets_holds [OF at _ inv0] pre' st t(2)
  have "holds_artifact L f1 (current_file sd t) (tgt_Artifact t)" by simp
  moreover have "touched_ok sd f0 t f1" "fs_fault f1 = fs_fault f0"
    using apply_targets_inv [OF at _ inv0] pre' st t(2) by (fastforce simp: apply_inv_def)+
  ultimately show ?thesis by simp
qed

section \<open>Undoing and committing\<close>

lemma rollback_filter: "rollback_targets sd ts f = rollback_targets sd (filter is_side ts) f"
  by (induction ts arbitrary: f) (auto simp: Let_def split: prod.splits option.splits)

lemma rollback_clears_previous:
  assumes "distinct (map tgt_ID ts)" "list_all is_side ts" "list_all (\<lambda>t. is_identifier (tgt_ID t)) ts"
    and "list_all (\<lambda>t. payload_quiet sd t f) ts"
    and "list_all (\<lambda>t. touched_ok sd f0 t f) ts" and "list_all (\<lambda>t. reg_or_none f0 (current_file sd t)) ts"
  shows "rollback_targets sd ts f = (None, snd (rollback_targets sd ts f))
    \<and> fs_fault (snd (rollback_targets sd ts f)) = fs_fault f
    \<and> (\<forall>t \<in> set ts. node_at (snd (rollback_targets sd ts f)) (previous_file sd t) = None)
    \<and> (\<forall>u. is_identifier (tgt_ID u) \<and> tgt_ID u \<notin> set (map tgt_ID ts) \<longrightarrow>
         node_at (snd (rollback_targets sd ts f)) (previous_file sd u) = node_at f (previous_file sd u))"
  using assms
proof (induction ts arbitrary: f)
  case (Cons t ts)
  obtain f1 where f1: "rollback_targets sd (t # ts) f = rollback_targets sd ts f1"
    "fs_fault f1 = fs_fault f" "node_at f1 (current_file sd t) = node_at f0 (current_file sd t)" "node_at f1 (previous_file sd t) = None"
    "\<forall>q. q \<noteq> current_file sd t \<longrightarrow> q \<noteq> previous_file sd t \<longrightarrow> node_at f1 q = node_at f q"
    "list_all (\<lambda>u. payload_quiet sd u f1) ts" "list_all (\<lambda>u. touched_ok sd f0 u f1) ts"
    by (rule rollback_first [OF Cons.prems])
  have IH: "rollback_targets sd ts f1 = (None, snd (rollback_targets sd ts f1))"
    "fs_fault (snd (rollback_targets sd ts f1)) = fs_fault f1"
    "\<forall>u \<in> set ts. node_at (snd (rollback_targets sd ts f1)) (previous_file sd u) = None"
    "\<And>u. is_identifier (tgt_ID u) \<Longrightarrow> tgt_ID u \<notin> set (map tgt_ID ts) \<Longrightarrow>
      node_at (snd (rollback_targets sd ts f1)) (previous_file sd u) = node_at f1 (previous_file sd u)"
    using Cons.IH [OF _ _ _ f1(6,7)] Cons.prems by auto
  have t: "is_identifier (tgt_ID t)" using Cons.prems(3) by simp
  have "node_at f1 (previous_file sd u) = node_at f (previous_file sd u)"
    if "is_identifier (tgt_ID u)" "tgt_ID u \<noteq> tgt_ID t" for u
    using that f1(5) payload_files_distinct [OF that(1) t that(2)] by simp
  moreover have "node_at (snd (rollback_targets sd ts f1)) (previous_file sd t) = None"
    using IH(4) [OF t] f1(4) Cons.prems(1) by simp
  ultimately show ?case
    using IH f1(1,2) by auto
qed simp

lemma rollback_after_apply:
  assumes pre: "payload_pre sd (rel_Targets r) f0"
    and res: "applySidePayloads L P sd r checks f0 = (None, f1)"
    and rb: "rollbackSidePayloads sd r f1 = (eo, f2)"
    and t: "t \<in> set (rel_Targets r)" "is_side t"
  shows "eo = None \<and> node_at f2 (current_file sd t) = node_at f0 (current_file sd t)
    \<and> node_at f2 (previous_file sd t) = None \<and> fs_fault f2 = fs_fault f0"
proof -
  let ?ts = "filter is_side (rel_Targets r)"
  have ids: "distinct (map tgt_ID ?ts)" using pre by (simp add: payload_pre_def distinct_map_filter)
  note d = applySidePayloads_done [OF pre res]
  have side: "list_all is_side ?ts" "list_all (\<lambda>t. is_identifier (tgt_ID t)) ?ts"
    "list_all (\<lambda>t. reg_or_none f0 (current_file sd t)) ?ts"
    using pre by (auto simp: payload_pre_def list_all_iff payload_sane_def)
  have q: "list_all (\<lambda>t. payload_quiet sd t f1) ?ts" "list_all (\<lambda>t. touched_ok sd f0 t f1) ?ts"
    using pre d by (auto simp: payload_pre_def list_all_iff payload_quiet_def fault_def)
  have f2: "rollback_targets sd ?ts f1 = (eo, f2)"
    using rb by (simp add: rollbackSidePayloads_def rollback_filter [of sd "rel_Targets r"])
  have tt: "t \<in> set ?ts" using t by simp
  from rollback_restores [OF ids side(1,2) q side(3)] rollback_clears_previous [OF ids side(1,2) q side(3)]
    f2 tt d [OF t] show ?thesis by auto
qed

lemma rollback_missing:
  assumes "payload_pre sd ts f" "list_all is_side ts" "\<forall>t \<in> set ts. node_at f (previous_file sd t) = None"
    and "t \<in> set ts \<or> node_at f (current_file sd t) = None \<and> is_identifier (tgt_ID t)"
  shows "node_at (snd (rollback_targets sd ts f)) (current_file sd t) = None"
  using assms
proof (induction ts arbitrary: f)
  case (Cons u ts)
  have u: "is_identifier (tgt_ID u)" "payload_quiet sd u f" "is_side u" "payload_sane sd u f"
    "node_at f (previous_file sd u) = None"
    using Cons.prems by (auto simp: payload_pre_def)
  obtain f1 where f1: "rollback_targets sd (u # ts) f = rollback_targets sd ts f1"
    "fs_fault f1 = fs_fault f" "node_at f1 (current_file sd u) = None"
    "node_at f1 (previous_file sd u) = None"
    "\<And>q. q \<noteq> current_file sd u \<Longrightarrow> q \<noteq> previous_file sd u \<Longrightarrow> node_at f1 q = node_at f q"
    using rollback_one [OF u(1-3), of ts] u(4,5) by (auto simp: payload_sane_def)
  have other: "v \<in> set ts \<Longrightarrow> is_identifier (tgt_ID v) \<and> tgt_ID v \<noteq> tgt_ID u" for v
    using Cons.prems(1) by (auto simp: payload_pre_def list_all_iff) (metis image_eqI)
  have same: "node_at f1 (current_file sd v) = node_at f (current_file sd v)"
    "node_at f1 (previous_file sd v) = node_at f (previous_file sd v)" if "v \<in> set ts" for v
    using f1(5) other [OF that] u(1) payload_files_distinct by metis+
  have "payload_pre sd ts f1"
    using Cons.prems(1) same f1(2)
    by (auto simp: payload_pre_def list_all_iff payload_quiet_def fault_def payload_sane_def reg_or_none_def)
  moreover have "t \<in> set ts \<or> node_at f1 (current_file sd t) = None \<and> is_identifier (tgt_ID t)"
    using f1(3-5) Cons.prems(4) u(1)
    by (cases "current_file sd t = current_file sd u \<or> current_file sd t = previous_file sd u") auto
  ultimately show ?case
    using Cons.IH [of f1] Cons.prems(2,3) same f1(1) by auto
qed simp

lemma rollback_twice:
  assumes pre: "payload_pre sd (rel_Targets r) f"
    and none: "\<forall>t \<in> set (rel_Targets r). is_side t \<longrightarrow> node_at f (previous_file sd t) = None"
    and t: "t \<in> set (rel_Targets r)" "is_side t"
  shows "node_at (snd (rollbackSidePayloads sd r f)) (current_file sd t) = None"
proof -
  let ?ts = "filter is_side (rel_Targets r)"
  have "payload_pre sd ?ts f" using pre by (auto simp: payload_pre_def list_all_iff distinct_map_filter)
  then show ?thesis
    using rollback_missing [of sd ?ts f t] none t
    by (simp add: rollbackSidePayloads_def rollback_filter [of sd "rel_Targets r"] list_all_iff)
qed

lemma payload_pre_after_apply:
  assumes "payload_pre sd (rel_Targets r) f0" "applySidePayloads L P sd r checks f0 = (None, f1)"
    and "list_all is_side (rel_Targets r)"
  shows "payload_pre sd (rel_Targets r) f1"
proof -
  note d = applySidePayloads_done [OF assms(1,2)]
  have "payload_quiet sd t f1 \<and> payload_sane sd t f1" if "t \<in> set (rel_Targets r)" for t
  proof -
    have "is_side t" using that assms(3) by (simp add: list_all_iff)
    with d [OF that] assms(1) that show ?thesis
      by (auto simp: payload_pre_def list_all_iff payload_quiet_def fault_def payload_sane_def
          touched_ok_def reg_or_none_def holds_artifact_def)
  qed
  with assms(1) show ?thesis by (simp add: payload_pre_def list_all_iff)
qed

section \<open>A concrete device\<close>

definition sample_fs :: fs where
  "sample_fs = \<lparr>fs_nodes =
      [([''s''], Directory), ([''s'', ''cache''], Directory),
       ([''s'', ''cache'', sample_digest @ ''.raucb''], RegFile ''new''),
       ([''s'', ''payloads''], Directory), ([''s'', ''payloads'', ''cfg''], Directory),
       ([''s'', ''payloads'', ''cfg'', ''current''], RegFile ''old'')],
     fs_fault = (\<lambda>_. None), fs_partial = (\<lambda>_. 0), fs_bavail = (\<lambda>_. 100), fs_bsize = 1\<rparr>"

definition sample_fs_full :: fs where
  "sample_fs_full = sample_fs\<lparr>fs_fault := (\<lambda>c.
     if c = IoWrite [''s'', ''payloads'', ''cfg'', ''current''] then Some ''no space left on device'' else None),
     fs_partial := (\<lambda>_. 2)\<rparr>"

definition sample_probes :: probes where
  "sample_probes = \<lparr>pr_systemd = (\<lambda>_. None), pr_http_request = (\<lambda>_. None), pr_http_do = (\<lambda>_. Inr 200)\<rparr>"

definition sample_apply :: "fs \<Rightarrow> error option \<times> fs" where
  "sample_apply f = applySidePayloads sample_lib sample_probes ''/s'' sample_side_release [] f"

lemma sample_payload:
  "payload_pre ''/s'' (rel_Targets sample_side_release) sample_fs"
  "payload_pre ''/s'' (rel_Targets sample_side_release) sample_fs_full"
  "topoTargets (rel_Targets sample_side_release) = None"
  "sample_side \<in> set (rel_Targets sample_side_release)" "is_side sample_side"
  "list_all is_side (rel_Targets sample_side_release)"
  by code_simp+

lemma sample_applies: "\<exists>f1. sample_apply sample_fs = (None, f1)"
proof -
  have "fst (sample_apply sample_fs) = None" by code_simp
  then show ?thesis by (metis prod.collapse)
qed

lemma sample_apply_fails: "\<exists>e f1. sample_apply sample_fs_full = (Some e, f1)"
proof -
  have "fst (sample_apply sample_fs_full) \<noteq> None" by code_simp
  then show ?thesis by (metis option.exhaust prod.collapse)
qed

section \<open>Properties\<close>

text \<open>
  C12. Applying the side payloads of a release is all or nothing: if any target fails, at any
  system call of the loop (the cache check, creating the directory, the storage check, the copy, even
  half way through the write, or the target's health check), then every side target's
  \<open>current\<close> file is exactly what it was before the call. The hypothesis \<open>payload_pre\<close> says
  that target IDs are distinct identifiers, the two files are regular or missing (no
  leftover \<open>previous\<close> without \<open>current\<close>), and that renaming, removing and inspecting
  those two files works.
\<close>

theorem applySidePayloads_atomic:
  assumes "payload_pre sd (rel_Targets r) f0" "topoTargets (rel_Targets r) = None"
    and "applySidePayloads L P sd r checks f0 = (Some e, f1)"
    and "t \<in> set (rel_Targets r)" "is_side t"
  shows "node_at f1 (current_file sd t) = node_at f0 (current_file sd t)"
  using assms by (rule applySidePayloads_undone)

theorem applySidePayloads_atomic_witness:
  "\<exists>e f1. sample_apply sample_fs_full = (Some e, f1)
     \<and> node_at f1 (current_file ''/s'' sample_side) = node_at sample_fs_full (current_file ''/s'' sample_side)"
proof -
  obtain e f1 where "sample_apply sample_fs_full = (Some e, f1)" using sample_apply_fails by blast
  with applySidePayloads_atomic [OF sample_payload(2,3) _ sample_payload(4,5)] show ?thesis
    by (auto simp: sample_apply_def)
qed

text \<open>
  C13. When applying succeeds, every side target's \<open>current\<close> is a file with the size and
  digest the release names, and undoing it (\<open>rollbackSidePayloads\<close>) succeeds and gives back every
  \<open>current\<close> as it was, whether that was a file or nothing, leaving no \<open>previous\<close> behind.
\<close>

theorem applySidePayloads_installs_undoably:
  assumes "payload_pre sd (rel_Targets r) f0"
    and "applySidePayloads L P sd r checks f0 = (None, f1)"
    and "rollbackSidePayloads sd r f1 = (eo, f2)"
    and "t \<in> set (rel_Targets r)" "is_side t"
  shows "holds_artifact L f1 (current_file sd t) (tgt_Artifact t)
    \<and> eo = None \<and> node_at f2 (current_file sd t) = node_at f0 (current_file sd t)
    \<and> node_at f2 (previous_file sd t) = None"
  using applySidePayloads_done [OF assms(1,2,4,5)] rollback_after_apply [OF assms] by blast

theorem applySidePayloads_installs_undoably_witness:
  "\<exists>f1 f2. sample_apply sample_fs = (None, f1)
     \<and> rollbackSidePayloads ''/s'' sample_side_release f1 = (None, f2)
     \<and> holds_artifact sample_lib f1 (current_file ''/s'' sample_side) (tgt_Artifact sample_side)
     \<and> node_at f2 (current_file ''/s'' sample_side) = node_at sample_fs (current_file ''/s'' sample_side)"
proof -
  obtain f1 where f1: "sample_apply sample_fs = (None, f1)" using sample_applies by blast
  obtain eo f2 where f2: "rollbackSidePayloads ''/s'' sample_side_release f1 = (eo, f2)"
    by (cases "rollbackSidePayloads ''/s'' sample_side_release f1")
  from applySidePayloads_installs_undoably [OF sample_payload(1) f1 [unfolded sample_apply_def] f2
      sample_payload(4,5)] f1 f2 show ?thesis by blast
qed



text \<open>
  C25. Undoing is not repeatable: when no side target has a \<open>previous\<close> left, which is how the
  first rollback ends, rolling back again removes every \<open>current\<close>, so the device loses the
  restored payloads. (\<open>save\<close> rolls back before it writes the journal; if that write fails, the
  next \<open>Step\<close> rolls back again.)
\<close>

theorem second_rollback_deletes:
  assumes "payload_pre sd (rel_Targets r) f"
    and "list_all (\<lambda>t. is_side t \<longrightarrow> node_at f (previous_file sd t) = None) (rel_Targets r)"
    and "t \<in> set (rel_Targets r)" "is_side t"
  shows "node_at (snd (rollbackSidePayloads sd r f)) (current_file sd t) = None"
  using rollback_twice [OF assms(1) _ assms(3,4)] assms(2) by (simp add: list_all_iff)

theorem second_rollback_deletes_witness:
  "node_at sample_fs (current_file ''/s'' sample_side) = Some (RegFile ''old'')
    \<and> node_at (snd (rollbackSidePayloads ''/s'' sample_side_release sample_fs))
        (current_file ''/s'' sample_side) = None"
proof
  show "node_at sample_fs (current_file ''/s'' sample_side) = Some (RegFile ''old'')" by code_simp
  show "node_at (snd (rollbackSidePayloads ''/s'' sample_side_release sample_fs))
        (current_file ''/s'' sample_side) = None"
    by (rule second_rollback_deletes [OF sample_payload(1) _ sample_payload(4,5)]) code_simp
qed

text \<open>
  C22. \<open>orderedTargets\<close> returns a list exactly when the IDs are distinct and the dependencies are
  closed and acyclic, and the list is a permutation of the targets in which every target
  comes after all the targets it depends on. It always ends.
\<close>

theorem orderedTargets_topological:
  "case orderedTargets ts of
     Inl e \<Rightarrow> \<not> (distinct (map tgt_ID ts) \<and> Domain (dep_rel ts) \<subseteq> set (map tgt_ID ts)
                   \<and> acyclic (dep_rel ts))
   | Inr res \<Rightarrow> mset res = mset ts \<and> deps_before ts (map tgt_ID res)"
proof (cases "topoTargets ts")
  case None
  then show ?thesis using orderedTargets_ok [OF None] by auto
next
  case (Some e)
  then show ?thesis using topoTargets_iff [of ts] by (auto simp: orderedTargets_def)
qed

end
