(* ===== verification/OTA_Download.thy ===== *)
theory OTA_Download
  imports OTA_Trust OTA_Payload
begin

text \<open>
  Fetching artifacts (\<open>internal/ota/download.go\<close>) and offline campaigns
  (\<open>internal/ota/campaign.go\<close>). Servers are part of \<open>net\<close>: for a URL and a byte offset, the chain
  of redirects they lead to and the reply at its end. A reply may break off after any number of
  body bytes. The rate limiter \<open>bpsReader\<close> only delays reads and leaves the bytes alone.
\<close>

section \<open>The network\<close>

record response =
  resp_Status :: int
  resp_ContentRange :: string
  resp_ContentEncoding :: string
  resp_ContentLength :: int
  resp_Body :: bytes
  resp_Broken :: bool

record net =
  net_Parse :: url_parser
  net_EqualFold :: "string \<Rightarrow> string \<Rightarrow> bool"
  net_hops :: "string \<Rightarrow> int \<Rightarrow> URL list"
  net_reply :: "string \<Rightarrow> int \<Rightarrow> response option"
  net_relay :: "string \<Rightarrow> string \<Rightarrow> Artifact \<Rightarrow> response option"

definition checkURL :: "net \<Rightarrow> Config \<Rightarrow> URL \<Rightarrow> error option" where
  "checkURL N c u =
     (if url_HasUser u \<or> url_Fragment u \<noteq> [] \<or> url_Host u = [] then Some (Err ''invalid artifact URL'')
      else if \<not> url_Scheme u = ''https''
        \<and> \<not> (cfg_Backend c = ''simulator'' \<and> url_Scheme u = ''http'' \<and> is_loopback u)
      then Some (Err ''artifact requires HTTPS (simulator permits loopback HTTP)'')
      else if list_ex (\<lambda>h. net_EqualFold N h (url_Host u)) (cfg_DownloadHosts c) then None
      else Some (Err ''artifact host not allowlisted''))"

text \<open>
  \<open>CheckRedirect\<close> sees the requests made so far: the first hop has one in \<open>via\<close>.
\<close>

fun follow_hops :: "net \<Rightarrow> Config \<Rightarrow> nat \<Rightarrow> URL list \<Rightarrow> bool" where
  "follow_hops N c via [] \<longleftrightarrow> True"
| "follow_hops N c via (u # us) \<longleftrightarrow>
     \<not> via \<ge> 5 \<and> checkURL N c u = None \<and> follow_hops N c (Suc via) us"

definition client_Do :: "net \<Rightarrow> Config \<Rightarrow> string \<Rightarrow> int \<Rightarrow> response option" where
  "client_Do N c u offset =
     (if follow_hops N c 1 (net_hops N u offset) then net_reply N u offset else None)"

section \<open>Local media\<close>

definition cache_dir :: "Config \<Rightarrow> path" where
  "cache_dir c = Join (abs_path (cfg_StateDir c)) ''cache''"

definition final_path :: "Config \<Rightarrow> Artifact \<Rightarrow> path" where
  "final_path c a = Join (cache_dir c) (art_SHA256 a @ ''.raucb'')"

definition part_path :: "Config \<Rightarrow> Artifact \<Rightarrow> path" where
  "part_path c a = Join (cache_dir c) (art_SHA256 a @ ''.raucb.part'')"

definition open_nofollow :: "fs \<Rightarrow> path \<Rightarrow> error option" where
  "open_nofollow f p = (case fault f (IoOpen p) of Some e \<Rightarrow> Some e
     | None \<Rightarrow> (case node_at f p of None \<Rightarrow> Some ErrNotExist
         | Some (Symlink _) \<Rightarrow> Some (Err ''too many levels of symbolic links'')
         | Some _ \<Rightarrow> None))"

definition localMediaFile :: "lib \<Rightarrow> Config \<Rightarrow> fs \<Rightarrow> Artifact \<Rightarrow> path option result" where
  "localMediaFile L c f a =
     (if cfg_LocalMediaDir c = [] \<or> \<not> digestPattern (art_SHA256 a) then Inr None
      else let p = Join (abs_path (cfg_LocalMediaDir c)) (art_SHA256 a @ ''.raucb'') in
        case open_nofollow f p of
          Some e \<Rightarrow> if IsNotExist e then Inr None else Inl e
        | None \<Rightarrow> (case CheckArtifact L f p a of Some e \<Rightarrow> Inl e | None \<Rightarrow> Inr (Some p)))"

fun all_local :: "lib \<Rightarrow> Config \<Rightarrow> fs \<Rightarrow> Artifact list \<Rightarrow> bool result" where
  "all_local L c f [] = Inr True"
| "all_local L c f (a # as) =
     (case localMediaFile L c f a of
        Inl e \<Rightarrow> Inl e
      | Inr None \<Rightarrow> Inr False
      | Inr (Some p) \<Rightarrow> all_local L c f as)"

definition artifactsLocal :: "lib \<Rightarrow> Config \<Rightarrow> fs \<Rightarrow> Artifact list \<Rightarrow> bool result" where
  "artifactsLocal L c f arts =
     (if arts = [] \<or> cfg_LocalMediaDir c = [] then Inr False else all_local L c f arts)"

text \<open>
  A fetch returns the path or an error, the number of bytes, whether it resumed, and the file
  system.
\<close>

type_synonym fetched = "path result \<times> int \<times> bool \<times> fs"

definition stageLocal :: "lib \<Rightarrow> Config \<Rightarrow> Artifact \<Rightarrow> path \<Rightarrow> fs \<Rightarrow> fetched" where
  "stageLocal L c a p f =
     (case os_MkdirAll (cache_dir c) f of
        (Some e, f1) \<Rightarrow> (Inl e, 0, False, f1)
      | (None, f1) \<Rightarrow>
          if CheckArtifact L f1 (final_path c a) a = None
          then (Inr (final_path c a), art_Size a, False, f1)
          else (case copyFile p (final_path c a) f1 of
            (Some e, f2) \<Rightarrow> (Inl e, 0, False, f2)
          | (None, f2) \<Rightarrow> (case CheckArtifact L f2 (final_path c a) a of
              Some e \<Rightarrow> (Inl e, 0, False, f2)
            | None \<Rightarrow> (Inr (final_path c a), art_Size a, False, f2))))"

text \<open>
  \<open>filepath.Rel\<close> of two cleaned absolute paths starts with \<open>..\<close> unless the base is a prefix; the
  remaining first component can begin with two dots as well.
\<close>

definition inside_media :: "Config \<Rightarrow> string \<Rightarrow> bool" where
  "inside_media c p \<longleftrightarrow>
     (let base = abs_path (cfg_LocalMediaDir c); q = abs_path p; rest = drop (length base) q
      in IsAbs p \<and> IsAbs (cfg_LocalMediaDir c) \<and> take (length base) q = base
         \<and> (case rest of [] \<Rightarrow> True | x # _ \<Rightarrow> \<not> starts_with ''..'' x))"

definition fetchFile :: "lib \<Rightarrow> Config \<Rightarrow> Artifact \<Rightarrow> URL \<Rightarrow> fs \<Rightarrow> fetched" where
  "fetchFile L c a u f =
     (if cfg_LocalMediaDir c = [] then (Inl (Err ''file artifacts require local_media_dir''), 0, False, f)
      else if \<not> inside_media c (url_Path u)
      then (Inl (Err ''artifact path outside local media''), 0, False, f)
      else case CheckArtifact L f (abs_path (url_Path u)) a of
        Some e \<Rightarrow> (Inl e, 0, False, f)
      | None \<Rightarrow> stageLocal L c a (abs_path (url_Path u)) f)"

section \<open>The relay\<close>

text \<open>
  Writing a body to a file at its end: the reader is limited to \<open>lim\<close> bytes; a write error keeps
  a proper prefix. Returns the bytes written, whether the copy failed, and the new content.
\<close>

definition copy_body :: "fs \<Rightarrow> path \<Rightarrow> bytes \<Rightarrow> response \<Rightarrow> int \<Rightarrow> int \<times> bool \<times> bytes" where
  "copy_body f p old rsp lim =
     (let data = take (nat lim) (resp_Body rsp) in
      case fault f (IoWrite p) of
        Some e \<Rightarrow>
          if data = [] then (0, resp_Broken rsp \<and> int (length (resp_Body rsp)) < lim, old)
          else let k = min (fs_partial f p) (length data - 1)
               in (int k, True, old @ take k data)
      | None \<Rightarrow> (int (length data), resp_Broken rsp \<and> int (length (resp_Body rsp)) < lim, old @ data))"

definition open_part :: "fs \<Rightarrow> path \<Rightarrow> bytes result" where
  "open_part f p = (case fault f (IoCreate p) of Some e \<Rightarrow> Inl e
     | None \<Rightarrow> (case node_at f p of
         Some (Symlink _) \<Rightarrow> Inl (Err ''too many levels of symbolic links'')
       | Some Directory \<Rightarrow> Inl (Err ''is a directory'')
       | Some Special \<Rightarrow> Inl (Err ''cache entry is not a regular file'')
       | Some (RegFile b) \<Rightarrow> Inr b
       | None \<Rightarrow> if parent_ok f p then Inr [] else Inl ErrNotExist))"

text \<open>
  The relay answers with \<open>None\<close> in the middle component when the caller should go on to the
  origin: no answer, or any status but 200, 401 and 403.
\<close>

definition relay_token :: "Config \<Rightarrow> fs \<Rightarrow> string result" where
  "relay_token c f = (case os_ReadFile f (abs_path (cfg_RelayTokenFile c)) of
       Inl e \<Rightarrow> Inl e
     | Inr raw \<Rightarrow> if TrimSpace raw = [] then Inl (Err ''empty relay token'') else Inr (TrimSpace raw))"

definition relay_store :: "lib \<Rightarrow> Config \<Rightarrow> Artifact \<Rightarrow> response \<Rightarrow> fs \<Rightarrow> error option \<times> int \<times> fs" where
  "relay_store L c a rsp f =
     (let part = part_path c a; final = final_path c a in
      case open_part f part of Inl e \<Rightarrow> (Some e, 0, f)
      | Inr _ \<Rightarrow> (case copy_body f part [] rsp (art_Size a + 1) of
          (n, bad, content) \<Rightarrow>
            (let f1 = put_node part (RegFile content) f in
             if bad \<or> fault f (IoSync part) \<noteq> None \<or> fault f (IoClose part) \<noteq> None \<or> n \<noteq> art_Size a
             then (Some (Err ''relay artifact digest mismatch''), 0, snd (os_Remove part f1))
             else case CheckArtifact L f1 part a of
               Some e \<Rightarrow> (Some e, 0, snd (os_Remove part f1))
             | None \<Rightarrow> (case os_Rename part final f1 of
                 (Some e, f2) \<Rightarrow> (Some e, 0, snd (os_Remove part f2))
               | (None, f2) \<Rightarrow> (None, n, f2)))))"

definition fetchFromRelay ::
  "lib \<Rightarrow> net \<Rightarrow> Config \<Rightarrow> Artifact \<Rightarrow> fs \<Rightarrow> (path option) result \<times> int \<times> fs" where
  "fetchFromRelay L N c a f =
     (case relay_token c f of
        Inl e \<Rightarrow> (Inl e, 0, f)
      | Inr token \<Rightarrow> (case net_Parse N (cfg_RelayURL c) of
          None \<Rightarrow> (Inl (Err ''parse relay_url''), 0, f)
        | Some u \<Rightarrow> (case net_relay N (cfg_RelayURL c) token a of
            None \<Rightarrow> (Inr None, 0, f)
          | Some rsp \<Rightarrow>
              if resp_Status rsp = 200 then
                (case relay_store L c a rsp f of
                   (Some e, n, f1) \<Rightarrow> (Inl e, n, f1)
                 | (None, n, f1) \<Rightarrow> (Inr (Some (final_path c a)), n, f1))
              else if resp_Status rsp = 401 \<or> resp_Status rsp = 403
              then (Inl (Err ''relay unauthorized''), 0, f)
              else (Inr None, 0, f))))"

section \<open>Fetching from the origin\<close>

definition finishDownload :: "path \<Rightarrow> path \<Rightarrow> fs \<Rightarrow> error option \<times> fs" where
  "finishDownload part final f =
     (case fault f (IoSync part) of Some e \<Rightarrow> (Some e, f)
      | None \<Rightarrow> (case fault f (IoClose part) of Some e \<Rightarrow> (Some e, f)
        | None \<Rightarrow> (case os_Rename part final f of
            (Some e, f1) \<Rightarrow> (Some e, f1)
          | (None, f1) \<Rightarrow> (case fault f1 (IoOpen (butlast final)) of Some e \<Rightarrow> (Some e, f1)
              | None \<Rightarrow> (fault f1 (IoSync (butlast final)), f1)))))"

definition truncate0 :: "path \<Rightarrow> fs \<Rightarrow> error option \<times> fs" where
  "truncate0 p f = (case fault f (IoTruncate p) of Some e \<Rightarrow> (Some e, f)
     | None \<Rightarrow> (None, put_node p (RegFile []) f))"

fun digits :: "nat \<Rightarrow> string" where
  "digits n = (if n < 10 then [char_of (48 + n)] else digits (n div 10) @ [char_of (48 + n mod 10)])"

declare digits.simps [simp del]

definition content_range :: "int \<Rightarrow> int \<Rightarrow> string" where
  "content_range offset sz =
     ''bytes '' @ digits (nat offset) @ ''-'' @ digits (nat (sz - 1)) @ ''/'' @ digits (nat sz)"

text \<open>
  After a good status the body is appended at \<open>old\<close> (the bytes already in the part file).
\<close>

definition receive :: "lib \<Rightarrow> Config \<Rightarrow> Artifact \<Rightarrow> bool \<Rightarrow> bytes \<Rightarrow> response \<Rightarrow> fs \<Rightarrow> fetched" where
  "receive L c a resumed old rsp f =
     (let part = part_path c a; final = final_path c a; offset = int (length old) in
      if resp_ContentEncoding rsp \<noteq> [] \<and> resp_ContentEncoding rsp \<noteq> ''identity''
      then (Inl (Err ''unexpected content encoding''), 0, resumed, f)
      else if resp_ContentLength rsp \<ge> 0 \<and> resp_ContentLength rsp \<noteq> art_Size a - offset
      then (Inl (Err ''artifact Content-Length mismatch''), 0, resumed, f)
      else case fault f (IoSeek part) of Some e \<Rightarrow> (Inl e, 0, resumed, f)
      | None \<Rightarrow> (case copy_body f part old rsp (art_Size a - offset + 1) of
          (n, bad, content) \<Rightarrow>
            (let f1 = put_node part (RegFile content) f in
             if n > art_Size a - offset
             then (Inl (Err ''artifact exceeds signed size''), n, resumed, snd (truncate0 part f1))
             else if bad
             then (Inl (Err ''artifact transfer interrupted; partial retained''), n, resumed, f1)
             else case fault f1 (IoSync part) of Some e \<Rightarrow> (Inl e, n, resumed, f1)
             | None \<Rightarrow>
                 if n \<noteq> art_Size a - offset
                 then (Inl (Err ''artifact transfer truncated; partial retained''), n, resumed, f1)
                 else (case CheckArtifact L f1 part a of
                   Some e \<Rightarrow> (Inl e, n, resumed, snd (truncate0 part f1))
                 | None \<Rightarrow> (case finishDownload part final f1 of
                     (Some e, f2) \<Rightarrow> (Inl e, n, resumed, f2)
                   | (None, f2) \<Rightarrow> (Inr final, n, resumed, f2))))))"

definition request_body :: "lib \<Rightarrow> net \<Rightarrow> Config \<Rightarrow> Artifact \<Rightarrow> bytes \<Rightarrow> fs \<Rightarrow> fetched" where
  "request_body L N c a old f =
     (let part = part_path c a; offset = int (length old); resumed = (offset > 0) in
      case fault f (IoStatfs (cache_dir c)) of Some e \<Rightarrow> (Inl e, 0, False, f)
      | None \<Rightarrow>
          if fs_bavail f (cache_dir c) * fs_bsize f < word_of_int (art_Size a - offset) + cfg_ReserveBytes c
          then (Inl (Err ''insufficient cache space''), 0, False, f)
          else case client_Do N c (art_URL a) offset of
            None \<Rightarrow> (Inl (Err ''artifact request failed''), 0, resumed, f)
          | Some rsp \<Rightarrow>
              if resp_Status rsp = 200 then
                (case truncate0 part f of
                   (Some e, f1) \<Rightarrow> (Inl e, 0, False, f1)
                 | (None, f1) \<Rightarrow> receive L c a False [] rsp f1)
              else if resp_Status rsp = 206 then
                (if resp_ContentRange rsp \<noteq> content_range offset (art_Size a)
                 then (Inl (Err ''invalid Content-Range''), 0, True, f)
                 else receive L c a resumed old rsp f)
              else (Inl (Err ''artifact HTTP status''), 0, resumed, f))"

text \<open>
  The part file is opened (created if missing); more than the signed size is discarded, exactly
  the signed size is either the artifact or discarded, less is resumed.
\<close>

definition resume_part :: "lib \<Rightarrow> net \<Rightarrow> Config \<Rightarrow> Artifact \<Rightarrow> fs \<Rightarrow> fetched" where
  "resume_part L N c a f =
     (let part = part_path c a; final = final_path c a in
      case open_part f part of Inl e \<Rightarrow> (Inl e, 0, False, f)
      | Inr old \<Rightarrow>
          (let f1 = put_node part (RegFile old) f in
           case fault f1 (IoStat part) of Some e \<Rightarrow> (Inl e, 0, False, f1)
           | None \<Rightarrow>
               if int (length old) > art_Size a then
                 (case truncate0 part f1 of
                    (Some e, f2) \<Rightarrow> (Inl e, 0, False, f2)
                  | (None, f2) \<Rightarrow> request_body L N c a [] f2)
               else if int (length old) = art_Size a then
                 (if CheckArtifact L f1 part a = None then
                    (case finishDownload part final f1 of
                       (Some e, f2) \<Rightarrow> (Inl e, 0, False, f2)
                     | (None, f2) \<Rightarrow> (Inr final, art_Size a, True, f2))
                  else (case truncate0 part f1 of
                    (Some e, f2) \<Rightarrow> (Inl e, 0, False, f2)
                  | (None, f2) \<Rightarrow> request_body L N c a [] f2))
               else request_body L N c a old f1))"

definition fetch_origin :: "lib \<Rightarrow> net \<Rightarrow> Config \<Rightarrow> Artifact \<Rightarrow> fs \<Rightarrow> fetched" where
  "fetch_origin L N c a f =
     (case os_Remove (final_path c a) f of
        (Some e, f1) \<Rightarrow> if \<not> IsNotExist e then (Inl e, 0, False, f1) else resume_part L N c a f1
      | (None, f1) \<Rightarrow> resume_part L N c a f1)"

definition fetch_remote :: "lib \<Rightarrow> net \<Rightarrow> Config \<Rightarrow> Artifact \<Rightarrow> URL \<Rightarrow> fs \<Rightarrow> fetched" where
  "fetch_remote L N c a u f =
     (case checkURL N c u of Some e \<Rightarrow> (Inl e, 0, False, f)
      | None \<Rightarrow>
          if \<not> digestPattern (art_SHA256 a) \<or> art_Size a \<le> 0 \<or> art_Size a > cfg_MaxArtifactBytes c
          then (Inl (Err ''invalid artifact''), 0, False, f)
          else case os_MkdirAll (cache_dir c) f of
            (Some e, f1) \<Rightarrow> (Inl e, 0, False, f1)
          | (None, f1) \<Rightarrow>
              if CheckArtifact L f1 (final_path c a) a = None
              then (Inr (final_path c a), art_Size a, False, f1)
              else if cfg_RelayURL c \<noteq> [] then
                (case fetchFromRelay L N c a f1 of
                   (Inl e, n, f2) \<Rightarrow> (Inl e, n, False, f2)
                 | (Inr (Some p), n, f2) \<Rightarrow> (Inr p, n, False, f2)
                 | (Inr None, n, f2) \<Rightarrow> fetch_origin L N c a f2)
              else fetch_origin L N c a f1)"

definition fetch :: "lib \<Rightarrow> net \<Rightarrow> Config \<Rightarrow> Artifact \<Rightarrow> fs \<Rightarrow> fetched" where
  "fetch L N c a f =
     (case localMediaFile L c f a of
        Inl e \<Rightarrow> (Inl e, 0, False, f)
      | Inr (Some p) \<Rightarrow> stageLocal L c a p f
      | Inr None \<Rightarrow> (case net_Parse N (art_URL a) of
          None \<Rightarrow> (Inl (Err ''parse artifact URL''), 0, False, f)
        | Some u \<Rightarrow> if url_Scheme u = ''file'' then fetchFile L c a u f
            else fetch_remote L N c a u f))"

section \<open>What a fetch delivers\<close>

lemma final_path_cache: "final_path c a = cache_file (cfg_StateDir c) a"
  by (simp add: final_path_def cache_dir_def cache_file_def)

lemma part_final:
  assumes "digestPattern (art_SHA256 a)"
  shows "part_path c a \<noteq> final_path c a" "final_path c a \<noteq> []"
proof -
  have "plain (art_SHA256 a @ ''.raucb.part'')"
  proof (rule plainI)
    from assms show "2 < length (art_SHA256 a @ ''.raucb.part'')" by (simp add: digestPattern_def)
    from plain_digest [OF assms] show "CHR ''/'' \<notin> set (art_SHA256 a @ ''.raucb.part'')"
      by (auto simp: plain_def)
  qed
  with plain_digest [OF assms] show "part_path c a \<noteq> final_path c a" "final_path c a \<noteq> []"
    by (simp_all add: part_path_def final_path_def)
qed

lemma os_Rename_moves:
  "os_Rename p q f = (None, f1) \<Longrightarrow> p \<noteq> q \<Longrightarrow> node_at f1 q = node_at f p"
  by (auto simp: os_Rename_def node_at_put parent_ok_def split: option.splits node.splits if_splits)

lemma finishDownload_moves:
  "finishDownload p q f = (None, f1) \<Longrightarrow> p \<noteq> q \<Longrightarrow> node_at f1 q = node_at f p"
  by (auto simp: finishDownload_def os_Rename_moves split: option.splits prod.splits)

lemma holds_moved:
  "CheckArtifact L f p a = None \<Longrightarrow> node_at f1 q = node_at f p \<Longrightarrow> holds_artifact L f1 q a"
  using CheckArtifact_sound [of L f p a] by (simp add: holds_artifact_def)

lemma stageLocal_sound:
  "stageLocal L c a p f = (Inr q, n, r, f1) \<Longrightarrow> q = final_path c a \<and> holds_artifact L f1 q a"
  by (auto simp: stageLocal_def split: option.splits prod.splits if_splits intro: CheckArtifact_sound)

lemma receive_sound:
  assumes "receive L c a resumed old rsp f = (Inr q, n, r, f1)" "digestPattern (art_SHA256 a)"
  shows "q = final_path c a \<and> holds_artifact L f1 q a"
  using assms(1) part_final [OF assms(2), of c]
  by (auto simp: receive_def Let_def split: if_splits option.splits prod.splits
      dest!: finishDownload_moves intro: holds_moved)

lemma request_body_sound:
  assumes "request_body L N c a old f = (Inr q, n, r, f1)" "digestPattern (art_SHA256 a)"
  shows "q = final_path c a \<and> holds_artifact L f1 q a"
  using assms(1) receive_sound [OF _ assms(2)]
  by (auto simp: request_body_def Let_def split: if_splits option.splits prod.splits)

lemma resume_part_sound:
  assumes "resume_part L N c a f = (Inr q, n, r, f1)" "digestPattern (art_SHA256 a)"
  shows "q = final_path c a \<and> holds_artifact L f1 q a"
proof -
  let ?p = "part_path c a" and ?q = "final_path c a"
  obtain old where old: "open_part f ?p = Inr old"
    using assms(1) by (auto simp: resume_part_def Let_def split: sum.splits)
  let ?f1 = "put_node ?p (RegFile old) f"
  consider f2 old' where "request_body L N c a old' f2 = (Inr q, n, r, f1)"
    | "CheckArtifact L ?f1 ?p a = None" "finishDownload ?p ?q ?f1 = (None, f1)" "q = ?q"
    using assms(1) old by (auto simp: resume_part_def Let_def split: if_splits option.splits prod.splits)
  then show ?thesis
  proof cases
    case 1
    then show ?thesis using assms(2) by (rule request_body_sound)
  next
    case 2
    with finishDownload_moves [OF 2(2)] part_final [OF assms(2)] holds_moved show ?thesis by metis
  qed
qed

lemma relay_store_sound:
  assumes "relay_store L c a rsp f = (None, n, f1)" "digestPattern (art_SHA256 a)"
  shows "holds_artifact L f1 (final_path c a) a"
  using assms(1) part_final [OF assms(2), of c]
  by (auto simp: relay_store_def Let_def split: if_splits option.splits prod.splits sum.splits
      dest!: os_Rename_moves intro: holds_moved)

lemma fetchFromRelay_sound:
  assumes "fetchFromRelay L N c a f = (Inr (Some q), n, f1)" "digestPattern (art_SHA256 a)"
  shows "q = final_path c a \<and> holds_artifact L f1 q a"
  using assms relay_store_sound [OF _ assms(2)]
  by (auto simp: fetchFromRelay_def split: if_splits option.splits prod.splits sum.splits)

lemma fetch_remote_sound:
  assumes "fetch_remote L N c a u f = (Inr q, n, r, f1)"
  shows "q = final_path c a \<and> holds_artifact L f1 q a"
proof -
  have dig: "digestPattern (art_SHA256 a)"
    using assms by (auto simp: fetch_remote_def split: option.splits if_splits)
  have origin: "fetch_origin L N c a f2 = (Inr q, n, r, f1) \<Longrightarrow> ?thesis" for f2
    using resume_part_sound [OF _ dig]
    by (auto simp: fetch_origin_def split: prod.splits option.splits if_splits)
  obtain f2 where f2: "os_MkdirAll (cache_dir c) f = (None, f2)"
    using assms by (auto simp: fetch_remote_def split: option.splits if_splits prod.splits)
  consider "CheckArtifact L f2 (final_path c a) a = None" "q = final_path c a" "f1 = f2"
    | f3 where "fetch_origin L N c a f3 = (Inr q, n, r, f1)"
    | "fetchFromRelay L N c a f2 = (Inr (Some q), n, f1)"
    using assms f2
    by (auto simp: fetch_remote_def split: option.splits if_splits prod.splits sum.splits)
  then show ?thesis
    by cases (auto intro: CheckArtifact_sound dest: origin fetchFromRelay_sound [OF _ dig])
qed

lemma fetch_sound:
  assumes "fetch L N c a f = (Inr q, n, r, f1)"
  shows "q = final_path c a \<and> holds_artifact L f1 q a"
  using assms
  by (auto simp: fetch_def fetchFile_def split: sum.splits option.splits if_splits
      dest: stageLocal_sound fetch_remote_sound)

lemma follow_hops_iff:
  "follow_hops N c via us \<longleftrightarrow> (us = [] \<or> via + length us \<le> 5) \<and> (\<forall>u \<in> set us. checkURL N c u = None)"
  by (induction us arbitrary: via) auto

lemma checkURL_None:
  "checkURL N c u = None \<longleftrightarrow> \<not> url_HasUser u \<and> url_Fragment u = [] \<and> url_Host u \<noteq> []
     \<and> (url_Scheme u = ''https'' \<or> cfg_Backend c = ''simulator'' \<and> url_Scheme u = ''http'' \<and> is_loopback u)
     \<and> (\<exists>h \<in> set (cfg_DownloadHosts c). net_EqualFold N h (url_Host u))"
  by (auto simp: checkURL_def list_ex_iff)

section \<open>Properties\<close>

definition sample_url :: URL where
  "sample_url = \<lparr>url_Scheme = ''https'', url_HasUser = False, url_Host = ''h'', url_Hostname = ''h'',
     url_Path = ''/a'', url_RawQuery = [], url_Fragment = []\<rparr>"

definition sample_reply :: response where
  "sample_reply = \<lparr>resp_Status = 200, resp_ContentRange = [], resp_ContentEncoding = [],
     resp_ContentLength = - 1, resp_Body = ''new'', resp_Broken = False\<rparr>"

definition sample_net :: net where
  "sample_net = \<lparr>net_Parse = (\<lambda>_. Some sample_url), net_EqualFold = (=), net_hops = (\<lambda>_ _. [sample_url]),
     net_reply = (\<lambda>_ _. Some sample_reply), net_relay = (\<lambda>_ _ _. None)\<rparr>"

text \<open>
  C11. Whatever the servers, the relay, the local media and the disk do, a fetch that reports
  success returns the cache path of the artifact, and the file there has exactly the signed size
  and digest. This covers every route: local media, \<open>file:\<close> URLs, a cached copy, the relay, a finished or
  resumed partial download and a fresh one.
\<close>

theorem fetch_delivers_signed_bytes:
  assumes "fetch L N c a f = (Inr p, n, resumed, f1)"
  shows "p = cache_file (cfg_StateDir c) a \<and> holds_artifact L f1 p a"
  using fetch_sound [OF assms] by (auto simp: final_path_cache)

theorem fetch_delivers_signed_bytes_witness:
  "\<exists>p n r f1. fetch sample_lib sample_net sample_config sample_artifact sample_empty_fs = (Inr p, n, r, f1)
     \<and> holds_artifact sample_lib f1 p sample_artifact"
proof -
  have "is_ok (fst (fetch sample_lib sample_net sample_config sample_artifact sample_empty_fs))" by code_simp
  then obtain p n r f1 where "fetch sample_lib sample_net sample_config sample_artifact sample_empty_fs = (Inr p, n, r, f1)"
    by (metis is_ok_iff prod.collapse)
  with fetch_delivers_signed_bytes show ?thesis by blast
qed

text \<open>
  C23. An answer is accepted only after at most four redirects, each to a URL without user info or
  fragment, over HTTPS (or loopback HTTP on the simulator), to a host on the device's allowlist.
\<close>

theorem redirects_stay_on_allowlist:
  assumes "client_Do N c u offset = Some rsp"
  shows "length (net_hops N u offset) \<le> 4 \<and> list_all (\<lambda>h. \<not> url_HasUser h \<and> url_Fragment h = []
      \<and> (url_Scheme h = ''https'' \<or> cfg_Backend c = ''simulator'' \<and> url_Scheme h = ''http'' \<and> is_loopback h)
      \<and> list_ex (\<lambda>host. net_EqualFold N host (url_Host h)) (cfg_DownloadHosts c)) (net_hops N u offset)"
  using assms
  by (auto simp: client_Do_def follow_hops_iff checkURL_None list_all_iff list_ex_iff split: if_splits)

theorem redirects_stay_on_allowlist_witness:
  "client_Do sample_net sample_config ''https://h/a'' 0 = Some sample_reply
    \<and> length (net_hops sample_net ''https://h/a'' 0) \<le> 4"
proof
  show c: "client_Do sample_net sample_config ''https://h/a'' 0 = Some sample_reply"
    by (simp add: client_Do_def sample_net_def checkURL_def sample_url_def sample_config_def)
  show "length (net_hops sample_net ''https://h/a'' 0) \<le> 4"
    using redirects_stay_on_allowlist [OF c] by simp
qed

end
