(* ===== verification/OTA_Backend.thy ===== *)
theory OTA_Backend
  imports OTA_Store
begin

text \<open>
  Boot slots and the backends (\<open>internal/ota/backend.go\<close>, \<open>internal/ota/rauc.go\<close>). The engine talks
  to a \<open>Backend\<close> interface, here a record of four operations on a device state. The simulator is
  modelled in full over its status file; the RAUC backend over the replies of the D-Bus
  services, which are arguments. The locale \<open>ab_device\<close> states what an A/B backend promises and is
  interpreted on the simulator.
\<close>

section \<open>Device status\<close>

record Slot =
  slot_Name :: string
  slot_Version :: string
  slot_Good :: bool

record DeviceStatus =
  ds_BootID :: string
  ds_Booted :: string
  ds_Primary :: string
  ds_Operation :: string
  ds_Compatible :: string
  ds_Slots :: "Slot list"

fun other_loop :: "string \<Rightarrow> Slot list \<Rightarrow> bool \<times> string \<Rightarrow> bool \<times> string" where
  "other_loop booted [] s = s"
| "other_loop booted (sl # sls) s =
     other_loop booted sls (if slot_Name sl = booted then (True, snd s) else (fst s, slot_Name sl))"

definition Other :: "DeviceStatus \<Rightarrow> string result" where
  "Other s =
     (if length (ds_Slots s) \<noteq> 2 then Inl (Err ''exactly two bootable rootfs slots required'')
      else case other_loop (ds_Booted s) (ds_Slots s) (False, []) of
        (found, other) \<Rightarrow>
          if \<not> found \<or> other = [] then Inl (Err ''cannot determine A/B slots'') else Inr other)"

definition VersionOf :: "DeviceStatus \<Rightarrow> string \<Rightarrow> string" where
  "VersionOf s n = (case find (\<lambda>sl. slot_Name sl = n) (ds_Slots s) of
      None \<Rightarrow> [] | Some sl \<Rightarrow> slot_Version sl)"

definition GoodOf :: "DeviceStatus \<Rightarrow> string \<Rightarrow> bool" where
  "GoodOf s n = (case find (\<lambda>sl. slot_Name sl = n) (ds_Slots s) of
      None \<Rightarrow> False | Some sl \<Rightarrow> slot_Good sl)"

text \<open>The \<open>Backend\<close> interface. \<open>Install\<close> may read the artifact file.\<close>

record 'b backend =
  be_Status :: "'b \<Rightarrow> DeviceStatus result \<times> 'b"
  be_Install :: "fs \<Rightarrow> path \<Rightarrow> Release \<Rightarrow> 'b \<Rightarrow> error option \<times> 'b"
  be_Mark :: "string \<Rightarrow> string \<Rightarrow> 'b \<Rightarrow> error option \<times> 'b"
  be_Reboot :: "'b \<Rightarrow> error option \<times> 'b"

section \<open>The simulator\<close>

text \<open>
  The status file is kept as what reading it yields; a write goes through \<open>AtomicWrite\<close>, so it
  leaves the old file or the new one and may report an error in both cases. \<open>sim_ctx\<close> is the error
  of the installation context.
\<close>

record simulator =
  sim_file :: "DeviceStatus result"
  sim_compatible :: string
  sim_FailInstall :: bool
  sim_FailBoot :: bool
  sim_ctx :: "error option"
  sim_env :: "nat \<Rightarrow> persist_outcome"
  sim_writes :: nat

definition sim_write :: "DeviceStatus \<Rightarrow> simulator \<Rightarrow> error option \<times> simulator" where
  "sim_write v s =
     (let s1 = s\<lparr>sim_writes := Suc (sim_writes s)\<rparr> in
      case sim_env s (sim_writes s) of
        Stored \<Rightarrow> (None, s1\<lparr>sim_file := Inr v\<rparr>)
      | NotStored m \<Rightarrow> (Some (Err m), s1)
      | StoredButFailed m \<Rightarrow> (Some (Err m), s1\<lparr>sim_file := Inr v\<rparr>))"

definition sim_factory :: "string \<Rightarrow> DeviceStatus" where
  "sim_factory compatible = \<lparr>ds_BootID = ''boot-0'', ds_Booted = ''rootfs.0'', ds_Primary = ''rootfs.0'',
     ds_Operation = ''idle'', ds_Compatible = compatible,
     ds_Slots = [\<lparr>slot_Name = ''rootfs.0'', slot_Version = ''factory'', slot_Good = True\<rparr>,
       \<lparr>slot_Name = ''rootfs.1'', slot_Version = ''factory'', slot_Good = True\<rparr>]\<rparr>"

definition NewSimulator :: "string \<Rightarrow> simulator \<Rightarrow> error option \<times> simulator" where
  "NewSimulator compatible s0 =
     (let s = s0\<lparr>sim_compatible := compatible, sim_FailInstall := False, sim_FailBoot := False\<rparr> in
      if sim_file s = Inl ErrNotExist then
        (case sim_write (sim_factory compatible) s of
           (Some e, s1) \<Rightarrow> (Some e, s1)
         | (None, s1) \<Rightarrow> (case sim_file s1 of Inl e \<Rightarrow> (Some e, s1) | Inr _ \<Rightarrow> (None, s1)))
      else (case sim_file s of Inl e \<Rightarrow> (Some e, s) | Inr _ \<Rightarrow> (None, s)))"

definition sim_Status :: "simulator \<Rightarrow> DeviceStatus result \<times> simulator" where
  "sim_Status s = (sim_file s, s)"

definition set_slot :: "string \<Rightarrow> (Slot \<Rightarrow> Slot) \<Rightarrow> DeviceStatus \<Rightarrow> DeviceStatus" where
  "set_slot n g v = v\<lparr>ds_Slots := map (\<lambda>sl. if slot_Name sl = n then g sl else sl) (ds_Slots v)\<rparr>"

definition sim_Install :: "lib \<Rightarrow> fs \<Rightarrow> path \<Rightarrow> Release \<Rightarrow> simulator \<Rightarrow> error option \<times> simulator" where
  "sim_Install L f p r s =
     (case sim_ctx s of Some e \<Rightarrow> (Some e, s)
      | None \<Rightarrow>
          if sim_FailInstall s then (Some (Err ''simulated install failure''), s)
          else case CheckArtifact L f p (rel_Artifact r) of Some e \<Rightarrow> (Some e, s)
          | None \<Rightarrow> (case sim_file s of Inl e \<Rightarrow> (Some e, s)
            | Inr v \<Rightarrow> (case Other v of Inl e \<Rightarrow> (Some e, s)
              | Inr target \<Rightarrow>
                  sim_write ((set_slot target (\<lambda>sl. sl\<lparr>slot_Version := rel_Version r, slot_Good := False\<rparr>) v)
                    \<lparr>ds_Primary := target\<rparr>) s)))"

fun mark_loop :: "string \<Rightarrow> string \<Rightarrow> Slot list \<Rightarrow> bool \<times> Slot list \<times> string \<Rightarrow> (bool \<times> Slot list \<times> string) result" where
  "mark_loop state n [] acc = Inr acc"
| "mark_loop state n (sl # sls) (found, out, primary) =
     (if slot_Name sl = n then
        (if state = ''good'' then mark_loop state n sls (True, out @ [sl\<lparr>slot_Good := True\<rparr>], primary)
         else if state = ''bad'' then mark_loop state n sls (True, out @ [sl\<lparr>slot_Good := False\<rparr>], primary)
         else if state = ''active'' then mark_loop state n sls (True, out @ [sl], n)
         else Inl (Err ''invalid mark state''))
      else mark_loop state n sls (found, out @ [sl], primary))"

definition sim_Mark :: "string \<Rightarrow> string \<Rightarrow> simulator \<Rightarrow> error option \<times> simulator" where
  "sim_Mark state n s =
     (case sim_file s of Inl e \<Rightarrow> (Some e, s)
      | Inr v \<Rightarrow> (case mark_loop state n (ds_Slots v) (False, [], ds_Primary v) of
          Inl e \<Rightarrow> (Some e, s)
        | Inr (found, slots, primary) \<Rightarrow>
            if \<not> found then (Some (Err ''unknown slot''), s)
            else sim_write (v\<lparr>ds_Slots := slots, ds_Primary := primary\<rparr>) s))"

definition sim_Reboot :: "simulator \<Rightarrow> error option \<times> simulator" where
  "sim_Reboot s =
     (case sim_file s of Inl e \<Rightarrow> (Some e, s)
      | Inr v \<Rightarrow>
          (let v1 = v\<lparr>ds_BootID := ds_BootID v @ ''x''\<rparr>
           in sim_write (if sim_FailBoot s then v1\<lparr>ds_Primary := ds_Booted v1\<rparr>
                         else v1\<lparr>ds_Booted := ds_Primary v1\<rparr>) s))"

definition Simulator :: "lib \<Rightarrow> simulator backend" where
  "Simulator L = \<lparr>be_Status = sim_Status, be_Install = sim_Install L, be_Mark = sim_Mark, be_Reboot = sim_Reboot\<rparr>"

definition LinuxBootID :: "fs \<Rightarrow> string result" where
  "LinuxBootID f = (case os_ReadFile f (abs_path ''/proc/sys/kernel/random/boot_id'') of
       Inl e \<Rightarrow> Inl e
     | Inr b \<Rightarrow> if TrimSpace b = [] then Inl (Err ''empty boot ID'') else Inr (TrimSpace b))"

section \<open>RAUC over D-Bus\<close>

datatype variant = VString string | VInt32 int | VOther

datatype bus_event = CtxDone | BusClosed | BusSignal string "variant list"

text \<open>
  What the bus answers during one call of the agent; after the last listed event the
  installation context expires (it has a 30-minute deadline).
\<close>

record rauc_bus =
  rb_property :: "string \<Rightarrow> variant result"
  rb_boot_id :: "string result"
  rb_primary :: "string result"
  rb_slots :: "(string \<times> (string \<times> variant) list) list result"
  rb_match :: "error option"
  rb_install :: "path \<Rightarrow> error option"
  rb_events :: "bus_event list"
  rb_mark :: "string \<Rightarrow> string \<Rightarrow> string result"
  rb_reboot :: "error option"

definition stringProperty :: "rauc_bus \<Rightarrow> string \<Rightarrow> string result" where
  "stringProperty b n = (case rb_property b n of Inl e \<Rightarrow> Inl e
     | Inr (VString s) \<Rightarrow> Inr s
     | Inr _ \<Rightarrow> Inl (Err (''RAUC property '' @ n @ '' not a string'')))"

definition prop_string :: "(string \<times> variant) list \<Rightarrow> string \<Rightarrow> string" where
  "prop_string p k = (case map_of p k of Some (VString s) \<Rightarrow> s | _ \<Rightarrow> [])"

fun rauc_slots :: "(string \<times> (string \<times> variant) list) list \<Rightarrow> string \<times> Slot list \<Rightarrow> string \<times> Slot list" where
  "rauc_slots [] s = s"
| "rauc_slots ((n, p) # xs) s =
     (if prop_string p ''class'' \<noteq> ''rootfs'' \<or> prop_string p ''bootname'' = [] then rauc_slots xs s
      else rauc_slots xs
        (if prop_string p ''state'' = ''booted'' then n else fst s,
         snd s @ [\<lparr>slot_Name = n, slot_Version = prop_string p ''bundle.version'',
                   slot_Good = (prop_string p ''boot-status'' = ''good'')\<rparr>]))"

definition rauc_Status :: "rauc_bus \<Rightarrow> DeviceStatus result" where
  "rauc_Status b =
     (case stringProperty b ''Operation'' of Inl e \<Rightarrow> Inl e
      | Inr oper \<Rightarrow> (case stringProperty b ''Compatible'' of Inl e \<Rightarrow> Inl e
        | Inr compatible \<Rightarrow> (case rb_boot_id b of Inl e \<Rightarrow> Inl e
          | Inr boot \<Rightarrow> (case rb_primary b of Inl e \<Rightarrow> Inl e
            | Inr primary \<Rightarrow> (case rb_slots b of Inl e \<Rightarrow> Inl e
              | Inr slots \<Rightarrow> (case rauc_slots slots ([], []) of (booted, sls) \<Rightarrow>
                  if booted = [] then Inl (Err ''RAUC did not identify booted rootfs'')
                  else Inr \<lparr>ds_BootID = boot, ds_Booted = booted, ds_Primary = primary,
                    ds_Operation = oper, ds_Compatible = compatible, ds_Slots = sls\<rparr>))))))"

fun wait_completed :: "bus_event list \<Rightarrow> error option" where
  "wait_completed [] = Some (Err ''RAUC completion unknown; backend may still be installing'')"
| "wait_completed (CtxDone # es) = Some (Err ''RAUC completion unknown; backend may still be installing'')"
| "wait_completed (BusClosed # es) = Some (Err ''RAUC bus closed; installation outcome unknown'')"
| "wait_completed (BusSignal n body # es) =
     (if n \<noteq> ''de.pengutronix.rauc.Installer.Completed'' \<or> length body \<noteq> 1 then wait_completed es
      else case hd body of
        VInt32 code \<Rightarrow> if code \<noteq> 0 then Some (Err ''RAUC installation failed with code'') else None
      | _ \<Rightarrow> Some (Err ''malformed RAUC completion''))"

definition rauc_Install :: "path \<Rightarrow> Release \<Rightarrow> rauc_bus \<Rightarrow> error option" where
  "rauc_Install p r b =
     (case rb_match b of Some e \<Rightarrow> Some e
      | None \<Rightarrow> (case rauc_Status b of Inl e \<Rightarrow> Some e
        | Inr s \<Rightarrow>
            if ds_Operation s \<noteq> ''idle'' then Some (Err ''RAUC busy'')
            else if ds_Compatible s \<noteq> rel_Compatible r then Some (Err ''RAUC compatible mismatch'')
            else case rb_install b p of Some e \<Rightarrow> Some e
            | None \<Rightarrow> wait_completed (rb_events b)))"

definition rauc_Mark :: "string \<Rightarrow> string \<Rightarrow> rauc_bus \<Rightarrow> error option" where
  "rauc_Mark state n b =
     (if state \<noteq> ''good'' \<and> state \<noteq> ''bad'' \<and> state \<noteq> ''active'' then Some (Err ''invalid mark state'')
      else case rb_mark b state n of Inl e \<Rightarrow> Some e
      | Inr actual \<Rightarrow> if actual \<noteq> n then Some (Err ''RAUC marked an unexpected slot'') else None)"

definition rauc_Reboot :: "rauc_bus \<Rightarrow> error option" where
  "rauc_Reboot b = rb_reboot b"

text \<open>As a backend: the device state is the sequence of what the bus will answer, call by call.\<close>

definition RAUC :: "(rauc_bus list) backend" where
  "RAUC = \<lparr>
     be_Status = (\<lambda>bs. case bs of [] \<Rightarrow> (Inl (Err ''bus closed''), []) | b # r \<Rightarrow> (rauc_Status b, r)),
     be_Install = (\<lambda>f p rel bs. case bs of [] \<Rightarrow> (Some (Err ''bus closed''), []) | b # r \<Rightarrow> (rauc_Install p rel b, r)),
     be_Mark = (\<lambda>st n bs. case bs of [] \<Rightarrow> (Some (Err ''bus closed''), []) | b # r \<Rightarrow> (rauc_Mark st n b, r)),
     be_Reboot = (\<lambda>bs. case bs of [] \<Rightarrow> (Some (Err ''bus closed''), []) | b # r \<Rightarrow> (rauc_Reboot b, r))\<rparr>"

section \<open>Slots\<close>

lemma Other_iff:
  "Other s = Inr t \<longleftrightarrow> t \<noteq> [] \<and> t \<noteq> ds_Booted s \<and>
     (\<exists>a b. ds_Slots s = [a, b] \<and> {slot_Name a, slot_Name b} = {ds_Booted s, t})"
proof -
  have "length (ds_Slots s) = 2 \<longleftrightarrow> (\<exists>a b. ds_Slots s = [a, b])"
    by (auto simp: length_Suc_conv numeral_2_eq_2)
  then show ?thesis
    by (auto simp: Other_def doubleton_eq_iff split: if_splits)
qed

lemma VersionOf_set_slot:
  assumes "\<exists>sl \<in> set (ds_Slots v). slot_Name sl = n" "\<And>sl. slot_Name (g sl) = slot_Name sl"
    "\<And>sl. slot_Version (g sl) = x"
  shows "VersionOf (set_slot n g v) n = x"
proof -
  have "\<exists>sl \<in> set xs. slot_Name sl = n \<Longrightarrow>
    (case find (\<lambda>sl. slot_Name sl = n) (map (\<lambda>sl. if slot_Name sl = n then g sl else sl) xs) of
       None \<Rightarrow> [] | Some sl \<Rightarrow> slot_Version sl) = x" for xs
    using assms(2,3) by (induction xs) auto
  with assms(1) show ?thesis by (simp add: VersionOf_def set_slot_def)
qed

lemma VersionOf_set_slot_other:
  assumes "m \<noteq> n" "\<And>sl. slot_Name (g sl) = slot_Name sl"
  shows "VersionOf (set_slot n g v) m = VersionOf v m"
proof -
  have "(case find (\<lambda>sl. slot_Name sl = m) (map (\<lambda>sl. if slot_Name sl = n then g sl else sl) xs) of
       None \<Rightarrow> [] | Some sl \<Rightarrow> slot_Version sl)
     = (case find (\<lambda>sl. slot_Name sl = m) xs of None \<Rightarrow> [] | Some sl \<Rightarrow> slot_Version sl)" for xs
    using assms by (induction xs) auto
  then show ?thesis by (simp add: VersionOf_def set_slot_def)
qed

section \<open>What an A/B backend promises\<close>

definition installed :: "DeviceStatus \<Rightarrow> Release \<Rightarrow> DeviceStatus \<Rightarrow> bool" where
  "installed v r v' \<longleftrightarrow> (\<exists>t. Other v = Inr t \<and> ds_Primary v' = t \<and> VersionOf v' t = rel_Version r)
     \<and> ds_Booted v' = ds_Booted v \<and> ds_BootID v' = ds_BootID v
     \<and> VersionOf v' (ds_Booted v) = VersionOf v (ds_Booted v)"

definition rebooted :: "bool \<Rightarrow> DeviceStatus \<Rightarrow> DeviceStatus \<Rightarrow> bool" where
  "rebooted ok v v' \<longleftrightarrow> ds_BootID v' \<noteq> ds_BootID v \<and> ds_Slots v' = ds_Slots v
     \<and> ds_Booted v' = (if ok then ds_Primary v else ds_Booted v)"

locale ab_device =
  fixes stat :: "'b \<Rightarrow> DeviceStatus option"
    and inst :: "fs \<Rightarrow> path \<Rightarrow> Release \<Rightarrow> 'b \<Rightarrow> error option \<times> 'b"
    and mark :: "string \<Rightarrow> string \<Rightarrow> 'b \<Rightarrow> error option \<times> 'b"
    and reboot :: "'b \<Rightarrow> error option \<times> 'b"
    and boots :: "'b \<Rightarrow> bool"
  assumes install_law: "inst f p r b = (None, b') \<Longrightarrow>
      \<exists>v v'. stat b = Some v \<and> stat b' = Some v' \<and> installed v r v' \<and> boots b' = boots b"
    and mark_law: "mark st n b = (None, b') \<Longrightarrow>
      \<exists>v v'. stat b = Some v \<and> stat b' = Some v' \<and> boots b' = boots b
        \<and> ds_Booted v' = ds_Booted v \<and> ds_BootID v' = ds_BootID v
        \<and> VersionOf v' = VersionOf v \<and> ds_Primary v' = (if st = ''active'' then n else ds_Primary v)"
    and reboot_law: "reboot b = (None, b') \<Longrightarrow>
      \<exists>v v'. stat b = Some v \<and> stat b' = Some v' \<and> rebooted (boots b) v v'"
begin

lemma install_then_reboot:
  assumes "inst f p r b = (None, b1)" "reboot b1 = (None, b2)" "stat b = Some v"
  shows "\<exists>v2 t. stat b2 = Some v2 \<and> Other v = Inr t \<and> ds_BootID v2 \<noteq> ds_BootID v
    \<and> VersionOf v2 t = rel_Version r \<and> VersionOf v2 (ds_Booted v) = VersionOf v (ds_Booted v)
    \<and> ds_Booted v2 = (if boots b then t else ds_Booted v)"
proof -
  obtain v1 where v1: "stat b1 = Some v1" "installed v r v1" "boots b1 = boots b"
    using install_law [OF assms(1)] assms(3) by auto
  obtain v2 where v2: "stat b2 = Some v2" "rebooted (boots b) v1 v2"
    using reboot_law [OF assms(2)] v1 by auto
  have "VersionOf v2 = VersionOf v1" using v2(2) by (intro ext) (simp add: rebooted_def VersionOf_def)
  with v1(2) v2 show ?thesis by (auto simp: installed_def rebooted_def)
qed

lemma mark_back_then_reboot:
  assumes "mark ''bad'' t b = (None, b1)" "mark ''active'' old b1 = (None, b2)" "reboot b2 = (None, b3)"
    and "stat b = Some v" "boots b"
  shows "\<exists>v3. stat b3 = Some v3 \<and> ds_Booted v3 = old \<and> VersionOf v3 = VersionOf v
    \<and> ds_BootID v3 \<noteq> ds_BootID v"
proof -
  obtain v1 where v1: "stat b1 = Some v1" "boots b1" "VersionOf v1 = VersionOf v" "ds_BootID v1 = ds_BootID v"
    using mark_law [OF assms(1)] assms(4,5) by auto
  obtain v2 where v2: "stat b2 = Some v2" "boots b2" "VersionOf v2 = VersionOf v" "ds_Primary v2 = old"
    "ds_BootID v2 = ds_BootID v"
    using mark_law [OF assms(2)] v1 by auto
  obtain v3 where v3: "stat b3 = Some v3" "rebooted True v2 v3"
    using reboot_law [OF assms(3)] v2(1,2) by auto
  have "VersionOf v3 = VersionOf v2" using v3(2) by (intro ext) (simp add: rebooted_def VersionOf_def)
  with v2 v3 show ?thesis by (auto simp: rebooted_def)
qed

end

definition sim_stat :: "simulator \<Rightarrow> DeviceStatus option" where
  "sim_stat s = (case sim_file s of Inl e \<Rightarrow> None | Inr v \<Rightarrow> Some v)"

lemma sim_write_ok:
  "sim_write v s = (None, s') \<Longrightarrow> sim_file s' = Inr v \<and> sim_FailBoot s' = sim_FailBoot s"
  by (auto simp: sim_write_def Let_def split: persist_outcome.splits)

lemma mark_loop_out:
  assumes "mark_loop st n sls (found, out, primary) = Inr (found', out', primary')"
  shows "\<exists>xs. out' = out @ xs \<and> map slot_Name xs = map slot_Name sls \<and> map slot_Version xs = map slot_Version sls
    \<and> (primary' = (if st = ''active'' \<and> n \<in> set (map slot_Name sls) then n else primary))
    \<and> (found' \<longleftrightarrow> found \<or> n \<in> set (map slot_Name sls))"
  using assms
proof (induction sls arbitrary: found out primary)
  case (Cons sl sls)
  have step: "\<exists>xs. out' = out @ xs \<and> map slot_Name xs = map slot_Name (sl # sls)
      \<and> map slot_Version xs = map slot_Version (sl # sls)
      \<and> (primary' = (if st = ''active'' \<and> n \<in> set (map slot_Name sls) then n else p1))
      \<and> (found' \<longleftrightarrow> f1 \<or> n \<in> set (map slot_Name sls))"
    if "mark_loop st n sls (f1, out @ [sl1], p1) = Inr (found', out', primary')"
      "slot_Name sl1 = slot_Name sl" "slot_Version sl1 = slot_Version sl" for f1 sl1 p1
    using Cons.IH [OF that(1)] that(2,3) by (auto intro!: exI [of _ "sl1 # xs" for xs])
  show ?case
  proof (cases "slot_Name sl = n")
    case True
    then consider "st = ''good''" | "st = ''bad''" | "st = ''active''"
      using Cons.prems by (auto split: if_splits)
    then show ?thesis
      using Cons.prems True step [of True _ primary] step [of True _ n] by cases fastforce+
  next
    case False
    with Cons.prems step [of found sl primary] show ?thesis by auto
  qed
qed auto

lemma VersionOf_cong:
  assumes "map slot_Name xs = map slot_Name ys" "map slot_Version xs = map slot_Version ys"
  shows "VersionOf (v\<lparr>ds_Slots := xs, ds_Primary := q\<rparr>) = VersionOf (v\<lparr>ds_Slots := ys\<rparr>)"
proof
  fix m
  have "(case find (\<lambda>sl. slot_Name sl = m) xs of None \<Rightarrow> [] | Some sl \<Rightarrow> slot_Version sl)
      = (case find (\<lambda>sl. slot_Name sl = m) ys of None \<Rightarrow> [] | Some sl \<Rightarrow> slot_Version sl)"
    using assms
  proof (induction xs arbitrary: ys)
    case (Cons x xs)
    then show ?case by (cases ys) auto
  qed simp
  then show "VersionOf (v\<lparr>ds_Slots := xs, ds_Primary := q\<rparr>) m = VersionOf (v\<lparr>ds_Slots := ys\<rparr>) m"
    by (simp add: VersionOf_def)
qed

lemma sim_Install_law:
  assumes "sim_Install L f p r b = (None, b')"
  shows "\<exists>v v'. sim_stat b = Some v \<and> sim_stat b' = Some v' \<and> installed v r v' \<and> sim_FailBoot b' = sim_FailBoot b"
proof -
  let ?g = "\<lambda>sl. sl\<lparr>slot_Version := rel_Version r, slot_Good := False\<rparr>"
  obtain v t where v: "sim_file b = Inr v" "Other v = Inr t"
    "sim_write ((set_slot t ?g v)\<lparr>ds_Primary := t\<rparr>) b = (None, b')"
    using assms by (auto simp: sim_Install_def split: option.splits if_splits sum.splits)
  let ?v = "(set_slot t ?g v)\<lparr>ds_Primary := t\<rparr>"
  have eq: "VersionOf ?v m = VersionOf (set_slot t ?g v) m" for m by (simp add: VersionOf_def)
  from v(2) have t: "t \<noteq> ds_Booted v" "\<exists>sl \<in> set (ds_Slots v). slot_Name sl = t"
    by (auto simp: Other_iff doubleton_eq_iff)
  have "VersionOf ?v t = rel_Version r" unfolding eq by (rule VersionOf_set_slot [OF t(2)]) auto
  moreover have "VersionOf ?v (ds_Booted v) = VersionOf v (ds_Booted v)"
    unfolding eq using t(1) by (intro VersionOf_set_slot_other) auto
  ultimately have "installed v r ?v" using v(2) by (simp add: installed_def set_slot_def)
  with v(1) sim_write_ok [OF v(3)] show ?thesis by (simp add: sim_stat_def)
qed

lemma sim_Mark_law:
  assumes "sim_Mark st n b = (None, b')"
  shows "\<exists>v v'. sim_stat b = Some v \<and> sim_stat b' = Some v' \<and> sim_FailBoot b' = sim_FailBoot b
        \<and> ds_Booted v' = ds_Booted v \<and> ds_BootID v' = ds_BootID v
        \<and> VersionOf v' = VersionOf v \<and> ds_Primary v' = (if st = ''active'' then n else ds_Primary v)"
proof -
  obtain v sls q where v: "sim_file b = Inr v"
    "mark_loop st n (ds_Slots v) (False, [], ds_Primary v) = Inr (True, sls, q)"
    "sim_write (v\<lparr>ds_Slots := sls, ds_Primary := q\<rparr>) b = (None, b')"
    using assms by (auto simp: sim_Mark_def split: sum.splits if_splits prod.splits)
  note out = mark_loop_out [OF v(2)]
  have "VersionOf (v\<lparr>ds_Slots := sls, ds_Primary := q\<rparr>) = VersionOf v"
    using VersionOf_cong [where xs = sls and ys = "ds_Slots v" and v = v and q = q] out by simp
  moreover have "q = (if st = ''active'' then n else ds_Primary v)" using out by auto
  ultimately show ?thesis using v(1) sim_write_ok [OF v(3)] by (simp add: sim_stat_def)
qed

lemma sim_Reboot_law:
  assumes "sim_Reboot b = (None, b')"
  shows "\<exists>v v'. sim_stat b = Some v \<and> sim_stat b' = Some v' \<and> rebooted (\<not> sim_FailBoot b) v v'"
  using assms
  by (auto simp: sim_Reboot_def sim_stat_def rebooted_def Let_def split: sum.splits if_splits dest!: sim_write_ok)

interpretation sim: ab_device sim_stat "sim_Install L" sim_Mark sim_Reboot "\<lambda>s. \<not> sim_FailBoot s" for L
  using sim_Install_law sim_Mark_law sim_Reboot_law by unfold_locales fastforce+

section \<open>Properties\<close>

text \<open>
  The simulator's update cycle: once \<open>Install\<close> and then \<open>Reboot\<close> succeed, the device has a
  new boot ID, the other slot holds the release's version, the old slot keeps its own, and the
  device runs the new slot, or the old one when booting the new slot fails.
\<close>

theorem simulator_update_cycle:
  assumes "sim_Install L f p r s = (None, s1)" "sim_Reboot s1 = (None, s2)" "sim_file s = Inr v"
  shows "\<exists>v2 t. sim_file s2 = Inr v2 \<and> Other v = Inr t \<and> ds_BootID v2 \<noteq> ds_BootID v
    \<and> VersionOf v2 t = rel_Version r \<and> VersionOf v2 (ds_Booted v) = VersionOf v (ds_Booted v)
    \<and> ds_Booted v2 = (if sim_FailBoot s then ds_Booted v else t)"
  using sim.install_then_reboot [OF assms(1,2), of v] assms(3)
  by (auto simp: sim_stat_def split: sum.splits)

definition sample_sim :: simulator where
  "sample_sim = \<lparr>sim_file = Inr (sim_factory ''board''), sim_compatible = ''board'', sim_FailInstall = False,
     sim_FailBoot = False, sim_ctx = None, sim_env = (\<lambda>_. Stored), sim_writes = 0\<rparr>"

definition sample_cached_fs :: fs where
  "sample_cached_fs = \<lparr>fs_nodes = [([''s''], Directory), ([''s'', ''cache''], Directory),
       ([''s'', ''cache'', sample_digest @ ''.raucb''], RegFile ''new'')],
     fs_fault = (\<lambda>_. None), fs_partial = (\<lambda>_. 0), fs_bavail = (\<lambda>_. 100), fs_bsize = 1\<rparr>"

theorem simulator_update_cycle_witness:
  "\<exists>s1 s2 v2. sim_Install sample_lib sample_cached_fs [''s'', ''cache'', sample_digest @ ''.raucb'']
       sample_release1 sample_sim = (None, s1) \<and> sim_Reboot s1 = (None, s2)
     \<and> sim_file s2 = Inr v2 \<and> ds_Booted v2 = ''rootfs.1'' \<and> VersionOf v2 ''rootfs.1'' = ''v1''"
proof -
  let ?i = "sim_Install sample_lib sample_cached_fs [''s'', ''cache'', sample_digest @ ''.raucb'']
       sample_release1 sample_sim"
  have "fst ?i = None" "fst (sim_Reboot (snd ?i)) = None" by code_simp+
  then obtain s1 s2 where s: "?i = (None, s1)" "sim_Reboot s1 = (None, s2)" by (metis prod.collapse)
  have "Other (sim_factory ''board'') = Inr ''rootfs.1''" by code_simp
  moreover have "sim_file sample_sim = Inr (sim_factory ''board'')" by (simp add: sample_sim_def)
  moreover have "\<not> sim_FailBoot sample_sim" "rel_Version sample_release1 = ''v1''"
    by (simp_all add: sample_sim_def sample_release1_def)
  ultimately show ?thesis
    using simulator_update_cycle [OF s] s by fastforce
qed

end
