(* ===== verification/OTA_Observe.thy ===== *)
theory OTA_Observe
  imports OTA_Lib OTA_Files
begin

text \<open>
  Process-local statistics (\<open>internal/ota/metrics.go\<close>) and trace spans (\<open>internal/ota/trace.go\<close>).
  Durations are kept exactly, in nanoseconds, where the source keeps float seconds. Randomness is an
  argument: for each draw the bytes \<open>rand.Read\<close> delivers, or its error. The span queue holds 32
  spans and drops the rest.
\<close>

section \<open>Statistics\<close>

record Stats =
  sx_stateNanos :: "(string \<times> duration) list"
  sx_stateEntered :: time
  sx_currentState :: string
  sx_downloadBytes :: int
  sx_downloadNanos :: int
  sx_downloadResumes :: int
  sx_healthFailures :: "(string \<times> int) list"
  sx_commits :: int
  sx_rollbacks :: int
  sx_recoveries :: int
  sx_fleetSyncOK :: int
  sx_fleetSyncFail :: int
  sx_fleetSyncNanos :: int
  sx_lastSuccess :: time
  sx_slot :: string
  sx_release :: string

definition zero_Stats :: Stats where
  "zero_Stats = \<lparr>sx_stateNanos = [], sx_stateEntered = 0, sx_currentState = [], sx_downloadBytes = 0,
     sx_downloadNanos = 0, sx_downloadResumes = 0, sx_healthFailures = [], sx_commits = 0, sx_rollbacks = 0,
     sx_recoveries = 0, sx_fleetSyncOK = 0, sx_fleetSyncFail = 0, sx_fleetSyncNanos = 0, sx_lastSuccess = 0,
     sx_slot = [], sx_release = []\<rparr>"

definition bump :: "string \<Rightarrow> int \<Rightarrow> (string \<times> int) list \<Rightarrow> (string \<times> int) list" where
  "bump k n m = AList.update k ((case map_of m k of None \<Rightarrow> 0 | Some v \<Rightarrow> v) + n) m"

definition observeState :: "time \<Rightarrow> JobState \<Rightarrow> Stats \<Rightarrow> Stats" where
  "observeState now nxt s =
     (let s1 = (if sx_stateEntered s \<noteq> 0 \<and> sx_currentState s \<noteq> [] then
                  s\<lparr>sx_stateNanos := bump (sx_currentState s) (time_sub now (sx_stateEntered s)) (sx_stateNanos s)\<rparr>
                else s);
          s2 = s1\<lparr>sx_currentState := state_text nxt, sx_stateEntered := now\<rparr>
      in if nxt = Committed then s2\<lparr>sx_commits := sx_commits s2 + 1, sx_lastSuccess := now\<rparr>
         else if nxt = RolledBack then s2\<lparr>sx_rollbacks := sx_rollbacks s2 + 1\<rparr>
         else if nxt = NeedsRecovery then s2\<lparr>sx_recoveries := sx_recoveries s2 + 1\<rparr>
         else s2)"

definition addDownload :: "int \<Rightarrow> bool \<Rightarrow> duration \<Rightarrow> Stats \<Rightarrow> Stats" where
  "addDownload n resumed elapsed s =
     s\<lparr>sx_downloadBytes := sx_downloadBytes s + n, sx_downloadNanos := sx_downloadNanos s + elapsed,
       sx_downloadResumes := sx_downloadResumes s + (if resumed then 1 else 0)\<rparr>"

definition healthFailure :: "string \<Rightarrow> Stats \<Rightarrow> Stats" where
  "healthFailure n s = s\<lparr>sx_healthFailures := bump n 1 (sx_healthFailures s)\<rparr>"

definition fleetSync :: "bool \<Rightarrow> duration \<Rightarrow> Stats \<Rightarrow> Stats" where
  "fleetSync ok elapsed s =
     (let s1 = s\<lparr>sx_fleetSyncNanos := sx_fleetSyncNanos s + elapsed\<rparr>
      in if ok then s1\<lparr>sx_fleetSyncOK := sx_fleetSyncOK s1 + 1\<rparr>
         else s1\<lparr>sx_fleetSyncFail := sx_fleetSyncFail s1 + 1\<rparr>)"

definition setSlot :: "string \<Rightarrow> string \<Rightarrow> Stats \<Rightarrow> Stats" where
  "setSlot slot release s = s\<lparr>sx_slot := slot, sx_release := release\<rparr>"

text \<open>Bytes of regular files below the cache directory (links and directories are not counted).\<close>

definition cacheBytes :: "string \<Rightarrow> fs \<Rightarrow> int" where
  "cacheBytes dir f =
     (let base = Join (abs_path dir) ''cache'' in
      sum_list (map (\<lambda>(p, n). case n of RegFile b \<Rightarrow> if take (length base) p = base then int (length b) else 0
                              | _ \<Rightarrow> 0) (fs_nodes f)))"

section \<open>Spans\<close>

record Span =
  sp_TraceID :: string
  sp_SpanID :: string
  sp_ParentID :: string
  sp_Name :: string
  sp_Start :: time
  sp_End :: time
  sp_Attrs :: "(string \<times> string) list"
  sp_Error :: bool

text \<open>The random source: \<open>rng d n\<close> is the outcome of the \<open>d\<close>-th draw, of \<open>n\<close> bytes.\<close>

type_synonym rng = "nat \<Rightarrow> nat \<Rightarrow> bytes result"

definition hexdigit :: "nat \<Rightarrow> char" where
  "hexdigit n = ''0123456789abcdef'' ! (n mod 16)"

definition EncodeToString :: "bytes \<Rightarrow> string" where
  "EncodeToString b = concat (map (\<lambda>c. [hexdigit (of_char c div 16), hexdigit (of_char c)]) b)"

definition randomHex :: "rng \<Rightarrow> nat \<Rightarrow> nat \<Rightarrow> string result \<times> nat" where
  "randomHex R n d = (case R d n of Inl e \<Rightarrow> (Inl e, Suc d) | Inr b \<Rightarrow> (Inr (EncodeToString b), Suc d))"

definition span_of :: "Config \<Rightarrow> Job \<Rightarrow> string \<Rightarrow> time \<Rightarrow> string \<Rightarrow> Span" where
  "span_of c j parent start message = \<lparr>sp_TraceID = job_TraceID j, sp_SpanID = job_SpanID j, sp_ParentID = parent,
     sp_Name = ''ota.'' @ state_text (job_State j), sp_Start = start, sp_End = job_Updated j,
     sp_Attrs = [(''job_id'', asg_JobID (job_Assignment j)), (''release_id'', rel_ID (job_Release j)),
        (''device_id'', cfg_DeviceID c), (''campaign_id'', asg_CampaignID (job_Assignment j)),
        (''state'', state_text (job_State j))] @ (if message \<noteq> [] then [(''error'', message)] else []),
     sp_Error = (job_State j = Failed \<or> job_State j = NeedsRecovery)\<rparr>"

definition nextSpan ::
  "Config \<Rightarrow> rng \<Rightarrow> nat \<Rightarrow> Job \<Rightarrow> time \<Rightarrow> string \<Rightarrow> (Span \<times> Job) result \<times> nat" where
  "nextSpan c R d j prev message =
     (let tr = (if job_TraceID j = [] then randomHex R 16 d else (Inr (job_TraceID j), d)) in
      case tr of
        (Inl e, d1) \<Rightarrow> (Inl e, d1)
      | (Inr trace, d1) \<Rightarrow> (case randomHex R 8 d1 of
          (Inl e, d2) \<Rightarrow> (Inl e, d2)
        | (Inr i, d2) \<Rightarrow>
            (let parent = job_SpanID j;
                 j1 = j\<lparr>job_TraceID := trace, job_SpanID := i\<rparr>;
                 start = (if prev = 0 \<or> prev > job_Updated j1 then job_Updated j1 else prev)
             in (Inr (span_of c j1 parent start message, j1), d2))))"

definition hex_or_empty :: "string result \<Rightarrow> string" where
  "hex_or_empty r = (case r of Inl e \<Rightarrow> [] | Inr s \<Rightarrow> s)"

definition fleetSpan :: "rng \<Rightarrow> nat \<Rightarrow> string \<Rightarrow> time \<Rightarrow> time \<Rightarrow> error option \<Rightarrow> Span \<times> nat" where
  "fleetSpan R d deviceID start end' eo =
     (let (trace, d1) = randomHex R 16 d; (span, d2) = randomHex R 8 d1 in
      (\<lparr>sp_TraceID = hex_or_empty trace, sp_SpanID = hex_or_empty span, sp_ParentID = [],
        sp_Name = ''ota.fleet_sync'', sp_Start = start, sp_End = end',
        sp_Attrs = (case eo of None \<Rightarrow> [(''device_id'', deviceID), (''result'', ''ok'')]
          | Some e \<Rightarrow> [(''device_id'', deviceID), (''result'', ''error''), (''error'', err_text e)]),
        sp_Error = (eo \<noteq> None)\<rparr>, d2))"

text \<open>The exporter's queue: a channel of capacity 32; a span that does not fit is dropped.\<close>

definition Export :: "Span \<Rightarrow> Span list \<Rightarrow> Span list" where
  "Export s q = (if length q < 32 then q @ [s] else q)"

fun trim_right_slash :: "string \<Rightarrow> string" where
  "trim_right_slash [] = []"
| "trim_right_slash (c # cs) =
     (let r = trim_right_slash cs in if r = [] \<and> c = CHR ''/'' then [] else c # r)"

definition ends_with :: "string \<Rightarrow> string \<Rightarrow> bool" where
  "ends_with suf s \<longleftrightarrow> length suf \<le> length s \<and> drop (length s - length suf) s = suf"

definition tracesURL :: "string \<Rightarrow> string" where
  "tracesURL endpoint =
     (let base = trim_right_slash endpoint
      in if ends_with ''/v1/traces'' base then base else base @ ''/v1/traces'')"

definition otlpAttrs :: "(string \<times> string) list \<Rightarrow> (string \<times> string) list" where
  "otlpAttrs attrs = filter (\<lambda>(k, v). v \<noteq> []) attrs"

section \<open>Facts\<close>

lemma nextSpan_job:
  assumes "nextSpan c R d j prev message = (Inr (sp, j1), d1)"
  shows "\<exists>tr i. j1 = j\<lparr>job_TraceID := tr, job_SpanID := i\<rparr> \<and> (job_TraceID j \<noteq> [] \<longrightarrow> tr = job_TraceID j)
    \<and> sp_SpanID sp = i \<and> sp_TraceID sp = tr \<and> sp_ParentID sp = job_SpanID j \<and> sp_Start sp \<le> sp_End sp"
proof -
  define tr where "tr = (if job_TraceID j = [] then randomHex R 16 d else (Inr (job_TraceID j), d))"
  from assms obtain x d2 i where x: "tr = (Inr x, d2)" "randomHex R 8 d2 = (Inr i, d1)"
    "j1 = j\<lparr>job_TraceID := x, job_SpanID := i\<rparr>"
    "sp = span_of c j1 (job_SpanID j) (if prev = 0 \<or> prev > job_Updated j1 then job_Updated j1 else prev) message"
    unfolding nextSpan_def tr_def [symmetric] Let_def by (auto split: sum.splits prod.splits)
  moreover have "job_TraceID j \<noteq> [] \<longrightarrow> x = job_TraceID j" using x(1) by (auto simp: tr_def)
  ultimately show ?thesis by (intro exI [of _ x] exI [of _ i]) (simp add: span_of_def)
qed

lemma trim_right_slash_idem: "trim_right_slash (trim_right_slash s) = trim_right_slash s"
  by (induction s) (auto simp: Let_def)

end
