(* ===== verification/OTA_Engine.thy ===== *)
theory OTA_Engine
  imports OTA_Download OTA_Backend OTA_Observe "HOL-Library.List_Lexorder" "HOL-Library.Char_ord"
begin

text \<open>
  The update engine (\<open>internal/ota/engine.go\<close>, \<open>internal/ota/boot.go\<close>): accepting an assignment,
  advancing the active job one step, reboots, operator recovery, acknowledging events, cache
  cleanup and the confirmation of normal boots.

  \<open>agent\<close> holds what never changes while the process runs; \<open>engine\<close> holds the journal, the file
  system, the device, the process-local values and what the outside world currently answers. \<open>Now\<close>
  reads a clock: \<open>en_clock\<close> gives the readings in order, so consecutive readings may differ (and
  need not increase). The mutex makes handlers atomic; a handler that uses \<open>TryLock\<close> takes the
  outcome as an argument \<open>busy\<close>. Log lines are not modelled.
\<close>

record 'b agent =
  ag_lib :: lib
  ag_cfg :: Config
  ag_backend :: "'b backend"
  ag_Health :: "probes \<Rightarrow> fs \<Rightarrow> error option"
  ag_minute :: "time \<Rightarrow> int"
  ag_measured :: "error option option"
  ag_spans :: bool

record 'b engine =
  en_store :: store
  en_fs :: fs
  en_dev :: 'b
  en_net :: net
  en_probes :: probes
  en_healthySince :: time
  en_stats :: Stats
  en_clock :: "nat \<Rightarrow> time"
  en_tick :: nat
  en_elapsed :: duration
  en_rng :: rng
  en_draws :: nat
  en_queue :: "Span list"

text \<open>
  A new engine checks health by the configured checks, has no exporter of spans and no measured-boot check. Random numbers and the minute of
  the day come with the library.
\<close>

definition NewEngine :: "lib \<Rightarrow> (time \<Rightarrow> int) \<Rightarrow> Config \<Rightarrow> 'b backend \<Rightarrow> 'b agent" where
  "NewEngine L minute c b = \<lparr>ag_lib = L, ag_cfg = c, ag_backend = b, ag_Health = (\<lambda>P f. LocalHealth P f (cfg_Checks c)),
     ag_minute = minute, ag_measured = None, ag_spans = False\<rparr>"

lemma NewEngine_simps [simp]:
  "ag_lib (NewEngine L m c b) = L" "ag_cfg (NewEngine L m c b) = c" "ag_backend (NewEngine L m c b) = b"
  "ag_Health (NewEngine L m c b) P f = LocalHealth P f (cfg_Checks c)" "ag_minute (NewEngine L m c b) = m"
  "ag_measured (NewEngine L m c b) = None" "\<not> ag_spans (NewEngine L m c b)"
  by (simp_all add: NewEngine_def)

type_synonym 'b handler = "'b engine \<Rightarrow> error option \<times> 'b engine"

definition Now :: "'b engine \<Rightarrow> time \<times> 'b engine" where
  "Now en = (en_clock en (en_tick en), en\<lparr>en_tick := Suc (en_tick en)\<rparr>)"

definition Status :: "'b agent \<Rightarrow> 'b engine \<Rightarrow> DeviceStatus result \<times> 'b engine" where
  "Status A en = (case be_Status (ag_backend A) (en_dev en) of (r, d) \<Rightarrow> (r, en\<lparr>en_dev := d\<rparr>))"

definition Mark :: "'b agent \<Rightarrow> string \<Rightarrow> string \<Rightarrow> 'b handler" where
  "Mark A st n en = (case be_Mark (ag_backend A) st n (en_dev en) of (r, d) \<Rightarrow> (r, en\<lparr>en_dev := d\<rparr>))"

definition Reboot :: "'b agent \<Rightarrow> 'b handler" where
  "Reboot A en = (case be_Reboot (ag_backend A) (en_dev en) of (r, d) \<Rightarrow> (r, en\<lparr>en_dev := d\<rparr>))"

definition Install :: "'b agent \<Rightarrow> path \<Rightarrow> Release \<Rightarrow> 'b handler" where
  "Install A p r en =
     (case be_Install (ag_backend A) (en_fs en) p r (en_dev en) of (eo, d) \<Rightarrow> (eo, en\<lparr>en_dev := d\<rparr>))"

definition sdir :: "'b agent \<Rightarrow> string" where
  "sdir A = cfg_StateDir (ag_cfg A)"

section \<open>Recording a transition\<close>

definition addEvent :: "Database \<Rightarrow> Job \<Rightarrow> time \<Rightarrow> Database result" where
  "addEvent d j now =
     (if length (db_Events d) \<ge> 10000 then Inl (Err ''event outbox full; update paused'')
      else let n = db_EventSequence d + 1 in
        Inr (d\<lparr>db_EventSequence := n,
               db_Events := db_Events d @ [\<lparr>ev_Sequence = n, ev_JobID = asg_JobID (job_Assignment j),
                 ev_State = job_State j, ev_Error = job_Error j, ev_Time = now\<rparr>]\<rparr>))"

definition save_fn :: "Job \<Rightarrow> JobState \<Rightarrow> Database \<Rightarrow> Database result" where
  "save_fn j state d =
     (let d1 = d\<lparr>db_Jobs := AList.update (asg_JobID (job_Assignment j)) j (db_Jobs d)\<rparr>;
          d2 = (if Terminal state then d1\<lparr>db_Active := []\<rparr> else d1)
      in addEvent d2 j (job_Updated j))"

definition settle_payloads :: "'b agent \<Rightarrow> Job \<Rightarrow> JobState \<Rightarrow> fs \<Rightarrow> fs" where
  "settle_payloads A j state f =
     (let f1 = (if state = Committed then commitSidePayloads (sdir A) (job_Release j) f else f)
      in if (state = RolledBack \<or> state = Failed) \<and> job_PayloadsApplied j
         then snd (rollbackSidePayloads (sdir A) (job_Release j) f1) else f1)"

definition with_trace :: "store \<Rightarrow> Job \<Rightarrow> Job" where
  "with_trace s j = (case map_of (db_Jobs (View s)) (asg_JobID (job_Assignment j)) of
      Some pj \<Rightarrow> j\<lparr>job_TraceID := job_TraceID pj, job_SpanID := job_SpanID pj\<rparr> | None \<Rightarrow> j)"

definition save :: "'b agent \<Rightarrow> Job \<Rightarrow> JobState \<Rightarrow> string \<Rightarrow> 'b handler" where
  "save A j state message en =
     (case Now en of (now, en1) \<Rightarrow>
        (let j1 = j\<lparr>job_State := state, job_Error := message, job_Updated := now\<rparr>;
             en2 = en1\<lparr>en_fs := settle_payloads A j state (en_fs en1),
                       en_stats := observeState now state (en_stats en1)\<rparr>
         in case nextSpan (ag_cfg A) (en_rng en2) (en_draws en2) (with_trace (en_store en2) j1) (job_Updated j) message of
              (Inl e, d) \<Rightarrow> (Some e, en2\<lparr>en_draws := d\<rparr>)
            | (Inr (span, j2), d) \<Rightarrow> (case update (ag_lib A) (save_fn j2 state) (en_store en2) of
                (Some e, s) \<Rightarrow> (Some e, en2\<lparr>en_draws := d, en_store := s\<rparr>)
              | (None, s) \<Rightarrow> (None, en2\<lparr>en_draws := d, en_store := s,
                  en_queue := if ag_spans A then Export span (en_queue en2) else en_queue en2\<rparr>))))"

section \<open>Accepting an assignment\<close>

definition gateMeasuredBoot :: "'b agent \<Rightarrow> Release \<Rightarrow> error option" where
  "gateMeasuredBoot A r =
     (if \<not> rel_RequiresMeasuredBoot r then None
      else case ag_measured A of
        None \<Rightarrow> Some (Err ''measured boot quote path is not available'')
      | Some eo \<Rightarrow> eo)"

definition new_job :: "lib \<Rightarrow> Assignment \<Rightarrow> Release \<Rightarrow> time \<Rightarrow> Job" where
  "new_job L a r now = \<lparr>job_Assignment = a, job_Release = r, job_Fingerprint = Fingerprint L a,
     job_State = Accepted, job_Error = [], job_OldSlot = [], job_OldVersion = [], job_TargetSlot = [],
     job_BootID = [], job_HealthStarted = 0, job_RebootRequested = False, job_Deferred = False,
     job_DownloadAfter = 0, job_PayloadsApplied = False, job_TraceID = [], job_SpanID = [], job_Updated = now\<rparr>"

definition submit_fn ::
  "'b agent \<Rightarrow> Job \<Rightarrow> supplyDecision \<Rightarrow> time \<Rightarrow> Database \<Rightarrow> fs \<Rightarrow> Database result \<times> fs" where
  "submit_fn A j supply now d f =
     (let r = job_Release j; i = asg_JobID (job_Assignment j) in
      if db_Active d \<noteq> [] then (Inl (Err ''another update is active''), f)
      else if length (db_Events d) > hotEventLimit
      then (Inl (Err ''journal capacity reached; export/ack events or reprovision journal under documented procedure''), f)
      else if rel_Sequence r \<le> db_HighSequence d
      then (Inl (Err ''replayed or downgraded release sequence''), f)
      else case applySupplyChain (ag_lib A) (sdir A) supply (rel_ID r) d f of
        (Inl e, f1) \<Rightarrow> (Inl e, f1)
      | (Inr d1, f1) \<Rightarrow>
          (addEvent (d1\<lparr>db_HighSequence := rel_Sequence r, db_Active := i,
             db_Jobs := AList.update i j (db_Jobs d1)\<rparr>) j now, f1))"

text \<open>The checks before the journal is touched: the job to insert and the supply-chain decision.\<close>

definition vet_assignment ::
  "'b agent \<Rightarrow> Assignment \<Rightarrow> time \<Rightarrow> 'b engine \<Rightarrow> (Job \<times> supplyDecision) result" where
  "vet_assignment A a now en =
     (case VerifyEnvelope (ag_lib A) (asg_Release a) (ag_cfg A) now of
        Inl e \<Rightarrow> Inl e
      | Inr r \<Rightarrow> (case gateMeasuredBoot A r of
          Some e \<Rightarrow> Inl e
        | None \<Rightarrow> (case evaluateSupplyChain (ag_lib A) (en_fs en) (ag_cfg A) (View (en_store en))
              (env_Payload (asg_Release a)) (env_KeyID (asg_Release a)) r now of
            Inl e \<Rightarrow> Inl e
          | Inr supply \<Rightarrow>
              if \<not> asg_Deadline a > now \<or> \<not> asg_Deadline a > asg_NotBefore a \<or> asg_Deadline a > rel_Expires r
              then Inl (Err ''invalid assignment window'')
              else Inr (new_job (ag_lib A) a r now, supply))))"

definition Submit :: "'b agent \<Rightarrow> bool \<Rightarrow> Assignment \<Rightarrow> 'b engine \<Rightarrow> Job result \<times> 'b engine" where
  "Submit A busy a en =
     (if busy then (Inl (Err ''update engine busy; retry''), en)
      else if \<not> is_identifier (asg_JobID a) \<or> asg_DeviceID a \<noteq> cfg_DeviceID (ag_cfg A)
      then (Inl (Err ''invalid job/device''), en)
      else case map_of (db_Jobs (View (en_store en))) (asg_JobID a) of
        Some j \<Rightarrow> if job_Fingerprint j = Fingerprint (ag_lib A) a then (Inr j, en)
                  else (Inl (Err ''job ID reused with different assignment''), en)
      | None \<Rightarrow> (case Now en of (now, en1) \<Rightarrow>
          (case vet_assignment A a now en1 of
             Inl e \<Rightarrow> (Inl e, en1)
           | Inr (j, supply) \<Rightarrow>
               (case Update (ag_lib A) (submit_fn A j supply now) (en_fs en1) (en_store en1) of
                  (Some e, f, s) \<Rightarrow> (Inl e, en1\<lparr>en_fs := f, en_store := s\<rparr>)
                | (None, f, s) \<Rightarrow> (Inr j, en1\<lparr>en_fs := f, en_store := s\<rparr>)))))"

section \<open>Downloading\<close>

definition armDownload :: "'b agent \<Rightarrow> Job \<Rightarrow> 'b engine \<Rightarrow> Job result \<times> 'b engine" where
  "armDownload A j en =
     (if job_DownloadAfter j \<noteq> 0 \<or> DownloadJitter (ag_cfg A) = 0 then (Inr j, en)
      else case releaseArtifacts (job_Release j) of
        Inl e \<Rightarrow> (Inl e, en)
      | Inr arts \<Rightarrow> (case artifactsLocal (ag_lib A) (ag_cfg A) (en_fs en) arts of
          Inl e \<Rightarrow> (Inl e, en)
        | Inr True \<Rightarrow> (Inr j, en)
        | Inr False \<Rightarrow> (case Now en of (now, en1) \<Rightarrow>
            (Inr (j\<lparr>job_DownloadAfter := now + DownloadJitter (ag_cfg A)\<rparr>), en1))))"

definition noteDeferred :: "'b agent \<Rightarrow> Job \<Rightarrow> error \<Rightarrow> 'b handler" where
  "noteDeferred A j e en =
     (if job_Deferred j then (None, en) else save A (j\<lparr>job_Deferred := True\<rparr>) Downloading (err_text e) en)"

fun fetch_list :: "'b agent \<Rightarrow> Artifact list \<Rightarrow> int \<Rightarrow> bool \<Rightarrow> 'b engine \<Rightarrow> error option \<times> int \<times> bool \<times> 'b engine" where
  "fetch_list A [] acc resumed en = (None, acc, resumed, en)"
| "fetch_list A (a # as) acc resumed en =
     (case fetch (ag_lib A) (en_net en) (ag_cfg A) a (en_fs en) of
        (Inl e, n, r, f) \<Rightarrow> (Some e, acc + n, resumed \<or> r, en\<lparr>en_fs := f\<rparr>)
      | (Inr p, n, r, f) \<Rightarrow> fetch_list A as (acc + n) (resumed \<or> r) (en\<lparr>en_fs := f\<rparr>))"

definition fetchAll :: "'b agent \<Rightarrow> Job \<Rightarrow> 'b engine \<Rightarrow> error option \<times> int \<times> bool \<times> 'b engine" where
  "fetchAll A j en = (case releaseArtifacts (job_Release j) of
       Inl e \<Rightarrow> (Some e, 0, False, en)
     | Inr arts \<Rightarrow> fetch_list A arts 0 False en)"

definition step_accepted :: "'b agent \<Rightarrow> Job \<Rightarrow> 'b handler" where
  "step_accepted A j en = (case armDownload A j en of
      (Inl e, en1) \<Rightarrow> (Some e, en1)
    | (Inr armed, en1) \<Rightarrow> save A armed Downloading [] en1)"

definition step_fetch :: "'b agent \<Rightarrow> Job \<Rightarrow> 'b handler" where
  "step_fetch A j0 en =
     (let j = j0\<lparr>job_Deferred := False\<rparr> in
      case fetchAll A j en of (eo, n, resumed, en1) \<Rightarrow>
        (let en2 = en1\<lparr>en_stats := addDownload n resumed (en_elapsed en1) (en_stats en1)\<rparr> in
         case eo of
           Some e \<Rightarrow> if e = ErrDeferred then noteDeferred A j e en2 else (Some e, en2)
         | None \<Rightarrow> save A j Verified [] en2))"

definition step_downloading :: "'b agent \<Rightarrow> Job \<Rightarrow> time \<Rightarrow> 'b handler" where
  "step_downloading A j now en =
     (case releaseArtifacts (job_Release j) of Inl e \<Rightarrow> (Some e, en)
      | Inr arts \<Rightarrow> (case artifactsLocal (ag_lib A) (ag_cfg A) (en_fs en) arts of Inl e \<Rightarrow> (Some e, en)
        | Inr ready \<Rightarrow>
            if \<not> ready \<and> job_DownloadAfter j \<noteq> 0 \<and> now < job_DownloadAfter j
            then noteDeferred A j ErrJitter en
            else if ready then step_fetch A j en
            else (case DownloadAllowed (ag_minute A) (ag_cfg A) now of
                Some e \<Rightarrow> noteDeferred A j e en
              | None \<Rightarrow> step_fetch A j en)))"

section \<open>Installing\<close>

definition check_sbom_file :: "'b agent \<Rightarrow> Job \<Rightarrow> fs \<Rightarrow> error option" where
  "check_sbom_file A j f =
     (if rel_SBOMSHA256 (job_Release j) \<noteq> [] then
        (let p = cache_file (sdir A) (rel_SBOM (job_Release j)) in
         case CheckArtifact (ag_lib A) f p (rel_SBOM (job_Release j)) of
           Some e \<Rightarrow> Some e
         | None \<Rightarrow> verifySBOMSignature (ag_lib A) f p (job_Release j) (ag_cfg A))
      else if cfg_RequireSBOMSignature (ag_cfg A) \<or> rel_SBOMKeyID (job_Release j) \<noteq> []
        \<or> rel_SBOMSignature (job_Release j) \<noteq> []
      then Some (Err ''signed SBOM is required'')
      else None)"

text \<open>From the accepted device status to the installation and its evidence check.\<close>

definition install_and_check :: "'b agent \<Rightarrow> Job \<Rightarrow> path \<Rightarrow> 'b handler" where
  "install_and_check A j p en =
     (case save A j Installing [] en of
        (Some e, en1) \<Rightarrow> (Some e, en1)
      | (None, en1) \<Rightarrow> (case Install A p (job_Release j) en1 of
          (Some e, en2) \<Rightarrow>
            save A j NeedsRecovery (''installation outcome requires inspection: '' @ err_text e) en2
        | (None, en2) \<Rightarrow> (case Status A en2 of
            (Inl e, en3) \<Rightarrow> save A j NeedsRecovery ''unable to inspect installation result'' en3
          | (Inr s, en3) \<Rightarrow>
              if ds_Operation s \<noteq> ''idle'' \<or> ds_Booted s \<noteq> job_OldSlot j \<or> ds_Primary s \<noteq> job_TargetSlot j
                 \<or> VersionOf s (job_TargetSlot j) \<noteq> rel_Version (job_Release j)
              then save A j NeedsRecovery ''installed slot/version evidence mismatch'' en3
              else save A j AwaitingReboot [] en3)))"

definition step_install :: "'b agent \<Rightarrow> Job \<Rightarrow> 'b handler" where
  "step_install A j en =
     (case Status A en of
        (Inl e, en1) \<Rightarrow> (Some e, en1)
      | (Inr s, en1) \<Rightarrow>
          if ds_Operation s \<noteq> ''idle'' then (Some (Err ''backend busy''), en1)
          else if ds_Compatible s \<noteq> cfg_Compatible (ag_cfg A)
          then save A j Failed ''backend compatibility mismatch'' en1
          else case Other s of
            Inl e \<Rightarrow> save A j Failed (err_text e) en1
          | Inr target \<Rightarrow>
              if list_ex (\<lambda>sl. slot_Version sl = rel_Version (job_Release j)) (ds_Slots s)
              then save A j Failed ''release version already exists on device'' en1
              else let p = cache_file (sdir A) (rel_Artifact (job_Release j)) in
                case CheckArtifact (ag_lib A) (en_fs en1) p (rel_Artifact (job_Release j)) of
                  Some e \<Rightarrow> save A j Failed (err_text e) en1
                | None \<Rightarrow> (case Now en1 of (t1, en2) \<Rightarrow>
                    if \<not> t1 < asg_Deadline (job_Assignment j)
                    then save A j Failed ''installation window expired during verification'' en2
                    else (case Now en2 of (t2, en3) \<Rightarrow>
                      if \<not> t2 < rel_Expires (job_Release j)
                      then save A j Failed ''installation window expired during verification'' en3
                      else install_and_check A (j\<lparr>job_OldSlot := ds_Booted s,
                             job_OldVersion := VersionOf s (ds_Booted s), job_TargetSlot := target,
                             job_BootID := ds_BootID s\<rparr>) p en3)))"

definition step_verified :: "'b agent \<Rightarrow> Job \<Rightarrow> 'b handler" where
  "step_verified A j en =
     (case check_sbom_file A j (en_fs en) of
        Some e \<Rightarrow> save A j Failed (err_text e) en
      | None \<Rightarrow>
          if \<not> job_PayloadsApplied j \<and> rel_Targets (job_Release j) \<noteq> [] then
            (case applySidePayloads (ag_lib A) (en_probes en) (sdir A) (job_Release j) (cfg_Checks (ag_cfg A)) (en_fs en) of
               (Some e, f) \<Rightarrow> save A j Failed (err_text e) (en\<lparr>en_fs := f\<rparr>)
             | (None, f) \<Rightarrow>
                 (let j1 = j\<lparr>job_PayloadsApplied := True\<rparr>; en1 = en\<lparr>en_fs := f\<rparr>
                  in if \<not> HasOS (job_Release j) then save A j1 Committed [] en1 else step_install A j1 en1))
          else if \<not> HasOS (job_Release j) then save A j Committed [] en
          else step_install A j en)"

section \<open>Rebooting, checking health, committing, rolling back\<close>

definition reboot :: "'b agent \<Rightarrow> Job \<Rightarrow> 'b handler" where
  "reboot A j0 en =
     (let j = j0\<lparr>job_RebootRequested := True\<rparr> in
      case save A j AwaitingReboot [] en of
        (Some e, en1) \<Rightarrow> (Some e, en1)
      | (None, en1) \<Rightarrow> (case Reboot A en1 of
          (Some e, en2) \<Rightarrow>
            (Some e, snd (save A (j\<lparr>job_RebootRequested := False\<rparr>) AwaitingReboot ''reboot request failed'' en2))
        | (None, en2) \<Rightarrow> (None, en2)))"

definition step_awaiting :: "'b agent \<Rightarrow> Job \<Rightarrow> time \<Rightarrow> 'b handler" where
  "step_awaiting A j now en =
     (case Status A en of
        (Inl e, en1) \<Rightarrow> (Some e, en1)
      | (Inr s, en1) \<Rightarrow>
          if ds_BootID s = job_BootID j then
            (if ds_Booted s \<noteq> job_OldSlot j
             then save A j NeedsRecovery ''slot changed without a boot ID change'' en1
             else if \<not> job_RebootRequested j \<and> asg_AutoReboot (job_Assignment j)
               \<and> \<not> now < asg_NotBefore (job_Assignment j) \<and> now < asg_Deadline (job_Assignment j)
             then reboot A j en1
             else (None, en1))
          else if ds_Booted s = job_OldSlot j
          then save A j RolledBack ''bootloader returned to previous slot'' en1
          else if ds_Booted s \<noteq> job_TargetSlot j \<or> VersionOf s (job_TargetSlot j) \<noteq> rel_Version (job_Release j)
          then save A j NeedsRecovery ''unexpected booted slot/version'' en1
          else save A (j\<lparr>job_HealthStarted := now, job_BootID := ds_BootID s\<rparr>) CheckingHealth []
                 (en1\<lparr>en_healthySince := 0\<rparr>))"

definition Health :: "'b agent \<Rightarrow> 'b engine \<Rightarrow> error option" where
  "Health A en = ag_Health A (en_probes en) (en_fs en)"

definition failed_check :: "error \<Rightarrow> string" where
  "failed_check e = (case e of HealthError n _ \<Rightarrow> n | _ \<Rightarrow> ''health'')"

definition step_check :: "'b agent \<Rightarrow> Job \<Rightarrow> time \<Rightarrow> 'b handler" where
  "step_check A j now en =
     (if now < job_HealthStarted j
         \<or> \<not> now < job_HealthStarted j + seconds (cfg_HealthTimeoutSeconds (ag_cfg A))
      then save A j RollbackPending ''health verification deadline exceeded'' en
      else case Health A en of
        Some e \<Rightarrow> (None, en\<lparr>en_healthySince := 0, en_stats := healthFailure (failed_check e) (en_stats en)\<rparr>)
      | None \<Rightarrow>
          (let since = (if en_healthySince en = 0 then now else en_healthySince en);
               en1 = en\<lparr>en_healthySince := since\<rparr>
           in if time_sub now since < seconds (cfg_HealthStableSeconds (ag_cfg A)) then (None, en1)
              else save A j Committing [] en1))"

definition step_health :: "'b agent \<Rightarrow> Job \<Rightarrow> time \<Rightarrow> 'b handler" where
  "step_health A j now en =
     (case Status A en of
        (Inl e, en1) \<Rightarrow> (Some e, en1)
      | (Inr s, en1) \<Rightarrow>
          if ds_Booted s = job_OldSlot j
          then save A j RolledBack ''bootloader returned to previous slot during verification'' en1
          else if ds_Booted s \<noteq> job_TargetSlot j \<or> VersionOf s (job_TargetSlot j) \<noteq> rel_Version (job_Release j)
          then save A j NeedsRecovery ''health/commit slot mismatch'' en1
          else if ds_BootID s \<noteq> job_BootID j
          then save A (j\<lparr>job_BootID := ds_BootID s\<rparr>) CheckingHealth ''rechecking health after another boot''
                 (en1\<lparr>en_healthySince := 0\<rparr>)
          else if job_State j = Committing then
            (case Mark A ''good'' (job_TargetSlot j) en1 of
               (Some e, en2) \<Rightarrow> (Some e, en2)
             | (None, en2) \<Rightarrow> save A j Committed [] en2)
          else step_check A j now en1)"

definition step_rollback :: "'b agent \<Rightarrow> Job \<Rightarrow> 'b handler" where
  "step_rollback A j en =
     (case Status A en of
        (Inl e, en1) \<Rightarrow> (Some e, en1)
      | (Inr s, en1) \<Rightarrow>
          if ds_Operation s \<noteq> ''idle'' then (Some (Err ''backend busy during rollback''), en1)
          else if ds_Booted s = job_OldSlot j then save A j RolledBack (job_Error j) en1
          else if ds_Booted s \<noteq> job_TargetSlot j then save A j NeedsRecovery ''rollback slot mismatch'' en1
          else case Mark A ''bad'' (job_TargetSlot j) en1 of
            (Some e, en2) \<Rightarrow> (Some e, en2)
          | (None, en2) \<Rightarrow> (case Mark A ''active'' (job_OldSlot j) en2 of
              (Some e, en3) \<Rightarrow> (Some e, en3)
            | (None, en3) \<Rightarrow> Reboot A en3))"

section \<open>Confirming normal boots\<close>

fun latest_done :: "Job option \<Rightarrow> (string \<times> Job) list \<Rightarrow> Job option" where
  "latest_done acc [] = acc"
| "latest_done acc ((i, j) # js) =
     latest_done (if (job_State j = Committed \<or> job_State j = RolledBack)
        \<and> rel_Sequence (job_Release j) > (case acc of None \<Rightarrow> 0 | Some l \<Rightarrow> rel_Sequence (job_Release l))
      then Some j else acc) js"

definition known_slots :: "Job \<Rightarrow> (string \<times> string) list" where
  "known_slots j =
     (let k = [(job_OldSlot j, job_OldVersion j)]
      in if job_State j = Committed then AList.update (job_TargetSlot j) (rel_Version (job_Release j)) k else k)"

definition fall_back :: "'b agent \<Rightarrow> (string \<times> string) list \<Rightarrow> DeviceStatus \<Rightarrow> 'b handler" where
  "fall_back A known s en =
     (case Other s of Inl e \<Rightarrow> (Some e, en)
      | Inr other \<Rightarrow>
          if map_of known other \<noteq> Some (VersionOf s other) \<or> \<not> GoodOf s other
          then (Some (Err ''normal boot health failed and no known fallback exists; board recovery required''), en)
          else case Mark A ''bad'' (ds_Booted s) en of
            (Some e, en1) \<Rightarrow> (Some e, en1)
          | (None, en1) \<Rightarrow> (case Mark A ''active'' other en1 of
              (Some e, en2) \<Rightarrow> (Some e, en2)
            | (None, en2) \<Rightarrow> Reboot A en2))"

definition boot_update :: "'b agent \<Rightarrow> (BootCheck \<Rightarrow> BootCheck) \<Rightarrow> 'b handler" where
  "boot_update A g en =
     (case update (ag_lib A) (\<lambda>d. Inr (d\<lparr>db_BootCheck := g (db_BootCheck d)\<rparr>)) (en_store en) of
        (eo, s) \<Rightarrow> (eo, en\<lparr>en_store := s\<rparr>))"

definition confirm_boot :: "'b agent \<Rightarrow> Database \<Rightarrow> Job \<Rightarrow> DeviceStatus \<Rightarrow> 'b handler" where
  "confirm_boot A d latest s en0 =
     (let known = known_slots latest in
      if map_of known (ds_Booted s) \<noteq> Some (VersionOf s (ds_Booted s))
      then (Some (Err ''unrecognized normal boot; refusing mark-good''), en0)
      else case Now en0 of (now, en) \<Rightarrow>
        if bc_BootID (db_BootCheck d) \<noteq> ds_BootID s
        then boot_update A (\<lambda>_. \<lparr>bc_BootID = ds_BootID s, bc_Started = now, bc_Confirmed = False\<rparr>)
               (en\<lparr>en_healthySince := 0\<rparr>)
        else if now < bc_Started (db_BootCheck d)
          \<or> \<not> now < bc_Started (db_BootCheck d) + seconds (cfg_HealthTimeoutSeconds (ag_cfg A))
        then fall_back A known s en
        else case Health A en of
          Some e \<Rightarrow> (None, en\<lparr>en_healthySince := 0\<rparr>)
        | None \<Rightarrow>
            (let since = (if en_healthySince en = 0 then now else en_healthySince en);
                 en1 = en\<lparr>en_healthySince := since\<rparr>
             in if time_sub now since < seconds (cfg_HealthStableSeconds (ag_cfg A)) then (None, en1)
                else (case Mark A ''good'' (ds_Booted s) en1 of
                  (Some e, en2) \<Rightarrow> (Some e, en2)
                | (None, en2) \<Rightarrow> boot_update A (\<lambda>b. b\<lparr>bc_Confirmed := True\<rparr>) en2)))"

definition confirmNormalBoot :: "'b agent \<Rightarrow> 'b handler" where
  "confirmNormalBoot A en =
     (let d = View (en_store en) in
      if db_Jobs d = [] then (None, en)
      else case Status A en of
        (Inl e, en1) \<Rightarrow> (Some e, en1)
      | (Inr s, en1) \<Rightarrow>
          if ds_Operation s \<noteq> ''idle'' then (None, en1)
          else if bc_BootID (db_BootCheck d) = ds_BootID s \<and> bc_Confirmed (db_BootCheck d) then (None, en1)
          else case latest_done None (db_Jobs d) of
            None \<Rightarrow> (None, en1)
          | Some latest \<Rightarrow>
              if asg_JobID (job_Assignment latest) = [] then (None, en1)
              else confirm_boot A d latest s en1)"

section \<open>One step of the state machine\<close>

definition current :: "'b engine \<Rightarrow> Job option" where
  "current en = map_of (db_Jobs (View (en_store en))) (db_Active (View (en_store en)))"

definition before_install :: "JobState \<Rightarrow> bool" where
  "before_install st \<longleftrightarrow> st = Accepted \<or> st = Downloading \<or> st = Verified"

definition step_state :: "'b agent \<Rightarrow> Job \<Rightarrow> time \<Rightarrow> 'b handler" where
  "step_state A j now en =
     (case job_State j of
        Accepted \<Rightarrow> step_accepted A j en
      | Downloading \<Rightarrow> step_downloading A j now en
      | Verified \<Rightarrow> step_verified A j en
      | Installing \<Rightarrow> save A j NeedsRecovery
          ''agent restarted during installation; inspect RAUC and use recover-abort'' en
      | AwaitingReboot \<Rightarrow> step_awaiting A j now en
      | CheckingHealth \<Rightarrow> step_health A j now en
      | Committing \<Rightarrow> step_health A j now en
      | RollbackPending \<Rightarrow> step_rollback A j en
      | NeedsRecovery \<Rightarrow> (None, en)
      | st \<Rightarrow> (Some (Err (''unknown active state '' @ state_text st)), en))"

definition Step :: "'b agent \<Rightarrow> 'b handler" where
  "Step A en =
     (case current en of
        None \<Rightarrow> confirmNormalBoot A en
      | Some j \<Rightarrow> (case Now en of (now, en1) \<Rightarrow>
          if before_install (job_State j) then
            (if \<not> now < asg_Deadline (job_Assignment j)
             then save A j Failed ''assignment expired before installation'' en1
             else if now < asg_NotBefore (job_Assignment j) then (None, en1)
             else case VerifyEnvelope (ag_lib A) (asg_Release (job_Assignment j)) (ag_cfg A) now of
               Inl e \<Rightarrow> save A j Failed (err_text e) en1
             | Inr _ \<Rightarrow> step_state A j now en1)
          else step_state A j now en1))"

section \<open>Operator requests, acknowledgement, cleanup\<close>

definition RequestReboot :: "'b agent \<Rightarrow> bool \<Rightarrow> 'b handler" where
  "RequestReboot A busy en =
     (if busy then (Some (Err ''engine busy''), en)
      else case current en of
        None \<Rightarrow> (Some (Err ''no update awaiting reboot''), en)
      | Some j \<Rightarrow>
          if job_State j \<noteq> AwaitingReboot then (Some (Err ''no update awaiting reboot''), en)
          else case Now en of (now, en1) \<Rightarrow>
            if now < asg_NotBefore (job_Assignment j) \<or> \<not> now < asg_Deadline (job_Assignment j)
            then (Some (Err ''outside reboot window''), en1)
            else case Status A en1 of
              (Inl e, en2) \<Rightarrow> (Some e, en2)
            | (Inr s, en2) \<Rightarrow>
                if ds_BootID s \<noteq> job_BootID j \<or> ds_Booted s \<noteq> job_OldSlot j \<or> ds_Operation s \<noteq> ''idle''
                then (Some (Err ''device has already rebooted or backend is busy''), en2)
                else reboot A j en2)"

definition RecoverAbort :: "'b agent \<Rightarrow> bool \<Rightarrow> 'b handler" where
  "RecoverAbort A busy en =
     (if busy then (Some (Err ''engine busy''), en)
      else case current en of
        None \<Rightarrow> (Some (Err ''no job needs recovery''), en)
      | Some j \<Rightarrow>
          if job_State j \<noteq> NeedsRecovery then (Some (Err ''no job needs recovery''), en)
          else case Status A en of
            (Inl e, en1) \<Rightarrow> (Some e, en1)
          | (Inr s, en1) \<Rightarrow>
              if ds_Operation s \<noteq> ''idle'' \<or> ds_Booted s \<noteq> job_OldSlot j \<or> job_TargetSlot j = []
                 \<or> job_TargetSlot j = job_OldSlot j
              then (Some (Err ''recover-abort requires idle backend on original slot''), en1)
              else case Mark A ''bad'' (job_TargetSlot j) en1 of
                (Some e, en2) \<Rightarrow> (Some e, en2)
              | (None, en2) \<Rightarrow> (case Mark A ''active'' (job_OldSlot j) en2 of
                  (Some e, en3) \<Rightarrow> (Some e, en3)
                | (None, en3) \<Rightarrow>
                    save A j Failed ''operator aborted ambiguous installation; previous slot restored'' en3))"

definition ack_fn :: "u64 \<Rightarrow> Database \<Rightarrow> Database result" where
  "ack_fn n d =
     (if n > db_EventSequence d then Inl (Err ''ack exceeds latest event'')
      else Inr (d\<lparr>db_Events := dropWhile (\<lambda>e. ev_Sequence e \<le> n) (db_Events d)\<rparr>))"

definition Ack :: "'b agent \<Rightarrow> u64 \<Rightarrow> 'b handler" where
  "Ack A n en = (case update (ag_lib A) (ack_fn n) (en_store en) of (eo, s) \<Rightarrow> (eo, en\<lparr>en_store := s\<rparr>))"

definition ReadDir :: "fs \<Rightarrow> path \<Rightarrow> string list result" where
  "ReadDir f p = (case fault f (IoReadDir p) of Some e \<Rightarrow> Inl e
     | None \<Rightarrow> (case node_at f p of
         None \<Rightarrow> Inl ErrNotExist
       | Some Directory \<Rightarrow> Inr (sort (remdups (map last (filter (\<lambda>q. q \<noteq> [] \<and> butlast q = p) (keys (fs_nodes f))))))
       | Some _ \<Rightarrow> Inl (Err ''not a directory'')))"

fun remove_files :: "path \<Rightarrow> string list \<Rightarrow> fs \<Rightarrow> error option \<times> fs" where
  "remove_files p [] f = (None, f)"
| "remove_files p (n # ns) f =
     (if node_at f (p @ [n]) = Some Directory then remove_files p ns f
      else case os_Remove (p @ [n]) f of
        (Some e, f1) \<Rightarrow> (Some e, f1)
      | (None, f1) \<Rightarrow> remove_files p ns f1)"

definition GC :: "'b agent \<Rightarrow> bool \<Rightarrow> 'b handler" where
  "GC A busy en =
     (if busy then (Some (Err ''engine busy''), en)
      else if current en \<noteq> None then (Some (Err ''cache cleanup requires no active job''), en)
      else case ReadDir (en_fs en) (cache_dir (ag_cfg A)) of
        Inl e \<Rightarrow> if IsNotExist e then (None, en) else (Some e, en)
      | Inr names \<Rightarrow> (case remove_files (cache_dir (ag_cfg A)) names (en_fs en) of
          (eo, f) \<Rightarrow> (eo, en\<lparr>en_fs := f\<rparr>)))"

section \<open>Frames\<close>

lemma Now_frame [ota_frame]:
  "Now en = (t, en1) \<Longrightarrow> en_store en1 = en_store en \<and> en_fs en1 = en_fs en \<and> en_dev en1 = en_dev en
     \<and> en_probes en1 = en_probes en \<and> en_healthySince en1 = en_healthySince en"
  by (auto simp: Now_def)

lemma Status_frame [ota_frame]:
  "Status A en = (r, en1) \<Longrightarrow> en_store en1 = en_store en \<and> en_fs en1 = en_fs en
     \<and> en_probes en1 = en_probes en \<and> en_healthySince en1 = en_healthySince en"
  by (auto simp: Status_def split: prod.splits)

lemma Mark_frame [ota_frame]:
  "Mark A st n en = (r, en1) \<Longrightarrow> en_store en1 = en_store en \<and> en_fs en1 = en_fs en"
  by (auto simp: Mark_def split: prod.splits)

lemma Reboot_frame [ota_frame]:
  "Reboot A en = (r, en1) \<Longrightarrow> en_store en1 = en_store en \<and> en_fs en1 = en_fs en"
  by (auto simp: Reboot_def split: prod.splits)

lemma Install_frame [ota_frame]:
  "Install A p r en = (eo, en1) \<Longrightarrow> en_store en1 = en_store en \<and> en_fs en1 = en_fs en"
  by (auto simp: Install_def split: prod.splits)

lemma fetch_list_frame [ota_frame]:
  "fetch_list A as n r en = (eo, m, s, en1) \<Longrightarrow> en_store en1 = en_store en \<and> en_dev en1 = en_dev en"
  by (induction as arbitrary: n r en) (fastforce split: prod.splits sum.splits)+

lemma fetchAll_frame [ota_frame]:
  "fetchAll A j en = (eo, m, s, en1) \<Longrightarrow> en_store en1 = en_store en \<and> en_dev en1 = en_dev en"
  by (auto simp: fetchAll_def split: sum.splits dest: fetch_list_frame)

section \<open>What a transition records\<close>

abbreviation data_of :: "'b engine \<Rightarrow> Database" where
  "data_of en \<equiv> st_data (en_store en)"

abbreviation job_id :: "Job \<Rightarrow> string" where
  "job_id j \<equiv> asg_JobID (job_Assignment j)"

text \<open>The fields of a job that nothing after \<open>Submit\<close> changes.\<close>

definition same_job :: "Job \<Rightarrow> Job \<Rightarrow> bool" where
  "same_job j j' \<longleftrightarrow> job_Assignment j' = job_Assignment j \<and> job_Release j' = job_Release j
     \<and> job_Fingerprint j' = job_Fingerprint j"

lemma same_job_refl [simp]: "same_job j j" by (simp add: same_job_def)

lemma same_job_trans: "same_job a b \<Longrightarrow> same_job b c \<Longrightarrow> same_job a c" by (simp add: same_job_def)

lemma save_fn_keeps: "keeps_keys (pure_fn (save_fn j st))"
  by (auto simp: keeps_keys_def pure_fn_def save_fn_def addEvent_def Let_def split: if_splits)

lemma with_trace_same:
  "\<exists>tr i. with_trace s j = j\<lparr>job_TraceID := tr, job_SpanID := i\<rparr>"
proof (cases "map_of (db_Jobs (View s)) (job_id j)")
  case None
  then show ?thesis
    by (intro exI [of _ "job_TraceID j"] exI [of _ "job_SpanID j"]) (simp add: with_trace_def)
next
  case (Some pj)
  then show ?thesis
    by (intro exI [of _ "job_TraceID pj"] exI [of _ "job_SpanID pj"]) (simp add: with_trace_def)
qed

text \<open>
  \<open>save\<close> either leaves the journal in memory alone and returns an error, or writes the job with
  its new state through \<open>update\<close>. The store is unchanged or comes out of \<open>update\<close> in either case.
\<close>

lemma save_cases:
  assumes "save A j st msg en = (eo, en1)"
  obtains (untried) e where "eo = Some e" "en_store en1 = en_store en" "en_dev en1 = en_dev en"
  | (tried) j2 where "update (ag_lib A) (save_fn j2 st) (en_store en) = (eo, en_store en1)"
      "en_dev en1 = en_dev en"
      "\<exists>tr i now. j2 = j\<lparr>job_State := st, job_Error := msg, job_Updated := now, job_TraceID := tr, job_SpanID := i\<rparr>"
proof -
  obtain now en0 where now: "Now en = (now, en0)" by (cases "Now en")
  note fr = Now_frame [OF now]
  let ?j1 = "j\<lparr>job_State := st, job_Error := msg, job_Updated := now\<rparr>"
  obtain sp d where ns: "nextSpan (ag_cfg A) (en_rng en0) (en_draws en0)
      (with_trace (en_store en0) ?j1) (job_Updated j) msg = (sp, d)" by fastforce
  show thesis
  proof (cases sp)
    case (Inl e)
    with assms ns now fr show thesis by (intro untried [of e]) (auto simp: save_def Let_def)
  next
    case (Inr p)
    obtain span j2 where p: "p = (span, j2)" by (cases p)
    obtain tr i where "j2 = (with_trace (en_store en0) ?j1)\<lparr>job_TraceID := tr, job_SpanID := i\<rparr>"
      using nextSpan_job [OF ns [unfolded Inr p]] by blast
    then have j2: "\<exists>tr i now. j2 = j\<lparr>job_State := st, job_Error := msg, job_Updated := now, job_TraceID := tr, job_SpanID := i\<rparr>"
      using with_trace_same [of "en_store en0" ?j1]
      by (intro exI [of _ tr] exI [of _ i] exI [of _ now]) auto
    obtain eo' s where u: "update (ag_lib A) (save_fn j2 st) (en_store en0) = (eo', s)" by fastforce
    with assms ns now Inr p have "eo = eo'" "en_store en1 = s" "en_dev en1 = en_dev en0"
      by (auto simp: save_def Let_def split: option.splits)
    with u fr j2 show thesis by (intro tried [of j2]) auto
  qed
qed

lemma save_dev [ota_frame]: "save A j st msg en = (eo, en1) \<Longrightarrow> en_dev en1 = en_dev en"
  by (erule save_cases) auto

lemma save_error_keeps:
  assumes "save A j st msg en = (Some e, en1)"
  shows "data_of en1 = data_of en"
  using assms
proof (cases rule: save_cases)
  case (tried j2)
  then show ?thesis by (metis Update_error_keeps_data update_Update)
qed auto

lemma save_store_ok:
  assumes "save A j st msg en = (eo, en1)" "store_ok (ag_lib A) (en_store en)"
  shows "store_ok (ag_lib A) (en_store en1)"
  using assms(1)
proof (cases rule: save_cases)
  case (tried j2)
  then show ?thesis using assms(2) Update_store_ok [OF _ assms(2) save_fn_keeps] by (simp add: update_Update)
qed (use assms(2) in auto)

text \<open>The journal a save writes, job by job.\<close>

lemma save_fn_written:
  assumes "written_by (save_fn j2 st) d = Some d'" "distinct (keys (db_Jobs d))"
  shows "map_of (db_Jobs d') i = Some j' \<Longrightarrow>
      (if i = job_id j2 then j' = j2 else map_of (db_Jobs d) i = Some j')"
    and "db_Active d' = (if Terminal st then [] else db_Active d)"
    and "db_HighSequence d' = db_HighSequence d"
    and "db_EventSequence d' = db_EventSequence d + 1"
    and "\<exists>ev. db_Events d' = db_Events d @ [ev] \<and> ev_State ev = job_State j2 \<and> ev_JobID ev = job_id j2
      \<and> ev_Sequence ev = db_EventSequence d + 1"
    and "\<not> Terminal (job_State j2) \<Longrightarrow> map_of (db_Jobs d') (job_id j2) = Some j2"
    and "db_BootCheck d' = db_BootCheck d" "db_RootPayload d' = db_RootPayload d"
      "db_SnapshotVersion d' = db_SnapshotVersion d"
proof -
  obtain d1 spilled where d1: "save_fn j2 st d = Inr d1" "compactHot d1 = Inr (spilled, d')"
    using assms(1) by (auto simp: written_by_def split: sum.splits prod.splits)
  have dist: "distinct (keys (db_Jobs d1))"
    using d1(1) assms(2) by (auto simp: save_fn_def addEvent_def Let_def split: if_splits)
  have f: "db_Jobs d1 = AList.update (job_id j2) j2 (db_Jobs d)"
    "db_Active d1 = (if Terminal st then [] else db_Active d)"
    "db_HighSequence d1 = db_HighSequence d" "db_EventSequence d1 = db_EventSequence d + 1"
    "\<exists>ev. db_Events d1 = db_Events d @ [ev] \<and> ev_State ev = job_State j2 \<and> ev_JobID ev = job_id j2
       \<and> ev_Sequence ev = db_EventSequence d + 1"
    "db_BootCheck d1 = db_BootCheck d" "db_RootPayload d1 = db_RootPayload d"
    "db_SnapshotVersion d1 = db_SnapshotVersion d"
    using d1(1) by (auto simp: save_fn_def addEvent_def Let_def split: if_splits)
  note c = compactHot_facts [OF d1(2) dist]
  obtain js where js: "d' = d1\<lparr>db_Jobs := js\<rparr>" using c(2) by blast
  show "map_of (db_Jobs d') i = Some j' \<Longrightarrow>
      (if i = job_id j2 then j' = j2 else map_of (db_Jobs d) i = Some j')"
    using c(4) [of i j'] f(1) by (auto simp del: map_of_eq_Some_iff split: if_splits)
  have "map_of (db_Jobs d1) (job_id j2) = Some j2" by (simp add: f(1))
  then show "\<not> Terminal (job_State j2) \<Longrightarrow> map_of (db_Jobs d') (job_id j2) = Some j2"
    using c(5) [of "job_id j2"] c(4) [of "job_id j2"]
    by (cases "map_of (db_Jobs d') (job_id j2)") fastforce+
  show "db_Active d' = (if Terminal st then [] else db_Active d)"
    "db_HighSequence d' = db_HighSequence d" "db_EventSequence d' = db_EventSequence d + 1"
    "\<exists>ev. db_Events d' = db_Events d @ [ev] \<and> ev_State ev = job_State j2 \<and> ev_JobID ev = job_id j2
      \<and> ev_Sequence ev = db_EventSequence d + 1"
    "db_BootCheck d' = db_BootCheck d" "db_RootPayload d' = db_RootPayload d"
    "db_SnapshotVersion d' = db_SnapshotVersion d"
    using f js by auto
qed

lemma save_ok:
  assumes "save A j st msg en = (None, en1)"
  obtains j2 where
    "\<exists>tr i now. j2 = j\<lparr>job_State := st, job_Error := msg, job_Updated := now, job_TraceID := tr, job_SpanID := i\<rparr>"
    "written_by (save_fn j2 st) (data_of en) = Some (data_of en1)" "durable (en_store en1) = data_of en1"
proof -
  from assms obtain j2 where j2: "update (ag_lib A) (save_fn j2 st) (en_store en) = (None, en_store en1)"
    "\<exists>tr i now. j2 = j\<lparr>job_State := st, job_Error := msg, job_Updated := now, job_TraceID := tr, job_SpanID := i\<rparr>"
    by (cases rule: save_cases) auto
  from update_Update [THEN iffD1, OF j2(1)]
  have "written_by (save_fn j2 st) (data_of en) = Some (data_of en1)" "durable (en_store en1) = data_of en1"
    by (cases rule: Update_cases; simp add: written_by_def pure_fn_def durable_def)+
  with j2(2) show thesis by (intro that)
qed

end
