(* ===== verification/OTA_Lifecycle.thy ===== *)
theory OTA_Lifecycle
  imports OTA_Engine
begin

text \<open>
  The engine as a state machine. \<open>transition\<close> is the lifecycle of a job; every handler of the
  engine is shown to keep the journal sound and to move jobs only along \<open>transition\<close>, in memory
  and on disk, whatever storage, device, network, clock and file system do.
\<close>

section \<open>The lifecycle of a job\<close>

text \<open>The transitions the journal may record, one event each.\<close>

inductive transition :: "JobState \<Rightarrow> JobState \<Rightarrow> bool" where
  "transition Accepted Downloading"
| "transition Accepted Failed"
| "transition Downloading Downloading"
| "transition Downloading Verified"
| "transition Downloading Failed"
| "transition Verified Installing"
| "transition Verified Committed"
| "transition Verified Failed"
| "transition Installing AwaitingReboot"
| "transition Installing NeedsRecovery"
| "transition AwaitingReboot AwaitingReboot"
| "transition AwaitingReboot CheckingHealth"
| "transition AwaitingReboot RolledBack"
| "transition AwaitingReboot NeedsRecovery"
| "transition CheckingHealth CheckingHealth"
| "transition CheckingHealth Committing"
| "transition CheckingHealth RollbackPending"
| "transition CheckingHealth RolledBack"
| "transition CheckingHealth NeedsRecovery"
| "transition Committing Committed"
| "transition Committing CheckingHealth"
| "transition Committing RolledBack"
| "transition Committing NeedsRecovery"
| "transition RollbackPending RolledBack"
| "transition RollbackPending NeedsRecovery"
| "transition NeedsRecovery Failed"

inductive_cases transition_fromE: "transition s t"
inductive_simps transition_from_terminal: "transition Committed t" "transition RolledBack t" "transition Failed t"

lemma transition_terminal: "transition s t \<Longrightarrow> \<not> Terminal s"
  by (erule transition_fromE) simp_all

lemma transitions_terminal: "transition\<^sup>*\<^sup>* s t \<Longrightarrow> Terminal s \<Longrightarrow> t = s"
  by (erule converse_rtranclpE) (auto dest: transition_terminal)

section \<open>How far a job has come\<close>

text \<open>
  The states in the order of the update: a job compares by its stage, so checking health and
  committing, between which a reboot moves a job back and forth, compare as equal.
\<close>

fun stage :: "JobState \<Rightarrow> nat" where
  "stage Accepted = 0"
| "stage Downloading = 1"
| "stage Verified = 2"
| "stage Installing = 3"
| "stage AwaitingReboot = 4"
| "stage CheckingHealth = 5"
| "stage Committing = 5"
| "stage RollbackPending = 6"
| "stage NeedsRecovery = 7"
| "stage Committed = 8"
| "stage RolledBack = 8"
| "stage Failed = 8"
| "stage (UnknownState s) = 9"

instantiation JobState :: preorder
begin

definition less_eq_JobState :: "JobState \<Rightarrow> JobState \<Rightarrow> bool" where
  "less_eq_JobState s t \<longleftrightarrow> stage s \<le> stage t"

definition less_JobState :: "JobState \<Rightarrow> JobState \<Rightarrow> bool" where
  "less_JobState s t \<longleftrightarrow> stage s < stage t"

instance
  by standard (auto simp: less_eq_JobState_def less_JobState_def)

end

lemma transition_forward: "transition s t \<Longrightarrow> s \<le> t"
  by (erule transition_fromE) (simp_all add: less_eq_JobState_def)

lemma transitions_forward: "transition\<^sup>*\<^sup>* s t \<Longrightarrow> s \<le> t"
  by (induction rule: rtranclp_induct) (auto dest: transition_forward intro: order_trans)

lemma Terminal_stage: "known_state s \<Longrightarrow> Terminal s \<longleftrightarrow> Committed \<le> s"
  by (cases s) (auto simp: less_eq_JobState_def)

text \<open>
  One or more such steps of a journal: no job appears, none changes its assignment or release, and
  the sequence bound and the recorded trust metadata stay.
\<close>

definition trust_of :: "Database \<Rightarrow> bytes \<times> u64" where
  "trust_of d = (db_RootPayload d, db_SnapshotVersion d)"

definition advance :: "Database \<Rightarrow> Database \<Rightarrow> bool" where
  "advance d d' \<longleftrightarrow> db_HighSequence d' = db_HighSequence d \<and> trust_of d' = trust_of d
     \<and> (\<forall>i j'. map_of (db_Jobs d') i = Some j' \<longrightarrow>
          (\<exists>j. map_of (db_Jobs d) i = Some j \<and> same_job j j' \<and> transition\<^sup>*\<^sup>* (job_State j) (job_State j')))"

lemma advance_refl [simp]: "advance d d"
  by (auto simp: advance_def)

lemma advance_trans: "advance a b \<Longrightarrow> advance b c \<Longrightarrow> advance a c"
proof -
  assume ab: "advance a b" and bc: "advance b c"
  have "\<exists>j. map_of (db_Jobs a) i = Some j \<and> same_job j j' \<and> transition\<^sup>*\<^sup>* (job_State j) (job_State j')"
    if c: "map_of (db_Jobs c) i = Some j'" for i j'
  proof -
    obtain k where k: "map_of (db_Jobs b) i = Some k" "same_job k j'" "transition\<^sup>*\<^sup>* (job_State k) (job_State j')"
      using bc c unfolding advance_def by blast
    obtain l where "map_of (db_Jobs a) i = Some l" "same_job l k" "transition\<^sup>*\<^sup>* (job_State l) (job_State k)"
      using ab k(1) unfolding advance_def by blast
    with k same_job_trans rtranclp_trans [of transition] show ?thesis by blast
  qed
  with ab bc show ?thesis by (auto simp: advance_def)
qed

text \<open>
  Both copies of the journal matter: the one in memory and the one a restart would read.
  \<open>prog A en r\<close>: the handler result \<open>r\<close>, started in \<open>en\<close>, keeps the store sound and only advances
  jobs along the transitions, in memory and on disk. \<open>at_job en j st\<close>: the journal holds this job,
  in a state from which \<open>st\<close> is reachable.
\<close>

definition sadvance :: "store \<Rightarrow> store \<Rightarrow> bool" where
  "sadvance s s' \<longleftrightarrow> advance (st_data s) (st_data s') \<and> advance (durable s) (durable s')"

definition prog :: "'b agent \<Rightarrow> 'b engine \<Rightarrow> 'x \<times> 'b engine \<Rightarrow> bool" where
  "prog A en r \<longleftrightarrow> store_ok (ag_lib A) (en_store (snd r)) \<and> sadvance (en_store en) (en_store (snd r))"

definition at_job :: "'b engine \<Rightarrow> Job \<Rightarrow> JobState \<Rightarrow> bool" where
  "at_job en j st \<longleftrightarrow> (\<exists>j0. map_of (db_Jobs (data_of en)) (job_id j) = Some j0 \<and> same_job j0 j
     \<and> transition\<^sup>*\<^sup>* (job_State j0) st)"

lemma sadvance_refl [simp]: "sadvance s s"
  by (simp add: sadvance_def)

lemma sadvance_trans: "sadvance a b \<Longrightarrow> sadvance b c \<Longrightarrow> sadvance a c"
  unfolding sadvance_def by (blast intro: advance_trans)

lemma store_ok_distinct: "store_ok L s \<Longrightarrow> distinct (keys (db_Jobs (st_data s)))"
  by (simp add: store_ok_def good_db_def)

lemma update_sadvance:
  assumes "update L fn s = (eo, s1)" "store_ok L s"
    and "\<And>d. written_by fn (st_data s) = Some d \<Longrightarrow> advance (st_data s) d"
  shows "sadvance s s1"
  using update_Update [THEN iffD1, OF assms(1)]
proof (cases rule: Update_cases)
  case (written next' spilled d)
  then have "written_by fn (st_data s) = Some d" by (simp add: written_by_def pure_fn_def)
  with assms(2,3) written show ?thesis by (auto simp: sadvance_def durable_def store_ok_def)
next
  case (broken e next' spilled d)
  then have w: "written_by fn (st_data s) = Some d" by (simp add: written_by_def pure_fn_def)
  have "durable s = st_data s" using assms(2) broken(2) by (simp add: store_ok_def)
  with assms(3) [OF w] broken show ?thesis by (auto simp: sadvance_def durable_def)
qed auto

lemma save_prog:
  assumes "store_ok (ag_lib A) (en_store en)" "en_store en1 = en_store en" "at_job en j st"
  shows "prog A en (save A j st msg en1)"
proof -
  obtain eo en2 where s: "save A j st msg en1 = (eo, en2)" by fastforce
  have "sadvance (en_store en1) (en_store en2)"
    using s
  proof (cases rule: save_cases)
    case (tried j2)
    from assms(2,3) obtain j0 where j0: "map_of (db_Jobs (data_of en1)) (job_id j) = Some j0" "same_job j0 j"
      "transition\<^sup>*\<^sup>* (job_State j0) st" by (auto simp: at_job_def)
    have s2: "same_job j0 j2" "job_State j2 = st" "job_id j2 = job_id j"
      using tried(3) j0(2) by (auto simp: same_job_def)
    from tried(1) show ?thesis
    proof (rule update_sadvance)
      fix d assume w: "written_by (save_fn j2 st) (data_of en1) = Some d"
      have dist: "distinct (keys (db_Jobs (data_of en1)))" using assms(1,2) by (simp add: store_ok_distinct)
      show "advance (data_of en1) d"
        unfolding advance_def
      proof (intro conjI allI impI)
        show "db_HighSequence d = db_HighSequence (data_of en1)"
          using save_fn_written(3) [OF w dist] .
        show "trust_of d = trust_of (data_of en1)"
          using save_fn_written(8,9) [OF w dist] by (simp add: trust_of_def)
        fix i j' assume "map_of (db_Jobs d) i = Some j'"
        from save_fn_written(1) [OF w dist this] j0 s2
        show "\<exists>k. map_of (db_Jobs (data_of en1)) i = Some k \<and> same_job k j' \<and> transition\<^sup>*\<^sup>* (job_State k) (job_State j')"
          by (cases "i = job_id j") auto
      qed
    qed (use assms(1,2) in simp)
  qed auto
  with save_store_ok [OF s] assms(1,2) show ?thesis by (simp add: prog_def s)
qed

lemma prog_frame: "store_ok (ag_lib A) (en_store en) \<Longrightarrow> en_store en1 = en_store en \<Longrightarrow> prog A en (x, en1)"
  by (simp add: prog_def)

lemma prog_trans: "prog A en (x, en1) \<Longrightarrow> prog A en1 r \<Longrightarrow> prog A en r"
  unfolding prog_def by (auto intro: sadvance_trans)

lemma save_then_at:
  assumes "save A j st msg en = (None, en1)" "store_ok (ag_lib A) (en_store en)" "\<not> Terminal st"
    and "same_job j j'" "transition\<^sup>*\<^sup>* st st'"
  shows "at_job en1 j' st'"
proof -
  obtain j2 where
    j2: "\<exists>tr i now. j2 = j\<lparr>job_State := st, job_Error := msg, job_Updated := now, job_TraceID := tr, job_SpanID := i\<rparr>"
      "written_by (save_fn j2 st) (data_of en) = Some (data_of en1)"
    using assms(1) by (rule save_ok)
  have "map_of (db_Jobs (data_of en1)) (job_id j2) = Some j2"
    using j2(1) assms(3) by (intro save_fn_written(6) [OF j2(2) store_ok_distinct [OF assms(2)]]) auto
  with assms(4,5) j2(1) show ?thesis by (auto simp: at_job_def same_job_def)
qed

lemma at_job_self:
  assumes "map_of (db_Jobs (data_of en)) (job_id j) = Some j" "same_job j j'" "transition\<^sup>*\<^sup>* (job_State j) st"
  shows "at_job en j' st"
  using assms by (auto simp: at_job_def same_job_def)


lemma save_error_prog:
  "save A j st msg en1 = (eo, en2) \<Longrightarrow> store_ok (ag_lib A) (en_store en) \<Longrightarrow> en_store en1 = en_store en \<Longrightarrow>
    at_job en j st \<Longrightarrow> prog A en (x, en2)"
  using save_prog [of A en en1 j st msg] by (simp add: prog_def)

section \<open>Every step follows the lifecycle\<close>

text \<open>The situation in which \<open>Step\<close> calls the handler of a state.\<close>

definition active_job :: "'b agent \<Rightarrow> 'b engine \<Rightarrow> Job \<Rightarrow> bool" where
  "active_job A en j \<longleftrightarrow> store_ok (ag_lib A) (en_store en) \<and> map_of (db_Jobs (data_of en)) (job_id j) = Some j"

lemma active_save:
  assumes "active_job A en j" "en_store en1 = en_store en" "same_job j j'" "transition (job_State j) st"
  shows "prog A en (save A j' st msg en1)"
proof (rule save_prog)
  from assms(1) show "store_ok (ag_lib A) (en_store en)" by (simp add: active_job_def)
  from assms show "at_job en j' st" by (intro at_job_self [of en j]) (auto simp: active_job_def)
qed fact

lemma active_idle: "active_job A en j \<Longrightarrow> en_store en1 = en_store en \<Longrightarrow> prog A en (x, en1)"
  by (auto simp: active_job_def intro: prog_frame)

lemma armDownload_frame [ota_frame]:
  "armDownload A j en = (r, en1) \<Longrightarrow> en_store en1 = en_store en
     \<and> (\<forall>j1. r = Inr j1 \<longrightarrow> same_job j j1 \<and> job_State j1 = job_State j)"
  by (auto simp: armDownload_def same_job_def Now_def split: if_splits sum.splits bool.splits)

lemma step_accepted_prog:
  assumes "active_job A en j" "job_State j = Accepted"
  shows "prog A en (step_accepted A j en)"
  unfolding step_accepted_def
  by (auto split: prod.split sum.split dest!: armDownload_frame
      intro!: active_save [OF assms(1)] active_idle [OF assms(1)] simp: assms(2) transition.intros)

lemma noteDeferred_prog:
  assumes "active_job A en j" "job_State j = Downloading" "en_store en1 = en_store en" "same_job j j'"
  shows "prog A en (noteDeferred A j' e en1)"
  using assms(3,4) unfolding noteDeferred_def
  by (auto intro!: active_save [OF assms(1)] active_idle [OF assms(1)] simp: assms(2) transition.intros same_job_def)

lemma step_fetch_prog:
  assumes "active_job A en j" "job_State j = Downloading"
  shows "prog A en (step_fetch A j en)"
  unfolding step_fetch_def
  by (auto simp: Let_def assms(2) transition.intros same_job_def split: prod.split option.split dest!: fetchAll_frame
      intro!: active_save [OF assms(1)] active_idle [OF assms(1)] noteDeferred_prog [OF assms])

lemma step_downloading_prog:
  assumes "active_job A en j" "job_State j = Downloading"
  shows "prog A en (step_downloading A j now en)"
  unfolding step_downloading_def
  by (auto split: sum.split option.split intro!: active_idle [OF assms(1)] noteDeferred_prog [OF assms]
      step_fetch_prog [OF assms])

lemma install_and_check_prog:
  assumes ok: "store_ok (ag_lib A) (en_store en)" and at: "at_job en j Installing"
  shows "prog A en (install_and_check A j p en)"
proof -
  obtain eo en1 where s: "save A j Installing [] en = (eo, en1)" by fastforce
  have pr: "prog A en (x, en1)" for x :: 'x by (rule save_error_prog [OF s ok refl at])
  show ?thesis
  proof (cases eo)
    case (Some e)
    with s pr show ?thesis by (simp add: install_and_check_def)
  next
    case None
    with s have s0: "save A j Installing [] en = (None, en1)" by simp
    have ok1: "store_ok (ag_lib A) (en_store en1)" by (rule save_store_ok [OF s ok])
    have nx: "prog A en1 (save A j st msg en2)" if "en_store en2 = en_store en1" "transition Installing st" for st msg en2
      using that by (intro save_prog [OF ok1] save_then_at [OF s0 ok]) auto
    have "prog A en1 (install_and_check A j p en)"
      unfolding install_and_check_def s0
      by (auto split: prod.split option.split sum.split dest!: Install_frame Status_frame
          intro!: nx transition.intros)
    then show ?thesis by (rule prog_trans [OF pr])
  qed
qed

lemma step_install_prog:
  assumes "active_job A en0 j" "job_State j = Verified" "en_store en = en_store en0" "same_job j j'"
  shows "prog A en0 (step_install A j' en)"
proof -
  have fin: "prog A en0 (save A k Failed msg en1)" if "en_store en1 = en_store en" "same_job j k" for k msg en1
    using that assms(3) by (intro active_save [OF assms(1)]) (auto simp: assms(2) transition.intros)
  have go: "prog A en0 (install_and_check A k p en1)" if "en_store en1 = en_store en" "same_job j k" for k p en1
  proof -
    have ok: "store_ok (ag_lib A) (en_store en1)" using assms(1,3) that by (simp add: active_job_def)
    have "at_job en1 k Installing"
      using assms that by (intro at_job_self [of en1 j]) (auto simp: active_job_def transition.intros)
    from install_and_check_prog [OF ok this] that(1) assms(3) show ?thesis by (simp add: prog_def)
  qed
  note mv = Status_frame Now_frame
  show ?thesis
    unfolding step_install_def Let_def
    using assms(3,4)
    by (auto split: prod.split sum.split option.split dest!: mv intro!: fin go active_idle [OF assms(1)]
        simp: same_job_def)
qed

lemma step_verified_prog:
  assumes "active_job A en j" "job_State j = Verified"
  shows "prog A en (step_verified A j en)"
  unfolding step_verified_def Let_def
  by (auto split: prod.split option.split intro!: active_save [OF assms(1)] step_install_prog [OF assms]
      simp: assms(2) transition.intros same_job_def)

lemma reboot_prog:
  assumes "active_job A en0 j" "job_State j = AwaitingReboot" "en_store en = en_store en0"
  shows "prog A en0 (reboot A j en)"
proof -
  let ?j = "j\<lparr>job_RebootRequested := True\<rparr>"
  obtain eo en1 where s: "save A ?j AwaitingReboot [] en = (eo, en1)" by fastforce
  have ok: "store_ok (ag_lib A) (en_store en)" using assms(1,3) by (simp add: active_job_def)
  have at: "at_job en ?j AwaitingReboot"
    using assms by (intro at_job_self [of en j]) (auto simp: active_job_def same_job_def)
  have pr: "prog A en0 (x, en1)" for x :: 'x
    using save_error_prog [OF s ok refl at] assms(3) by (simp add: prog_def)
  show ?thesis
  proof (cases eo)
    case (Some e)
    with s pr show ?thesis by (simp add: reboot_def Let_def)
  next
    case None
    with s have s0: "save A ?j AwaitingReboot [] en = (None, en1)" by simp
    have ok1: "store_ok (ag_lib A) (en_store en1)" by (rule save_store_ok [OF s ok])
    obtain ro en2 where r: "Reboot A en1 = (ro, en2)" by fastforce
    have e2: "en_store en2 = en_store en1" using Reboot_frame [OF r] by simp
    have "prog A en1 (save A (?j\<lparr>job_RebootRequested := False\<rparr>) AwaitingReboot ''reboot request failed'' en2)"
      by (intro save_prog [OF ok1 e2] save_then_at [OF s0 ok]) (auto simp: same_job_def)
    then have "prog A en1 (x, snd (save A (?j\<lparr>job_RebootRequested := False\<rparr>) AwaitingReboot ''reboot request failed'' en2))"
      for x :: "error option" by (simp add: prog_def)
    with prog_frame [OF ok1 e2] have "prog A en1 (reboot A j en)"
      using s0 r by (auto simp: reboot_def Let_def split: option.split)
    then show ?thesis by (rule prog_trans [OF pr])
  qed
qed

lemma step_awaiting_prog:
  assumes "active_job A en j" "job_State j = AwaitingReboot"
  shows "prog A en (step_awaiting A j now en)"
  unfolding step_awaiting_def
  by (auto split: prod.split sum.split dest!: Status_frame
      intro!: active_save [OF assms(1)] active_idle [OF assms(1)] reboot_prog [OF assms]
      simp: assms(2) transition.intros same_job_def)

lemma step_check_prog:
  assumes "active_job A en0 j" "job_State j = CheckingHealth" "en_store en = en_store en0"
  shows "prog A en0 (step_check A j now en)"
  using assms(3) unfolding step_check_def
  by (auto simp: Let_def assms(2) transition.intros split: option.split
      intro!: active_save [OF assms(1)] active_idle [OF assms(1)])

lemma step_health_prog:
  assumes "active_job A en j" "job_State j = CheckingHealth \<or> job_State j = Committing"
  shows "prog A en (step_health A j now en)"
proof -
  have mid: "transition (job_State j) st" if "st = RolledBack \<or> st = NeedsRecovery \<or> st = CheckingHealth" for st
    using assms(2) that by (auto intro: transition.intros)
  have committed: "prog A en (save A j Committed msg en1)" if "en_store en1 = en_store en" "job_State j = Committing" for msg en1
    using that by (intro active_save [OF assms(1)]) (auto simp: transition.intros)
  have unmarked: "job_State j \<noteq> Committing \<Longrightarrow> job_State j = CheckingHealth" using assms(2) by auto
  show ?thesis
    unfolding step_health_def
    by (auto split: prod.split sum.split option.split dest!: Status_frame Mark_frame
        intro!: active_save [OF assms(1)] active_idle [OF assms(1)] committed step_check_prog [OF assms(1) unmarked] mid
        simp: same_job_def)
qed

lemma step_rollback_prog:
  assumes "active_job A en j" "job_State j = RollbackPending"
  shows "prog A en (step_rollback A j en)"
proof -
  have rb: "prog A en (Reboot A en1)" if "en_store en1 = en_store en" for en1
  proof -
    obtain ro en2 where r: "Reboot A en1 = (ro, en2)" by fastforce
    with Reboot_frame [OF r] that show ?thesis by (simp add: active_idle [OF assms(1)])
  qed
  show ?thesis
    unfolding step_rollback_def
    by (auto split: prod.split sum.split option.split dest!: Status_frame Mark_frame
        intro!: active_save [OF assms(1)] active_idle [OF assms(1)] rb
        simp: assms(2) transition.intros same_job_def)
qed

lemma step_state_prog:
  assumes "active_job A en j"
  shows "prog A en (step_state A j now en)"
  unfolding step_state_def
  using step_accepted_prog [OF assms] step_downloading_prog [OF assms] step_verified_prog [OF assms]
    step_awaiting_prog [OF assms] step_health_prog [OF assms] step_rollback_prog [OF assms]
  by (auto split: JobState.split intro!: active_save [OF assms] active_idle [OF assms] simp: transition.intros)

section \<open>Writes that leave the jobs alone\<close>

lemma update_jobs_alone:
  assumes "\<And>d d'. fn d = Inr d' \<Longrightarrow> db_Jobs d' = db_Jobs d \<and> db_HighSequence d' = db_HighSequence d
      \<and> trust_of d' = trust_of d"
    and "store_ok (ag_lib A) (en_store en)" "en_store en1 = en_store en"
  shows "prog A en (case update (ag_lib A) fn (en_store en1) of (eo, s) \<Rightarrow> (eo, en1\<lparr>en_store := s\<rparr>))"
proof -
  obtain eo s where u: "update (ag_lib A) fn (en_store en1) = (eo, s)" by fastforce
  have keeps: "keeps_keys (pure_fn fn)" using assms(1) by (auto simp: keeps_keys_def pure_fn_def)
  have ok: "store_ok (ag_lib A) s"
    using Update_store_ok [OF update_Update [THEN iffD1, OF u] _ keeps] assms(2,3) by simp
  have "sadvance (en_store en1) s"
    using u
  proof (rule update_sadvance)
    fix d assume "written_by fn (data_of en1) = Some d"
    then obtain d1 sp where d1: "fn (data_of en1) = Inr d1" "compactHot d1 = Inr (sp, d)"
      by (auto simp: written_by_def split: sum.splits prod.splits)
    have j: "db_Jobs d1 = db_Jobs (data_of en1)" "db_HighSequence d1 = db_HighSequence (data_of en1)"
      "trust_of d1 = trust_of (data_of en1)"
      using assms(1) [OF d1(1)] by auto
    have "distinct (keys (db_Jobs d1))" using assms(2,3) by (simp add: j store_ok_distinct)
    note c = compactHot_facts [OF d1(2) this]
    have h: "db_HighSequence d = db_HighSequence d1" "trust_of d = trust_of d1"
      using c(2) by (auto simp: trust_of_def)
    show "advance (data_of en1) d"
      unfolding advance_def using c(4) h j by (metis rtranclp.rtrancl_refl same_job_refl)
  qed (use assms(2,3) in simp)
  with ok assms(3) u show ?thesis by (simp add: prog_def)
qed

lemma boot_update_prog:
  assumes "store_ok (ag_lib A) (en_store en)" "en_store en1 = en_store en"
  shows "prog A en (boot_update A g en1)"
  unfolding boot_update_def by (rule update_jobs_alone [OF _ assms]) (auto simp: trust_of_def)

lemma Ack_prog:
  assumes "store_ok (ag_lib A) (en_store en)"
  shows "prog A en (Ack A n en)"
  unfolding Ack_def by (rule update_jobs_alone [OF _ assms refl]) (auto simp: ack_fn_def trust_of_def split: if_splits)

lemma fall_back_prog:
  assumes "store_ok (ag_lib A) (en_store en)" "en_store en1 = en_store en"
  shows "prog A en (fall_back A known s en1)"
proof -
  have rb: "prog A en (Reboot A en2)" if "en_store en2 = en_store en" for en2
  proof -
    obtain ro en3 where r: "Reboot A en2 = (ro, en3)" by fastforce
    with Reboot_frame [OF r] that show ?thesis by (simp add: prog_frame [OF assms(1)])
  qed
  show ?thesis
    unfolding fall_back_def using assms(2)
    by (auto split: prod.split sum.split option.split dest!: Mark_frame intro!: prog_frame [OF assms(1)] rb)
qed

lemma confirm_boot_prog:
  assumes "store_ok (ag_lib A) (en_store en)" "en_store en1 = en_store en"
  shows "prog A en (confirm_boot A d latest s en1)"
  unfolding confirm_boot_def Let_def using assms(2)
  by (auto split: prod.split option.split dest!: Now_frame Mark_frame
      intro!: prog_frame [OF assms(1)] boot_update_prog [OF assms(1)] fall_back_prog [OF assms(1)])

lemma confirmNormalBoot_prog:
  assumes "store_ok (ag_lib A) (en_store en)"
  shows "prog A en (confirmNormalBoot A en)"
  unfolding confirmNormalBoot_def Let_def
  by (auto split: prod.split sum.split option.split dest!: Status_frame
      intro!: prog_frame [OF assms] confirm_boot_prog [OF assms])

lemma current_job: "current en = Some j \<Longrightarrow> map_of (db_Jobs (data_of en)) (db_Active (data_of en)) = Some j"
  by (simp add: current_def View_def)

lemma current_active:
  assumes "store_ok (ag_lib A) (en_store en)" "current en = Some j"
  shows "active_job A en j" "job_id j = db_Active (data_of en)"
proof -
  have m: "map_of (db_Jobs (data_of en)) (db_Active (data_of en)) = Some j"
    using assms(2) by (simp add: current_def View_def)
  then have "(db_Active (data_of en), j) \<in> set (db_Jobs (data_of en))" by (rule map_of_SomeD)
  with assms(1) show i: "job_id j = db_Active (data_of en)"
    by (auto simp: store_ok_def good_db_def journal_ok_def job_ok_def)
  with m assms(1) show "active_job A en j" by (simp add: active_job_def)
qed

lemma Step_prog:
  assumes ok: "store_ok (ag_lib A) (en_store en)"
  shows "prog A en (Step A en)"
proof (cases "current en")
  case None
  then show ?thesis using confirmNormalBoot_prog [OF ok] by (simp add: Step_def)
next
  case (Some j)
  obtain now en1 where n: "Now en = (now, en1)" by fastforce
  have e1: "en_store en1 = en_store en" using Now_frame [OF n] by simp
  note act = current_active [OF ok Some]
  have act1: "active_job A en1 j" using act(1) e1 by (simp add: active_job_def)
  have st: "prog A en (step_state A j now en1)"
    using step_state_prog [OF act1, of now] e1 by (simp add: prog_def)
  have fl: "prog A en (save A j Failed msg en1)" if "before_install (job_State j)" for msg
    using that by (intro active_save [OF act(1) e1]) (auto simp: before_install_def transition.intros)
  show ?thesis
    using Some n st fl prog_frame [OF ok e1] by (auto simp: Step_def split: sum.split)
qed

lemma RequestReboot_prog:
  assumes ok: "store_ok (ag_lib A) (en_store en)"
  shows "prog A en (RequestReboot A busy en)"
proof (cases "current en")
  case None
  then show ?thesis by (auto simp: RequestReboot_def intro!: prog_frame [OF ok])
next
  case (Some j)
  note act = current_active(1) [OF ok Some]
  show ?thesis
    unfolding RequestReboot_def Some
    by (auto split: prod.split sum.split dest!: Now_frame Status_frame
        intro!: prog_frame [OF ok] reboot_prog [OF act])
qed

lemma RecoverAbort_prog:
  assumes ok: "store_ok (ag_lib A) (en_store en)"
  shows "prog A en (RecoverAbort A busy en)"
proof (cases "current en")
  case None
  then show ?thesis by (auto simp: RecoverAbort_def intro!: prog_frame [OF ok])
next
  case (Some j)
  note act = current_active(1) [OF ok Some]
  have fl: "prog A en (save A j Failed msg en1)" if "en_store en1 = en_store en" "job_State j = NeedsRecovery" for en1 msg
    using that by (intro active_save [OF act]) (auto simp: transition.intros)
  show ?thesis
    unfolding RecoverAbort_def Some
    by (auto split: prod.split sum.split option.split dest!: Status_frame Mark_frame
        intro!: prog_frame [OF ok] fl)
qed

lemma GC_prog:
  assumes ok: "store_ok (ag_lib A) (en_store en)"
  shows "prog A en (GC A busy en)"
  unfolding GC_def by (auto split: sum.split prod.split intro!: prog_frame [OF ok])

section \<open>Accepting a job\<close>

text \<open>\<open>admits d d' j\<close>: the journal \<open>d'\<close> is \<open>d\<close> with the new job \<open>j\<close> and a higher sequence bound.\<close>

definition admits :: "Database \<Rightarrow> Job \<Rightarrow> Database \<Rightarrow> bool" where
  "admits d j d' \<longleftrightarrow> db_Active d = [] \<and> db_HighSequence d < rel_Sequence (job_Release j)
     \<and> db_HighSequence d' = rel_Sequence (job_Release j) \<and> db_Active d' = job_id j
     \<and> map_of (db_Jobs d') (job_id j) = Some j \<and> job_State j = Accepted
     \<and> (\<forall>i j'. i \<noteq> job_id j \<longrightarrow> map_of (db_Jobs d') i = Some j' \<longrightarrow> map_of (db_Jobs d) i = Some j')"

lemma applySupplyChain_frame [ota_frame]:
  "applySupplyChain L sd dec i d f = (Inr d1, f1) \<Longrightarrow> db_Jobs d1 = db_Jobs d \<and> db_Active d1 = db_Active d
     \<and> db_HighSequence d1 = db_HighSequence d \<and> db_Events d1 = db_Events d \<and> db_EventSequence d1 = db_EventSequence d"
  by (auto simp: applySupplyChain_def split: if_splits prod.splits option.splits)

lemma submit_fn_ok:
  assumes "submit_fn A j supply now d f = (Inr d1, f1)"
  shows "db_Active d = []" "db_HighSequence d < rel_Sequence (job_Release j)"
    "db_HighSequence d1 = rel_Sequence (job_Release j)" "db_Active d1 = job_id j"
    "db_Jobs d1 = AList.update (job_id j) j (db_Jobs d)" "db_EventSequence d1 = db_EventSequence d + 1"
  using assms
  by (auto simp: submit_fn_def Let_def addEvent_def not_le not_less split: if_splits sum.splits prod.splits
      dest!: applySupplyChain_frame)

lemma submit_admits:
  assumes "submit_fn A j supply now d f = (Inr d1, f1)" "compactHot d1 = Inr (sp, d')"
    and "distinct (keys (db_Jobs d))" "job_State j = Accepted"
  shows "admits d j d'"
proof -
  note s = submit_fn_ok [OF assms(1)]
  have dist: "distinct (keys (db_Jobs d1))" using assms(3) by (simp add: s(5))
  note c = compactHot_facts [OF assms(2) dist]
  obtain js where js: "d' = d1\<lparr>db_Jobs := js\<rparr>" using c(2) by blast
  have m: "map_of (db_Jobs d1) (job_id j) = Some j" by (simp add: s(5))
  have "map_of (db_Jobs d') (job_id j) = Some j"
    using c(5) [OF m] c(4) [of "job_id j"] m assms(4)
    by (cases "map_of (db_Jobs d') (job_id j)") fastforce+
  moreover have "map_of (db_Jobs d) i = Some j'" if "i \<noteq> job_id j" "map_of (db_Jobs d') i = Some j'" for i j'
    using c(4) [OF that(2)] that(1) by (simp add: s(5) del: map_of_eq_Some_iff)
  ultimately show ?thesis using s js assms(4) by (auto simp: admits_def)
qed

lemma submit_keeps: "keeps_keys (submit_fn A j supply now)"
  by (auto simp: keeps_keys_def dest!: submit_fn_ok(5))

lemma vet_state: "vet_assignment A a now en = Inr (j, supply) \<Longrightarrow> job_State j = Accepted \<and> job_Assignment j = a
   \<and> VerifyEnvelope (ag_lib A) (asg_Release a) (ag_cfg A) now = Inr (job_Release j)"
  by (auto simp: vet_assignment_def new_job_def split: sum.splits option.splits if_splits)

lemma Submit_tries:
  assumes "Submit A busy a en = (r, en1)" "Now en = (now, en0)"
  obtains (plain) "en_store en1 = en_store en"
      "\<forall>j. r = Inr j \<longrightarrow> map_of (db_Jobs (data_of en)) (asg_JobID a) = Some j"
    | (tried) j dec eo f s where "vet_assignment A a now en0 = Inr (j, dec)"
      "Update (ag_lib A) (submit_fn A j dec now) (en_fs en0) (en_store en) = (eo, f, s)"
      "en_store en1 = s" "r = (case eo of None \<Rightarrow> Inr j | Some e \<Rightarrow> Inl e)"
  using assms Now_frame [OF assms(2)]
  by (auto simp: Submit_def View_def split: if_splits option.splits sum.splits prod.splits)

lemma Submit_cases:
  assumes "Submit A busy a en = (r, en1)" "store_ok (ag_lib A) (en_store en)"
  obtains (unchanged) "en_store en1 = en_store en"
    "\<forall>j. r = Inr j \<longrightarrow> map_of (db_Jobs (data_of en)) (asg_JobID a) = Some j"
  | (accepted) j now where "r = Inr j" "job_Assignment j = a" "admits (data_of en) j (data_of en1)"
      "durable (en_store en) = data_of en" "durable (en_store en1) = data_of en1"
      "VerifyEnvelope (ag_lib A) (asg_Release a) (ag_cfg A) now = Inr (job_Release j)"
      "store_ok (ag_lib A) (en_store en1)"
  | (unsure) j e now where "r = Inl e" "data_of en1 = data_of en" "job_Assignment j = a"
      "VerifyEnvelope (ag_lib A) (asg_Release a) (ag_cfg A) now = Inr (job_Release j)"
      "durable (en_store en) = data_of en"
      "durable (en_store en1) = durable (en_store en) \<or> admits (data_of en) j (durable (en_store en1))"
      "store_ok (ag_lib A) (en_store en1)"
proof -
  obtain now en0 where n: "Now en = (now, en0)" by fastforce
  from assms(1) n show thesis
  proof (cases rule: Submit_tries)
    case plain
    then show thesis by (rule unchanged)
  next
    case (tried j dec eo f s)
    note v = vet_state [OF tried(1)] and dist = store_ok_distinct [OF assms(2)]
    have ok1: "store_ok (ag_lib A) (en_store en1)"
      using Update_store_ok [OF tried(2) assms(2) submit_keeps] tried(3) by simp
    from tried(2) show thesis
    proof (cases rule: Update_cases)
      case (refused e)
      then show thesis using tried by (intro unchanged) auto
    next
      case (written next' spilled d)
      with submit_admits [OF written(3,4) dist] tried(3,4) v ok1 assms(2) show thesis
        by (intro accepted [of j now]) (auto simp: durable_def store_ok_def)
    next
      case (broken e next' spilled d)
      with submit_admits [OF broken(3,4) dist] tried(3,4) v ok1 assms(2) show thesis
        by (intro unsure [of e j now]) (auto simp: durable_def store_ok_def)
    qed
  qed
qed

end
