(* ===== verification/OTA_Supply.thy ===== *)
theory OTA_Supply
  imports OTA_Trust "HOL-Library.Sublist"
begin

text \<open>
  What the trust metadata of \<open>internal/ota/trustmeta.go\<close> guarantees: the chain of signed documents
  behind a release that passes \<open>evaluateSupplyChain\<close>, and the transparency log as an append-only
  hash chain.
\<close>

section \<open>What an accepted release has behind it\<close>

text \<open>The payload of the signed document in a file, with a threshold of valid signatures of a role.\<close>

definition signed_file :: "lib \<Rightarrow> fs \<Rightarrow> path \<Rightarrow> rootMeta \<Rightarrow> string \<Rightarrow> bytes \<Rightarrow> bool" where
  "signed_file L f p root n payload \<longleftrightarrow>
     (\<exists>doc. readSigned L f p = Inr (payload, doc)
        \<and> threshold_met L payload (ms_Signatures doc) (root_Keys root) (role_of root n))"

text \<open>
  The root in force: the stored one, or on first use the one with the pinned digest, or a newer one
  that both the stored root's keys and its own keys signed.
\<close>

definition trusted_root :: "lib \<Rightarrow> fs \<Rightarrow> Config \<Rightarrow> bytes \<Rightarrow> rootMeta \<Rightarrow> bytes \<Rightarrow> bool" where
  "trusted_root L f c stored root payload \<longleftrightarrow>
     StrictJSON (lib_dec_root L) payload = Inr root \<and>
     (if stored = [] then lib_sha256 L payload = cfg_RootSHA256 c \<and> signed_file L f (meta_file c ''root.json'') root ''root'' payload
      else payload = stored \<or>
        (\<exists>old. StrictJSON (lib_dec_root L) stored = Inr old \<and> root_Version old < root_Version root
           \<and> signed_file L f (meta_file c ''root.json'') old ''root'' payload \<and> signed_file L f (meta_file c ''root.json'') root ''root'' payload))"

definition key_authorized :: "rootMeta \<Rightarrow> string \<Rightarrow> Release \<Rightarrow> bool" where
  "key_authorized root key r \<longleftrightarrow>
     (\<exists>role. map_of (root_Roles root) ''targets'' = Some role \<and> key \<in> set (role_KeyIDs role)) \<or>
     (\<exists>d \<in> set (root_Delegations root). key \<in> set (del_KeyIDs d) \<and> set (releaseTypes r) \<subseteq> set (del_Types d))"

text \<open>
  The chain of documents: timestamp to snapshot by digest and version, snapshot to targets by digest
  and version, each unexpired and signed by a threshold of its role in \<open>root\<close>.
\<close>

definition document_chain ::
  "lib \<Rightarrow> fs \<Rightarrow> Config \<Rightarrow> rootMeta \<Rightarrow> time \<Rightarrow> timestampMeta \<Rightarrow> snapshotMeta \<Rightarrow> string \<Rightarrow> targetsMeta \<Rightarrow> bool" where
  "document_chain L f c root now ts snap sha tm \<longleftrightarrow>
     (\<exists>tp sp gp. StrictJSON (lib_dec_timestamp L) tp = Inr ts \<and> signed_file L f (meta_file c ''timestamp.json'') root ''timestamp'' tp
        \<and> StrictJSON (lib_dec_snapshot L) sp = Inr snap \<and> signed_file L f (meta_file c ''snapshot.json'') root ''snapshot'' sp
        \<and> StrictJSON (lib_dec_targets L) gp = Inr tm \<and> signed_file L f (meta_file c ''targets.json'') root ''targets'' gp
        \<and> sha = lib_sha256 L sp \<and> sha = ts_SnapshotSHA256 ts \<and> snap_Version snap = ts_SnapshotVersion ts
        \<and> lib_sha256 L gp = snap_TargetsSHA256 snap \<and> tm_Version tm = snap_TargetsVersion snap
        \<and> now < ts_Expires ts \<and> now < snap_Expires snap \<and> now < tm_Expires tm)"

lemma root_signed:
  "readSigned L f p = Inr (payload, doc) \<Longrightarrow> root_signed_by L root n payload doc = None \<Longrightarrow> signed_file L f p root n payload"
  unfolding root_signed_by_def signed_file_def by (blast dest: verifyThreshold_sound)

lemma loadRoot_trusted:
  assumes "loadRoot L f (cfg_TrustDir c) (cfg_RootSHA256 c) stored now = Inr (root, payload)"
  shows "trusted_root L f c stored root payload"
  using assms
proof (cases rule: loadRoot_cases)
  case first
  then show ?thesis by (auto simp: trusted_root_def signed_file_def meta_file_def)
next
  case same
  then show ?thesis by (simp add: trusted_root_def)
next
  case (rotated current doc)
  then show ?thesis by (auto simp: trusted_root_def signed_file_def meta_file_def)
qed

lemma delegation_types_None: "delegation_types d tys = None \<longleftrightarrow> set tys \<subseteq> set (del_Types d)"
  by (induction tys) auto

lemma authorize_delegated_None:
  "authorize_delegated key tys ds = None \<Longrightarrow>
     \<exists>d \<in> set ds. key \<in> set (del_KeyIDs d) \<and> set tys \<subseteq> set (del_Types d)"
  by (induction ds) (auto simp: delegation_types_None split: if_splits)

lemma authorizeReleaseKey_None:
  "authorizeReleaseKey root key (releaseTypes r) = None \<Longrightarrow> key_authorized root key r"
  unfolding authorizeReleaseKey_def key_authorized_def
  by (auto split: option.splits if_splits dest!: authorize_delegated_None)

lemma rejected_None: "rejected tm as = None \<longleftrightarrow> (\<forall>a \<in> set as. art_SHA256 a \<notin> set (tm_RejectSHA256 tm))"
  by (induction as) auto

lemma supply_parts:
  assumes "evaluateSupplyChain L f c db b key r now = Inr dec" "cfg_TrustDir c \<noteq> []"
  obtains root ts snap tm arts where
    "loadRoot L f (cfg_TrustDir c) (cfg_RootSHA256 c) (db_RootPayload db) now = Inr (root, sd_rootPayload dec)"
    "check_timestamp L f c root now = Inr ts" "check_snapshot L f c db root ts now = Inr (snap, sd_snapshotSHA dec)"
    "check_targets_meta L f c root snap now = Inr tm"
    "sd_payloadSHA dec = lib_sha256 L b" "lib_sha256 L b \<in> set (tm_ReleaseSHA256 tm)" "releaseArtifacts r = Inr arts"
    "rejected tm arts = None" "authorizeReleaseKey root key (releaseTypes r) = None"
    "sd_active dec" "sd_rootVersion dec = root_Version root" "sd_snapshotVersion dec = snap_Version snap"
  using assms
  by (auto simp: evaluateSupplyChain_def Let_def split: sum.splits prod.splits if_splits option.splits)

lemma check_chain:
  assumes "check_timestamp L f c root now = Inr ts" "check_snapshot L f c db root ts now = Inr (snap, sha)"
    and "check_targets_meta L f c root snap now = Inr tm"
  shows "document_chain L f c root now ts snap sha tm"
proof -
  obtain tp sp gp where
    "StrictJSON (lib_dec_timestamp L) tp = Inr ts" "signed_file L f (meta_file c ''timestamp.json'') root ''timestamp'' tp" "now < ts_Expires ts"
    "StrictJSON (lib_dec_snapshot L) sp = Inr snap" "signed_file L f (meta_file c ''snapshot.json'') root ''snapshot'' sp" "now < snap_Expires snap"
    "sha = lib_sha256 L sp" "sha = ts_SnapshotSHA256 ts" "snap_Version snap = ts_SnapshotVersion ts"
    "StrictJSON (lib_dec_targets L) gp = Inr tm" "signed_file L f (meta_file c ''targets.json'') root ''targets'' gp" "now < tm_Expires tm"
    "lib_sha256 L gp = snap_TargetsSHA256 snap" "tm_Version tm = snap_TargetsVersion snap"
    using assms
    by (auto simp: check_timestamp_def check_snapshot_def check_targets_meta_def Let_def
        split: sum.splits prod.splits if_splits option.splits intro: root_signed)
  then show ?thesis unfolding document_chain_def by blast
qed

lemma check_snapshot_fresh:
  assumes "check_snapshot L f c db root ts now = Inr (snap, sha)"
  shows "db_SnapshotVersion db \<le> snap_Version snap"
    "snap_Version snap = db_SnapshotVersion db \<Longrightarrow> db_SnapshotSHA db \<noteq> [] \<Longrightarrow> sha = db_SnapshotSHA db"
  using assms
  by (auto simp: check_snapshot_def Let_def split: sum.splits prod.splits if_splits option.splits)

text \<open>
  C9. With a trust directory configured, a release passes the supply-chain check only if everything
  behind it holds: the root is the stored one, the pinned one, or a newer one signed by a
  threshold of both old and new root keys; timestamp, snapshot and targets form a chain by digest
  and version, unexpired and signed by a threshold of distinct keys of their roles; the signed
  targets list the release's digest and reject none of its artifacts; the release key is a targets
  key or delegated for every payload type of the release; and the snapshot is no older than the
  recorded one, nor different bytes under the same version. The decision records these versions.
\<close>

theorem supply_chain_sound:
  assumes "evaluateSupplyChain L f c db payload key r now = Inr dec" "cfg_TrustDir c \<noteq> []"
  shows "\<exists>root ts snap tm arts. trusted_root L f c (db_RootPayload db) root (sd_rootPayload dec)
     \<and> document_chain L f c root now ts snap (sd_snapshotSHA dec) tm
     \<and> lib_sha256 L payload \<in> set (tm_ReleaseSHA256 tm)
     \<and> releaseArtifacts r = Inr arts \<and> (\<forall>a \<in> set arts. art_SHA256 a \<notin> set (tm_RejectSHA256 tm))
     \<and> key_authorized root key r
     \<and> db_SnapshotVersion db \<le> snap_Version snap
     \<and> (snap_Version snap = db_SnapshotVersion db \<longrightarrow> db_SnapshotSHA db \<noteq> [] \<longrightarrow> sd_snapshotSHA dec = db_SnapshotSHA db)
     \<and> sd_active dec \<and> sd_snapshotVersion dec = snap_Version snap \<and> sd_rootVersion dec = root_Version root
     \<and> sd_payloadSHA dec = lib_sha256 L payload"
proof -
  from supply_parts [OF assms] obtain root ts snap tm arts where
    p: "loadRoot L f (cfg_TrustDir c) (cfg_RootSHA256 c) (db_RootPayload db) now = Inr (root, sd_rootPayload dec)"
    "check_timestamp L f c root now = Inr ts" "check_snapshot L f c db root ts now = Inr (snap, sd_snapshotSHA dec)"
    "check_targets_meta L f c root snap now = Inr tm"
    and q: "sd_payloadSHA dec = lib_sha256 L payload" "lib_sha256 L payload \<in> set (tm_ReleaseSHA256 tm)" "releaseArtifacts r = Inr arts"
    "rejected tm arts = None" "authorizeReleaseKey root key (releaseTypes r) = None"
    "sd_active dec" "sd_rootVersion dec = root_Version root" "sd_snapshotVersion dec = snap_Version snap"
    by blast
  show ?thesis
    using loadRoot_trusted [OF p(1)] check_chain [OF p(2-4)] check_snapshot_fresh [OF p(3)]
      authorizeReleaseKey_None [OF q(5)] q(1-4,6-8) unfolding rejected_None by blast
qed

definition sample_role :: metaRole where
  "sample_role = \<lparr>role_Threshold = 2, role_KeyIDs = [''k1'', ''k2'']\<rparr>"

definition sample_root :: rootMeta where
  "sample_root = \<lparr>root_Schema = 1, root_Version = 1, root_Expires = 100, root_Keys = [(''k1'', ''p1''), (''k2'', ''p2'')],
     root_Roles = [(''root'', sample_role), (''timestamp'', sample_role), (''snapshot'', sample_role), (''targets'', sample_role)],
     root_Delegations = [\<lparr>del_Name = ''os'', del_Threshold = 1, del_KeyIDs = [''key''], del_Types = [''os.rauc'']\<rparr>]\<rparr>"

text \<open>A library in which documents are their names and a signature is the message itself.\<close>

definition sample_trust_lib :: lib where
  "sample_trust_lib = sample_lib\<lparr>
     lib_sha256 := (\<lambda>b. CHR ''#'' # b),
     lib_dec_multiSigned := (\<lambda>b. Inr (\<lparr>ms_Payload = b, ms_Signatures =
        [\<lparr>ks_KeyID = ''k1'', ks_Signature = b\<rparr>, \<lparr>ks_KeyID = ''zz'', ks_Signature = []\<rparr>,
         \<lparr>ks_KeyID = ''k1'', ks_Signature = []\<rparr>, \<lparr>ks_KeyID = ''k2'', ks_Signature = b\<rparr>]\<rparr>, [])),
     lib_dec_root := (\<lambda>b. Inr (sample_root, [])),
     lib_dec_timestamp := (\<lambda>b. Inr (\<lparr>ts_Version = 1, ts_Expires = 50, ts_SnapshotVersion = 7, ts_SnapshotSHA256 = ''#snap''\<rparr>, [])),
     lib_dec_snapshot := (\<lambda>b. Inr (\<lparr>snap_Version = 7, snap_Expires = 60, snap_TargetsVersion = 3, snap_TargetsSHA256 = ''#targets''\<rparr>, [])),
     lib_dec_targets := (\<lambda>b. Inr (\<lparr>tm_Version = 3, tm_Expires = 60, tm_ReleaseSHA256 = [''#1''], tm_RejectSHA256 = []\<rparr>, []))\<rparr>"

definition sample_trust_fs :: fs where
  "sample_trust_fs = \<lparr>fs_nodes =
      [([''t''], Directory), ([''t'', ''root.json''], RegFile ''root''), ([''t'', ''timestamp.json''], RegFile ''time''),
       ([''t'', ''snapshot.json''], RegFile ''snap''), ([''t'', ''targets.json''], RegFile ''targets'')],
     fs_fault = (\<lambda>_. None), fs_partial = (\<lambda>_. 0), fs_bavail = (\<lambda>_. 100), fs_bsize = 1\<rparr>"

definition sample_trust_config :: Config where
  "sample_trust_config = sample_config\<lparr>cfg_TrustDir := ''/t'', cfg_RootSHA256 := ''#root''\<rparr>"

theorem supply_chain_sound_witness:
  "\<exists>dec. evaluateSupplyChain sample_trust_lib sample_trust_fs sample_trust_config empty_Database ''1'' ''key''
      sample_release1 10 = Inr dec
     \<and> key_authorized sample_root ''key'' sample_release1 \<and> sd_active dec"
proof -
  let ?e = "evaluateSupplyChain sample_trust_lib sample_trust_fs sample_trust_config empty_Database ''1'' ''key'' sample_release1 10"
  have "is_ok ?e" by code_simp
  then obtain dec where dec: "?e = Inr dec" by (auto simp: is_ok_iff)
  have "cfg_TrustDir sample_trust_config \<noteq> []" by (simp add: sample_trust_config_def)
  from supply_chain_sound [OF dec this] obtain root and snap :: snapshotMeta where
    r: "trusted_root sample_trust_lib sample_trust_fs sample_trust_config (db_RootPayload empty_Database) root (sd_rootPayload dec)"
    "key_authorized root ''key'' sample_release1" "sd_snapshotVersion dec = snap_Version snap" "sd_active dec"
    by blast
  from r(1) have "root = sample_root"
    by (auto simp: trusted_root_def sample_trust_lib_def StrictJSON_def split: if_splits)
  with r dec show ?thesis by blast
qed

section \<open>The transparency log stays a hash chain\<close>

definition log_lines :: "string \<Rightarrow> string list" where
  "log_lines txt = filter (\<lambda>l. l \<noteq> []) (split_lines (trim_newline txt))"

fun chained :: "lib \<Rightarrow> string \<Rightarrow> string list \<Rightarrow> bool" where
  "chained L prev [] \<longleftrightarrow> True"
| "chained L prev (l # ls) \<longleftrightarrow> (case lib_dec_line L l of None \<Rightarrow> False
     | Some row \<Rightarrow> tl_Prev row = prev \<and> chained L (lib_sha256 L (l @ [CHR 0x0A])) ls)"

definition log_rows :: "lib \<Rightarrow> string \<Rightarrow> transparencyLine list" where
  "log_rows L txt = map (the \<circ> lib_dec_line L) (log_lines txt)"

definition log_ok :: "lib \<Rightarrow> string \<Rightarrow> bool" where
  "log_ok L txt \<longleftrightarrow> (txt = [] \<or> last txt = CHR 0x0A) \<and> chained L genesis (log_lines txt)
     \<and> distinct (map tl_PayloadSHA256 (log_rows L txt))"

definition log_text :: "fs \<Rightarrow> string \<Rightarrow> string" where
  "log_text f dir = (case node_at f (log_path dir) of Some (RegFile b) \<Rightarrow> b | _ \<Rightarrow> [])"

lemma split_lines_no_newline: "CHR 0x0A \<notin> set s \<Longrightarrow> split_lines s = [s]"
  by (induction s) auto

lemma split_lines_ne [simp]: "split_lines s \<noteq> []"
  by (induction s) (auto split: list.splits)

lemma split_lines_append: "split_lines (s @ CHR 0x0A # t) = split_lines s @ split_lines t"
  by (induction s) (auto split: list.splits)

lemma log_lines_append:
  assumes "txt = [] \<or> last txt = CHR 0x0A" "row \<noteq> []" "CHR 0x0A \<notin> set row"
  shows "log_lines (txt @ row @ [CHR 0x0A]) = log_lines txt @ [row]"
proof (cases "txt = []")
  case True
  with assms show ?thesis by (simp add: log_lines_def trim_newline_def split_lines_no_newline butlast_append)
next
  case False
  with assms obtain s where s: "txt = s @ [CHR 0x0A]" by (metis append_butlast_last_id)
  have "trim_newline (txt @ row @ [CHR 0x0A]) = s @ CHR 0x0A # row"
    by (simp add: trim_newline_def s butlast_append)
  with s show ?thesis
    using assms by (simp add: log_lines_def trim_newline_def split_lines_append split_lines_no_newline)
qed

fun chain_end :: "lib \<Rightarrow> string \<Rightarrow> string list \<Rightarrow> string" where
  "chain_end L prev [] = prev"
| "chain_end L prev (l # ls) = chain_end L (lib_sha256 L (l @ [CHR 0x0A])) ls"

lemma chained_append:
  "chained L prev (ls @ [l]) \<longleftrightarrow> chained L prev ls \<and>
     (case lib_dec_line L l of None \<Rightarrow> False | Some row \<Rightarrow> tl_Prev row = chain_end L prev ls)"
  by (induction ls arbitrary: prev) (auto split: option.splits)

text \<open>What the scan of the existing rows finds.\<close>

lemma scan_log_result:
  "case scan_log L i sha prev ls of
     LogBad e \<Rightarrow> True
   | LogPresent \<Rightarrow> \<exists>l \<in> set ls. l \<noteq> [] \<and> (\<exists>row. lib_dec_line L l = Some row \<and> tl_ReleaseID row = i \<and> tl_PayloadSHA256 row = sha)
   | LogEnd p \<Rightarrow> p = chain_end L prev (filter (\<lambda>l. l \<noteq> []) ls)
       \<and> (\<forall>l \<in> set ls. l \<noteq> [] \<longrightarrow> (\<exists>row. lib_dec_line L l = Some row \<and> tl_PayloadSHA256 row \<noteq> sha))"
proof (induction ls arbitrary: prev)
  case (Cons l ls)
  show ?case
    using Cons [of prev] Cons [of "lib_sha256 L (l @ [CHR 0x0A])"]
    by (auto split: option.splits log_scan.splits)
qed simp

lemma append_file_text:
  assumes "append_file (log_path dir) b f = (eo, f1)" "\<And>q. node_at f (log_path dir) \<noteq> Some (Symlink q)"
  shows "\<exists>k. log_text f1 dir = log_text f dir @ take k b \<and> (eo = None \<longrightarrow> log_text f1 dir = log_text f dir @ b)"
proof (cases "open_trunc (log_path dir) f")
  case (Inl e)
  with assms(1) show ?thesis by (intro exI [of _ 0]) (auto simp: append_file_def)
next
  case (Inr q)
  with assms(2) have q: "q = log_path dir" "log_path dir \<noteq> []"
    by (auto simp: open_trunc_def follow_plain log_path_def Join_def parent_ok_def
        split: option.splits node.splits if_splits)
  let ?old = "case node_at f (log_path dir) of Some (RegFile x) \<Rightarrow> x | _ \<Rightarrow> []"
  have "log_text (put_node (log_path dir) (RegFile (?old @ c)) f) dir = log_text f dir @ c" for c
    using q by (simp add: log_text_def node_at_put)
  with assms(1) Inr q show ?thesis
    by (auto simp: append_file_def Let_def split: option.splits intro: exI [of _ "length b"])
qed

lemma appendTransparency_reads:
  assumes "appendTransparency L dir releaseID sha f = (eo, f1)"
    and "\<And>q. node_at f (log_path dir) \<noteq> Some (Symlink q)"
    and "node_at f (log_path dir) \<noteq> None \<Longrightarrow> os_ReadFile f (log_path dir) \<noteq> Inl ErrNotExist"
  shows "append_row L dir releaseID sha (log_text f dir) f = (eo, f1) \<or> (\<exists>e. eo = Some e \<and> f1 = f)"
proof (cases "os_ReadFile f (log_path dir)")
  case (Inl e)
  with assms(1,3) show ?thesis
    by (cases "node_at f (log_path dir)")
      (auto simp: appendTransparency_def log_text_def IsNotExist_def split: if_splits)
next
  case (Inr b)
  with assms(2) have "log_text f dir = b"
    by (auto simp: os_ReadFile_def log_text_def follow_plain split: option.splits node.splits)
  with assms(1) Inr show ?thesis by (simp add: appendTransparency_def)
qed

lemma appended_row_ok:
  assumes "log_ok L txt" "scan_log L releaseID sha genesis (split_lines (trim_newline txt)) = LogEnd prev"
    and "lib_dec_line L row = Some \<lparr>tl_Prev = prev, tl_ReleaseID = releaseID, tl_PayloadSHA256 = sha\<rparr>" "row \<noteq> []" "CHR 0x0A \<notin> set row"
  shows "log_ok L (txt @ row @ [CHR 0x0A])
    \<and> (\<exists>r \<in> set (log_rows L (txt @ row @ [CHR 0x0A])). tl_ReleaseID r = releaseID \<and> tl_PayloadSHA256 r = sha)"
proof -
  have "txt = [] \<or> last txt = CHR 0x0A" using assms(1) by (simp add: log_ok_def)
  with assms(4,5) have new: "log_lines (txt @ row @ [CHR 0x0A]) = log_lines txt @ [row]" by (simp add: log_lines_append)
  have scan: "prev = chain_end L genesis (log_lines txt)" "\<forall>r \<in> set (log_rows L txt). tl_PayloadSHA256 r \<noteq> sha"
    using scan_log_result [where L = L and i = releaseID and sha = sha and prev = genesis
        and ls = "split_lines (trim_newline txt)"] assms(2)
    by (auto simp: log_rows_def log_lines_def)
  show ?thesis using assms(1,3-5) scan by (auto simp: log_ok_def log_rows_def new chained_append)
qed

text \<open>
  C18. The transparency log is append-only and stays a chain of digests: whatever happens, what was
  in the log file remains a prefix of it; and when recording a release succeeds, every row still
  carries the digest of the row before it, no payload digest occurs twice, and the release and
  its payload digest are in the log. The row codec is assumed to decode what it encoded and to put no
  line break in a row.
\<close>

theorem transparency_log_append_only:
  assumes codec: "\<And>l b. lib_enc_line L l = Inr b \<Longrightarrow> lib_dec_line L b = Some l \<and> b \<noteq> [] \<and> CHR 0x0A \<notin> set b"
    and plain: "\<And>q. node_at f (log_path dir) \<noteq> Some (Symlink q)"
    and honest: "node_at f (log_path dir) \<noteq> None \<Longrightarrow> os_ReadFile f (log_path dir) \<noteq> Inl ErrNotExist"
    and ok: "log_ok L (log_text f dir)"
    and run: "appendTransparency L dir releaseID sha f = (eo, f1)"
  shows "prefix (log_text f dir) (log_text f1 dir) \<and>
    (eo = None \<longrightarrow> log_ok L (log_text f1 dir)
       \<and> (\<exists>row \<in> set (log_rows L (log_text f1 dir)). tl_ReleaseID row = releaseID \<and> tl_PayloadSHA256 row = sha))"
proof -
  let ?t = "log_text f dir"
  have lines: "?t = [] \<or> last ?t = CHR 0x0A" using ok by (simp add: log_ok_def)
  consider (failed) e where "eo = Some e" "f1 = f"
    | (present) "eo = None" "f1 = f" "scan_log L releaseID sha genesis (split_lines (trim_newline ?t)) = LogPresent"
    | (appended) prev row where "scan_log L releaseID sha genesis (split_lines (trim_newline ?t)) = LogEnd prev"
        "lib_enc_line L \<lparr>tl_Prev = prev, tl_ReleaseID = releaseID, tl_PayloadSHA256 = sha\<rparr> = Inr row"
        "append_file (log_path dir) (row @ [CHR 0x0A]) f = (eo, f1)"
    using appendTransparency_reads [OF run plain honest] lines
    by (auto simp: append_row_def split: if_splits log_scan.splits sum.splits)
  then show ?thesis
  proof cases
    case present
    with scan_log_result [where L = L and i = releaseID and sha = sha and prev = genesis
        and ls = "split_lines (trim_newline ?t)"] ok show ?thesis
      by (force simp: log_rows_def log_lines_def)
  next
    case (appended prev row)
    from codec [OF appended(2)] have "log_ok L (?t @ row @ [CHR 0x0A])
        \<and> (\<exists>r \<in> set (log_rows L (?t @ row @ [CHR 0x0A])). tl_ReleaseID r = releaseID \<and> tl_PayloadSHA256 r = sha)"
      by (intro appended_row_ok [OF ok appended(1)]) auto
    with append_file_text [OF appended(3) plain] show ?thesis by auto
  qed auto
qed

definition sample_log_lib :: lib where
  "sample_log_lib = sample_lib\<lparr>lib_sha256 := (\<lambda>b. ''h''),
     lib_enc_line := (\<lambda>l. if l = \<lparr>tl_Prev = genesis, tl_ReleaseID = ''r1'', tl_PayloadSHA256 = ''d1''\<rparr> then Inr ''a''
        else if l = \<lparr>tl_Prev = ''h'', tl_ReleaseID = ''r2'', tl_PayloadSHA256 = ''d2''\<rparr> then Inr ''b'' else Inl sample_err),
     lib_dec_line := (\<lambda>b. if b = ''a'' then Some \<lparr>tl_Prev = genesis, tl_ReleaseID = ''r1'', tl_PayloadSHA256 = ''d1''\<rparr>
        else if b = ''b'' then Some \<lparr>tl_Prev = ''h'', tl_ReleaseID = ''r2'', tl_PayloadSHA256 = ''d2''\<rparr> else None)\<rparr>"

definition sample_log_fs :: fs where
  "sample_log_fs = \<lparr>fs_nodes = [([''s''], Directory), ([''s'', ''transparency.log''], RegFile [CHR ''a'', CHR 0x0A])],
     fs_fault = (\<lambda>_. None), fs_partial = (\<lambda>_. 0), fs_bavail = (\<lambda>_. 100), fs_bsize = 1\<rparr>"

theorem transparency_log_append_only_witness:
  "log_ok sample_log_lib (log_text (snd (appendTransparency sample_log_lib ''/s'' ''r2'' ''d2'' sample_log_fs)) ''/s'')"
proof -
  let ?f = "sample_log_fs"
  obtain f1 where run: "appendTransparency sample_log_lib ''/s'' ''r2'' ''d2'' ?f = (None, f1)"
  proof -
    have "fst (appendTransparency sample_log_lib ''/s'' ''r2'' ''d2'' ?f) = None" by code_simp
    then show thesis using that by (metis prod.collapse)
  qed
  have "node_at ?f (log_path ''/s'') = Some (RegFile [CHR ''a'', CHR 0x0A])" by code_simp
  moreover have "os_ReadFile ?f (log_path ''/s'') \<noteq> Inl ErrNotExist" by code_simp
  moreover have "log_ok sample_log_lib (log_text ?f ''/s'')" by code_simp
  moreover have "lib_enc_line sample_log_lib l = Inr b \<Longrightarrow>
      lib_dec_line sample_log_lib b = Some l \<and> b \<noteq> [] \<and> CHR 0x0A \<notin> set b" for l b
    by (auto simp: sample_log_lib_def split: if_splits)
  ultimately have "log_ok sample_log_lib (log_text f1 ''/s'')"
    using transparency_log_append_only [OF _ _ _ _ run] by simp
  with run show ?thesis by simp
qed

end
