(* ===== verification/OTA_Execution.thy ===== *)
theory OTA_Execution
  imports OTA_Lifecycle OTA_Supply
begin

text \<open>
  Executions of the agent: \<open>agent_step\<close> lets the handlers of the engine, the outside world and
  process restarts interleave freely, and the invariants of the agent follow by rule induction
  over its reachable states. \<open>Ack\<close> takes only the lock of the store, so it may run between two
  writes of another handler; \<open>ack_commutes\<close> shows that its place among them does not matter.
\<close>

section \<open>All executions\<close>

text \<open>
  One event of the agent's life: a handler runs to completion (the mutex serialises them); anything
  outside the journal changes (clock, network, device, files, probes); or the process dies and a
  new one loads the journal from disk.
\<close>

inductive agent_step :: "'b agent \<Rightarrow> 'b engine \<Rightarrow> 'b engine \<Rightarrow> bool" for A where
  stepped: "Step A en = (eo, en1) \<Longrightarrow> agent_step A en en1"
| submitted: "Submit A busy a en = (r, en1) \<Longrightarrow> agent_step A en en1"
| reboot_requested: "RequestReboot A busy en = (eo, en1) \<Longrightarrow> agent_step A en en1"
| abort_requested: "RecoverAbort A busy en = (eo, en1) \<Longrightarrow> agent_step A en en1"
| acknowledged: "Ack A n en = (eo, en1) \<Longrightarrow> agent_step A en en1"
| collected: "GC A busy en = (eo, en1) \<Longrightarrow> agent_step A en en1"
| world: "en_store en1 = en_store en \<Longrightarrow> agent_step A en en1"
| restarted: "os_ReadFile (en_fs en) (legacy_path (sdir A)) = Inl ErrNotExist \<Longrightarrow>
    load (ag_lib A) (sdir A) None (fresh_store (en_store en)) (en_fs en) = (None, s1, f1) \<Longrightarrow>
    agent_step A en (en\<lparr>en_store := s1, en_fs := f1, en_healthySince := 0, en_stats := zero_Stats, en_queue := []\<rparr>)"

inductive reachable :: "'b agent \<Rightarrow> 'b engine \<Rightarrow> bool" for A where
  provisioned: "data_of en = empty_Database \<Longrightarrow> st_row (en_store en) = None \<Longrightarrow> reachable A en"
| onward: "reachable A en \<Longrightarrow> agent_step A en en1 \<Longrightarrow> reachable A en1"

text \<open>
  How a journal may develop: the sequence bound never falls, and each job is an earlier one moved
  along the lifecycle with its assignment and release unchanged, or a newer release than the bound allowed before.
\<close>

definition evolve :: "Database \<Rightarrow> Database \<Rightarrow> bool" where
  "evolve d d' \<longleftrightarrow> db_HighSequence d \<le> db_HighSequence d'
     \<and> (\<forall>i j'. map_of (db_Jobs d') i = Some j' \<longrightarrow>
          (\<exists>j. map_of (db_Jobs d) i = Some j \<and> same_job j j' \<and> transition\<^sup>*\<^sup>* (job_State j) (job_State j'))
          \<or> db_HighSequence d < rel_Sequence (job_Release j'))"

lemma evolve_refl [simp]: "evolve d d"
  by (auto simp: evolve_def)

lemma advance_evolve: "advance d d' \<Longrightarrow> evolve d d'"
  unfolding advance_def evolve_def by simp

lemma admits_evolve: "admits d j d' \<Longrightarrow> evolve d d'"
  unfolding evolve_def
proof (intro conjI allI impI)
  assume a: "admits d j d'"
  then show "db_HighSequence d \<le> db_HighSequence d'" by (auto simp: admits_def)
  fix i j' assume m: "map_of (db_Jobs d') i = Some j'"
  show "(\<exists>j. map_of (db_Jobs d) i = Some j \<and> same_job j j' \<and> transition\<^sup>*\<^sup>* (job_State j) (job_State j'))
      \<or> db_HighSequence d < rel_Sequence (job_Release j')"
  proof (cases "i = job_id j")
    case True
    with a m show ?thesis by (simp add: admits_def del: map_of_eq_Some_iff)
  next
    case False
    with a m have "map_of (db_Jobs d) i = Some j'" unfolding admits_def by blast
    then show ?thesis by auto
  qed
qed

lemma evolve_trans:
  assumes ab: "evolve a b" and bc: "evolve b c"
  shows "evolve a c"
  unfolding evolve_def
proof (intro conjI allI impI)
  show "db_HighSequence a \<le> db_HighSequence c" using assms by (auto simp: evolve_def)
  fix i j' assume "map_of (db_Jobs c) i = Some j'"
  with bc consider k where "map_of (db_Jobs b) i = Some k" "same_job k j'" "transition\<^sup>*\<^sup>* (job_State k) (job_State j')"
    | "db_HighSequence b < rel_Sequence (job_Release j')"
    unfolding evolve_def by blast
  then show "(\<exists>j. map_of (db_Jobs a) i = Some j \<and> same_job j j' \<and> transition\<^sup>*\<^sup>* (job_State j) (job_State j'))
      \<or> db_HighSequence a < rel_Sequence (job_Release j')"
  proof cases
    case (1 k)
    with ab consider l where "map_of (db_Jobs a) i = Some l" "same_job l k" "transition\<^sup>*\<^sup>* (job_State l) (job_State k)"
      | "db_HighSequence a < rel_Sequence (job_Release k)"
      unfolding evolve_def by blast
    then show ?thesis
    proof cases
      case (1 l)
      with \<open>same_job k j'\<close> \<open>transition\<^sup>*\<^sup>* (job_State k) (job_State j')\<close> show ?thesis
        by (meson same_job_trans rtranclp_trans)
    next
      case 2
      with \<open>same_job k j'\<close> show ?thesis by (simp add: same_job_def)
    qed
  next
    case 2
    with ab show ?thesis by (auto simp: evolve_def)
  qed
qed

lemma evolve_forward:
  assumes "evolve d d'" "map_of (db_Jobs d) i = Some j" "map_of (db_Jobs d') i = Some j'"
  shows "job_State j \<le> job_State j' \<or> db_HighSequence d < rel_Sequence (job_Release j')"
  using assms unfolding evolve_def by (metis option.inject transitions_forward)

text \<open>
  Every event is a handler run that only advances the journal, a \<open>Submit\<close>, or leaves the journal on
  disk alone.
\<close>

lemma agent_step_kinds:
  assumes "agent_step A en en1" "store_ok (ag_lib A) (en_store en)"
  obtains (progressed) "prog A en ((), en1)"
  | (submitting) busy a r where "Submit A busy a en = (r, en1)"
  | (kept) "durable (en_store en1) = durable (en_store en)" "store_ok (ag_lib A) (en_store en1)"
      "data_of en1 = data_of en \<or> data_of en1 = durable (en_store en)"
proof -
  have any: "prog A en (x, en1) \<Longrightarrow> thesis" for x :: "error option"
    using progressed by (simp add: prog_def)
  from assms(1) show thesis
  proof cases
    case (stepped eo)
    with Step_prog [OF assms(2)] any show thesis by metis
  next
    case (submitted busy a r)
    then show thesis by (rule submitting)
  next
    case (reboot_requested busy eo)
    with RequestReboot_prog [OF assms(2)] any show thesis by metis
  next
    case (abort_requested busy eo)
    with RecoverAbort_prog [OF assms(2)] any show thesis by metis
  next
    case (acknowledged n eo)
    with Ack_prog [OF assms(2)] any show thesis by metis
  next
    case (collected busy eo)
    with GC_prog [OF assms(2)] any show thesis by metis
  next
    case world
    with assms(2) show thesis by (intro kept) simp_all
  next
    case (restarted s1 f1)
    from load_fresh [OF assms(2) restarted(2)] restarted(3)
    have "st_data s1 = durable (en_store en)" "store_ok (ag_lib A) s1" "\<not> st_poisoned s1" by auto
    then have "durable s1 = durable (en_store en)" by (simp add: store_ok_def)
    with \<open>store_ok (ag_lib A) s1\<close> \<open>st_data s1 = durable (en_store en)\<close> restarted(1) show thesis
      by (intro kept) simp_all
  qed
qed

lemma agent_step_evolve:
  assumes "agent_step A en en1" "store_ok (ag_lib A) (en_store en)"
  shows "store_ok (ag_lib A) (en_store en1) \<and> evolve (durable (en_store en)) (durable (en_store en1))"
  using assms
proof (cases rule: agent_step_kinds)
  case progressed
  then show ?thesis by (auto simp: prog_def sadvance_def intro: advance_evolve)
next
  case (submitting busy a r)
  then show ?thesis using assms(2)
    by (cases rule: Submit_cases) (use assms(2) in \<open>auto dest: admits_evolve\<close>)
qed auto

lemma reachable_store_ok: "reachable A en \<Longrightarrow> store_ok (ag_lib A) (en_store en)"
proof (induction rule: reachable.induct)
  case (provisioned en)
  then show ?case by (simp add: store_ok_def durable_def)
next
  case (onward en en1)
  then show ?case using agent_step_evolve by blast
qed

lemma execution_evolves:
  assumes "(agent_step A)\<^sup>*\<^sup>* en en1" "store_ok (ag_lib A) (en_store en)"
  shows "store_ok (ag_lib A) (en_store en1) \<and> evolve (durable (en_store en)) (durable (en_store en1))"
  using assms(1)
proof (induction rule: rtranclp_induct)
  case base
  then show ?case using assms(2) by simp
next
  case (step b c)
  with agent_step_evolve [of A b c] show ?case by (blast intro: evolve_trans)
qed

lemma evolve_terminal:
  assumes "evolve d d'" "map_of (db_Jobs d) i = Some j" "Terminal (job_State j)"
    and "map_of (db_Jobs d') i = Some j'"
  shows "job_State j' = job_State j \<and> same_job j j' \<or> db_HighSequence d < rel_Sequence (job_Release j')"
  using assms transitions_terminal unfolding evolve_def by (metis option.inject)

section \<open>Authentic releases\<close>

text \<open>
  The release of a job is the one in the signed envelope of its assignment. What an envelope yields
  does not depend on the time at which it is verified.
\<close>

definition authentic :: "'b agent \<Rightarrow> Database \<Rightarrow> bool" where
  "authentic A d \<longleftrightarrow> (\<forall>i j. map_of (db_Jobs d) i = Some j \<longrightarrow>
     (\<exists>now. VerifyEnvelope (ag_lib A) (asg_Release (job_Assignment j)) (ag_cfg A) now = Inr (job_Release j)))"

lemma VerifyEnvelope_timeless:
  "VerifyEnvelope L env c now = Inr r \<Longrightarrow> VerifyEnvelope L env c now' = Inr r' \<Longrightarrow> r' = r"
  by (auto simp: VerifyEnvelope_iff)

lemma advance_authentic: "advance d d' \<Longrightarrow> authentic A d \<Longrightarrow> authentic A d'"
proof -
  assume a: "advance d d'" and d: "authentic A d"
  have "\<exists>now. VerifyEnvelope (ag_lib A) (asg_Release (job_Assignment j')) (ag_cfg A) now = Inr (job_Release j')"
    if m: "map_of (db_Jobs d') i = Some j'" for i j'
  proof -
    obtain j where j: "map_of (db_Jobs d) i = Some j" "same_job j j'" using a m unfolding advance_def by blast
    with d show ?thesis unfolding authentic_def same_job_def by auto
  qed
  then show ?thesis unfolding authentic_def by blast
qed

lemma admits_authentic:
  "admits d j d' \<Longrightarrow> authentic A d \<Longrightarrow>
     VerifyEnvelope (ag_lib A) (asg_Release (job_Assignment j)) (ag_cfg A) now = Inr (job_Release j) \<Longrightarrow> authentic A d'"
proof -
  assume a: "admits d j d'" and d: "authentic A d"
    and v: "VerifyEnvelope (ag_lib A) (asg_Release (job_Assignment j)) (ag_cfg A) now = Inr (job_Release j)"
  have "\<exists>now. VerifyEnvelope (ag_lib A) (asg_Release (job_Assignment j')) (ag_cfg A) now = Inr (job_Release j')"
    if m: "map_of (db_Jobs d') i = Some j'" for i j'
  proof (cases "i = job_id j")
    case True
    with a m have "j' = j" by (simp add: admits_def del: map_of_eq_Some_iff)
    with v show ?thesis by blast
  next
    case False
    with a m have "map_of (db_Jobs d) i = Some j'" unfolding admits_def by blast
    with d show ?thesis unfolding authentic_def by blast
  qed
  then show ?thesis unfolding authentic_def by blast
qed

lemma reachable_authentic: "reachable A en \<Longrightarrow> authentic A (data_of en) \<and> authentic A (durable (en_store en))"
proof (induction rule: reachable.induct)
  case (provisioned en)
  then show ?case by (simp add: authentic_def durable_def empty_Database_def)
next
  case (onward en en1)
  note ok = reachable_store_ok [OF onward.hyps(1)]
  from onward.hyps(2) ok show ?case
  proof (cases rule: agent_step_kinds)
    case progressed
    with onward.IH show ?thesis by (auto simp: prog_def sadvance_def dest: advance_authentic)
  next
    case (submitting busy a r)
    then show ?thesis using ok
      by (cases rule: Submit_cases) (use onward.IH in \<open>auto dest: admits_authentic\<close>)
  next
    case kept
    with onward.IH show ?thesis by auto
  qed
qed

section \<open>Trust metadata\<close>

text \<open>The version of the recorded root, 0 before the first one.\<close>

definition root_version :: "lib \<Rightarrow> bytes \<Rightarrow> u64" where
  "root_version L b = (if b = [] then 0
     else case StrictJSON (lib_dec_root L) b of Inl e \<Rightarrow> 0 | Inr root \<Rightarrow> root_Version root)"

definition trust_grows :: "lib \<Rightarrow> Database \<Rightarrow> Database \<Rightarrow> bool" where
  "trust_grows L d d' \<longleftrightarrow> db_SnapshotVersion d \<le> db_SnapshotVersion d'
     \<and> root_version L (db_RootPayload d) \<le> root_version L (db_RootPayload d')"

lemma trust_grows_refl [simp]: "trust_grows L d d" by (simp add: trust_grows_def)

lemma trust_grows_trans: "trust_grows L a b \<Longrightarrow> trust_grows L b c \<Longrightarrow> trust_grows L a c"
  unfolding trust_grows_def by (meson order_trans)

lemma advance_trust: "advance d d' \<Longrightarrow> trust_grows L d d'"
  by (simp add: advance_def trust_of_def trust_grows_def)

lemma loadRoot_version:
  assumes "loadRoot L f dir pinned stored now = Inr (root, payload)"
  shows "root_version L stored \<le> root_version L payload"
  using assms
proof (cases rule: loadRoot_cases)
  case (rotated current doc)
  then show ?thesis by (cases "payload = []") (auto simp: root_version_def readSigned_def split: sum.splits if_splits)
qed (auto simp: root_version_def)

lemma evaluate_trust:
  assumes "evaluateSupplyChain L f c d b key r now = Inr dec" "sd_active dec"
  shows "trust_grows L d (e\<lparr>db_RootPayload := sd_rootPayload dec, db_SnapshotVersion := sd_snapshotVersion dec\<rparr>)"
proof -
  have "cfg_TrustDir c \<noteq> []" using assms by (auto simp: evaluateSupplyChain_def no_decision_def)
  from supply_parts [OF assms(1) this] obtain root ts and snap :: snapshotMeta where
    "loadRoot L f (cfg_TrustDir c) (cfg_RootSHA256 c) (db_RootPayload d) now = Inr (root, sd_rootPayload dec)"
    "check_snapshot L f c d root ts now = Inr (snap, sd_snapshotSHA dec)" "sd_snapshotVersion dec = snap_Version snap"
    by metis
  with loadRoot_version check_snapshot_fresh show ?thesis by (auto simp: trust_grows_def)
qed

lemma submit_fn_trust:
  assumes "vet_assignment A a now en = Inr (j, dec)" "submit_fn A j dec now (data_of en) f = (Inr d1, f1)"
    and "compactHot d1 = Inr (sp, d')" "distinct (keys (db_Jobs (data_of en)))"
  shows "trust_grows (ag_lib A) (data_of en) d'"
proof -
  have dist: "distinct (keys (db_Jobs d1))" using assms(4) by (simp add: submit_fn_ok(5) [OF assms(2)])
  obtain js where js: "d' = d1\<lparr>db_Jobs := js\<rparr>" using compactHot_facts(2) [OF assms(3) dist] by blast
  obtain r key b where e: "evaluateSupplyChain (ag_lib A) (en_fs en) (ag_cfg A) (data_of en) b key r now = Inr dec"
    using assms(1) by (auto simp: vet_assignment_def View_def split: sum.splits option.splits if_splits)
  have "trust_of d1 = (if sd_active dec then (sd_rootPayload dec, sd_snapshotVersion dec) else trust_of (data_of en))"
    using assms(2)
    by (auto simp: submit_fn_def Let_def addEvent_def applySupplyChain_def trust_of_def
        split: if_splits sum.splits prod.splits option.splits)
  with evaluate_trust [OF e, of d1] js show ?thesis
    by (auto simp: trust_grows_def trust_of_def split: if_splits)
qed

lemma Submit_trust:
  assumes "Submit A busy a en = (r, en1)" "store_ok (ag_lib A) (en_store en)"
  shows "trust_grows (ag_lib A) (durable (en_store en)) (durable (en_store en1))"
proof -
  obtain now en0 where n: "Now en = (now, en0)" by fastforce
  note e0 = Now_frame [OF n]
  consider (plain) "en_store en1 = en_store en"
    | (tried) j dec eo f where "vet_assignment A a now en0 = Inr (j, dec)"
      "Update (ag_lib A) (submit_fn A j dec now) (en_fs en0) (en_store en) = (eo, f, en_store en1)"
    using assms(1) n e0
    by (auto simp: Submit_def View_def split: if_splits option.splits sum.splits prod.splits)
  then show ?thesis
  proof cases
    case (tried j dec eo f)
    have dist: "distinct (keys (db_Jobs (data_of en0)))" using assms(2) e0 by (simp add: store_ok_distinct)
    note grows = submit_fn_trust [OF tried(1) _ _ dist]
    have disk: "\<not> st_poisoned (en_store en) \<Longrightarrow> durable (en_store en) = data_of en"
      using assms(2) by (simp add: store_ok_def)
    from tried(2) show ?thesis
    proof (cases rule: Update_cases)
      case (written next' spilled d)
      with grows [of "en_fs en0" next' f spilled d] e0 disk show ?thesis by (auto simp: durable_def)
    next
      case (broken e next' spilled d)
      with grows [of "en_fs en0" next' f spilled d] e0 disk show ?thesis by (auto simp: durable_def)
    qed auto
  qed simp
qed

lemma agent_step_trust:
  assumes "agent_step A en en1" "store_ok (ag_lib A) (en_store en)"
  shows "trust_grows (ag_lib A) (durable (en_store en)) (durable (en_store en1))"
  using assms
proof (cases rule: agent_step_kinds)
  case progressed
  then show ?thesis by (auto simp: prog_def sadvance_def intro: advance_trust)
next
  case (submitting busy a r)
  then show ?thesis using assms(2) by (rule Submit_trust)
qed auto

lemma execution_trust:
  assumes "(agent_step A)\<^sup>*\<^sup>* en en1" "store_ok (ag_lib A) (en_store en)"
  shows "trust_grows (ag_lib A) (durable (en_store en)) (durable (en_store en1))"
  using assms(1)
proof (induction rule: rtranclp_induct)
  case (step b c)
  have "store_ok (ag_lib A) (en_store b)" using execution_evolves [OF step.hyps(1) assms(2)] by simp
  with step agent_step_trust show ?case by (blast intro: trust_grows_trans)
qed simp

section \<open>Properties of every execution\<close>

definition sample_agent :: "simulator agent" where
  "sample_agent = (NewEngine sample_lib (\<lambda>_. 0) sample_config (Simulator sample_lib))\<lparr>ag_spans := True\<rparr>"

definition sample_engine :: "simulator engine" where
  "sample_engine = \<lparr>en_store = sample_store\<lparr>st_env := (\<lambda>_. Stored)\<rparr>, en_fs = sample_empty_fs, en_dev = sample_sim,
     en_net = sample_net, en_probes = sample_probes, en_healthySince = 0, en_stats = zero_Stats,
     en_clock = (\<lambda>n. 10 + int n), en_tick = 0, en_elapsed = 1, en_rng = (\<lambda>d n. Inr ''r''), en_draws = 0,
     en_queue = []\<rparr>"

lemma sample_reachable: "reachable sample_agent sample_engine"
  by (rule provisioned) (simp_all add: sample_engine_def sample_store_def)

lemma sample_agent_simps [simp]:
  "ag_lib sample_agent = sample_lib" "ag_cfg sample_agent = sample_config" "ag_measured sample_agent = None"
  by (simp_all add: sample_agent_def)

lemma sample_verifies: "VerifyEnvelope sample_lib sample_envelope sample_config 10 = Inr sample_release1"
proof -
  have "(case VerifyEnvelope sample_lib sample_envelope sample_config 10 of Inr r \<Rightarrow> rel_ID r = ''r1'' | _ \<Rightarrow> False)" by code_simp
  then obtain r where r: "VerifyEnvelope sample_lib sample_envelope sample_config 10 = Inr r" by (auto split: sum.splits)
  moreover from r have "r = sample_release1"
    by (auto simp: VerifyEnvelope_iff StrictJSON_def effective_release_def sample_defs OSTarget_def split: sum.splits if_splits)
  ultimately show ?thesis by simp
qed

definition sample_new_job :: Job where
  "sample_new_job = new_job sample_lib sample_assignment sample_release1 10"

lemma sample_submits: "\<exists>en2. Submit sample_agent False sample_assignment sample_engine = (Inr sample_new_job, en2)"
proof -
  let ?j = "new_job sample_lib sample_assignment sample_release1 10"
  have id: "is_identifier ''j1''" by code_simp
  have vet: "vet_assignment sample_agent sample_assignment 10 (sample_engine\<lparr>en_tick := 1\<rparr>) = Inr (?j, no_decision)"
    using sample_verifies
    by (simp add: vet_assignment_def gateMeasuredBoot_def evaluateSupplyChain_def sample_defs)
  let ?d = "empty_Database\<lparr>db_HighSequence := 1, db_Active := ''j1'', db_Jobs := [(''j1'', ?j)], db_EventSequence := 1,
     db_Events := [\<lparr>ev_Sequence = 1, ev_JobID = ''j1'', ev_State = Accepted, ev_Error = [], ev_Time = 10\<rparr>]\<rparr>"
  have fn: "submit_fn sample_agent ?j no_decision 10 empty_Database f = (Inr ?d, f)" for f
    by (simp add: submit_fn_def Let_def addEvent_def applySupplyChain_def no_decision_def new_job_def sample_defs empty_Database_def hotEventLimit_def)
  have c: "compactHot ?d = Inr ([], ?d)"
    by (simp add: compactHot_def compact_loop.simps hotJobLimit_def eventLimit_def)
  have v: "validateDatabase sample_lib ?d = None"
    by (simp add: validateDatabase_def validate_job_def validate_active_def new_job_def sample_defs empty_Database_def hotJobLimit_def eventLimit_def Fingerprint_def)
  have e: "db_Jobs empty_Database = []" by (simp add: empty_Database_def)
  show ?thesis
    using vet fn [of sample_empty_fs] c v id e
    by (simp add: Submit_def Now_def sample_new_job_def sample_engine_def sample_store_def View_def Update_def persist_def Let_def sample_assignment_def sample_config_def)
qed
text \<open>
  C7. In every reachable state, after any interleaving of handlers, outside events, storage
  failures and restarts, both the journal in memory and the one on disk are valid: at most one
  job is unfinished and it is the active one, jobs carry the fingerprint of their assignment, no job is newer than
  the sequence bound, and events are strictly ordered.
\<close>

theorem journal_always_valid:
  assumes "reachable A en"
  shows "journal_ok (ag_lib A) (data_of en) \<and> journal_ok (ag_lib A) (durable (en_store en))"
  using reachable_store_ok [OF assms] by (simp add: store_ok_def good_db_def)

theorem journal_always_valid_witness:
  "\<exists>j en2. Submit sample_agent False sample_assignment sample_engine = (Inr j, en2)
     \<and> journal_ok (ag_lib sample_agent) (data_of en2)"
proof -
  obtain j en2 where s: "Submit sample_agent False sample_assignment sample_engine = (Inr j, en2)"
    using sample_submits by blast
  have "reachable sample_agent en2" by (rule onward [OF sample_reachable submitted [OF s]])
  with journal_always_valid s show ?thesis by blast
qed

text \<open>
  C8. Durable history. Along any execution from a reachable state, restarts included, the journal
  on disk only evolves: its sequence bound never falls, and each job in it is either a job that was there before, with the same
  assignment and release, whose state moved along the lifecycle transitions, or a release newer than the
  bound was at the start.
\<close>

theorem durable_history:
  assumes "reachable A en" "(agent_step A)\<^sup>*\<^sup>* en en1"
  shows "evolve (durable (en_store en)) (durable (en_store en1))"
  using execution_evolves [OF assms(2) reachable_store_ok [OF assms(1)]] by simp

theorem durable_history_witness:
  "\<exists>j en2. Submit sample_agent False sample_assignment sample_engine = (Inr j, en2)
     \<and> evolve (durable (en_store sample_engine)) (durable (en_store en2))"
proof -
  obtain j en2 where s: "Submit sample_agent False sample_assignment sample_engine = (Inr j, en2)"
    using sample_submits by blast
  then have "(agent_step sample_agent)\<^sup>*\<^sup>* sample_engine en2" by (auto intro: submitted)
  with durable_history [OF sample_reachable] s show ?thesis by blast
qed

text \<open>
  Finished jobs stay finished: once a job is committed, rolled back or failed on disk, then as
  long as the journal has an entry under its ID, that entry is the same job in the same state, or a later
  assignment of a release newer than every release accepted until then.
\<close>

theorem finished_jobs_stay_finished:
  assumes "store_ok (ag_lib A) (en_store en)" "(agent_step A)\<^sup>*\<^sup>* en en1"
    and "map_of (db_Jobs (durable (en_store en))) i = Some j" "Terminal (job_State j)"
    and "map_of (db_Jobs (durable (en_store en1))) i = Some j'"
  shows "job_State j' = job_State j \<and> same_job j j'
    \<or> db_HighSequence (durable (en_store en)) < rel_Sequence (job_Release j')"
  using execution_evolves [OF assms(2,1)] evolve_terminal [OF _ assms(3-5)]
  by simp

definition sample_done :: Database where
  "sample_done = empty_Database\<lparr>db_HighSequence := 1, db_Jobs := [(''b'', sample_job ''b'' Failed 3)]\<rparr>"

definition sample_done_engine :: "simulator engine" where
  "sample_done_engine = sample_engine\<lparr>en_store :=
     \<lparr>st_data = sample_done, st_poisoned = False, st_row = Some (Inr sample_done), st_archive = [],
      st_env = (\<lambda>_. Stored), st_writes = 0\<rparr>\<rparr>"

lemma sample_done_ok: "store_ok (ag_lib sample_agent) (en_store sample_done_engine)"
proof -
  have "validateDatabase sample_lib sample_done = None" by code_simp
  then have "good_db sample_lib sample_done"
    by (simp add: good_db_def validateDatabase_None) (simp add: sample_done_def)
  then show ?thesis by (simp add: store_ok_def sample_done_engine_def durable_def sample_agent_def)
qed

theorem finished_jobs_stay_finished_witness:
  "\<exists>j'. map_of (db_Jobs (durable (en_store (snd (Ack sample_agent 0 sample_done_engine))))) ''b'' = Some j'
     \<and> (job_State j' = Failed \<and> same_job (sample_job ''b'' Failed 3) j'
        \<or> db_HighSequence (durable (en_store sample_done_engine)) < rel_Sequence (job_Release j'))"
proof -
  let ?e = "snd (Ack sample_agent 0 sample_done_engine)"
  have m: "map_of (db_Jobs (durable (en_store sample_done_engine))) ''b'' = Some (sample_job ''b'' Failed 3)"
    by (simp add: sample_done_engine_def durable_def sample_done_def)
  have t: "Terminal (job_State (sample_job ''b'' Failed 3))" by (simp add: sample_job_def)
  have "map_of (db_Jobs (durable (en_store ?e))) ''b'' \<noteq> None" by code_simp
  then obtain j' where j': "map_of (db_Jobs (durable (en_store ?e))) ''b'' = Some j'" by blast
  have "agent_step sample_agent sample_done_engine ?e"
    by (rule acknowledged [of _ 0], rule surjective_pairing)
  then have "(agent_step sample_agent)\<^sup>*\<^sup>* sample_done_engine ?e" by auto
  from finished_jobs_stay_finished [OF sample_done_ok this m t j'] j' show ?thesis
    by (simp add: sample_job_def)
qed

text \<open>
  C3. Anti-rollback: whenever an assignment that is not already in the journal is accepted, at any
  later point of any execution, its release has a sequence number strictly above every bound the disk ever held
  before, so an accepted release can never be accepted again, nor an older one.
\<close>

theorem accepted_sequences_increase:
  assumes "reachable A en" "(agent_step A)\<^sup>*\<^sup>* en en1"
    and "Submit A busy a en1 = (Inr j, en2)" "map_of (db_Jobs (data_of en1)) (asg_JobID a) = None"
  shows "db_HighSequence (durable (en_store en)) < rel_Sequence (job_Release j)
    \<and> db_HighSequence (durable (en_store en2)) = rel_Sequence (job_Release j)"
proof -
  note ex = execution_evolves [OF assms(2) reachable_store_ok [OF assms(1)]]
  from assms(3) ex [THEN conjunct1] show ?thesis
  proof (cases rule: Submit_cases)
    case (accepted k now)
    with ex show ?thesis by (auto simp: admits_def evolve_def)
  qed (use assms(4) in auto)
qed

theorem accepted_sequences_increase_witness:
  "\<exists>j en2. Submit sample_agent False sample_assignment sample_engine = (Inr j, en2)
     \<and> db_HighSequence (durable (en_store sample_engine)) < rel_Sequence (job_Release j)"
proof -
  obtain j en2 where s: "Submit sample_agent False sample_assignment sample_engine = (Inr j, en2)"
    using sample_submits by blast
  have "map_of (db_Jobs (data_of sample_engine)) (asg_JobID sample_assignment) = None"
    by (simp add: sample_engine_def sample_store_def empty_Database_def)
  with accepted_sequences_increase [OF sample_reachable _ s] s show ?thesis by blast
qed

text \<open>
  C10. The recorded trust metadata never goes back: along any execution, restarts and storage
  failures included, neither the version of the snapshot on disk nor the version of the root on
  disk ever decreases.
\<close>

theorem trust_metadata_never_rolls_back:
  assumes "reachable A en" "(agent_step A)\<^sup>*\<^sup>* en en1"
  shows "db_SnapshotVersion (durable (en_store en)) \<le> db_SnapshotVersion (durable (en_store en1))
    \<and> root_version (ag_lib A) (db_RootPayload (durable (en_store en)))
       \<le> root_version (ag_lib A) (db_RootPayload (durable (en_store en1)))"
  using execution_trust [OF assms(2) reachable_store_ok [OF assms(1)]] by (simp add: trust_grows_def)

theorem trust_metadata_never_rolls_back_witness:
  "\<exists>j en2. Submit sample_agent False sample_assignment sample_engine = (Inr j, en2)
     \<and> db_SnapshotVersion (durable (en_store sample_engine)) \<le> db_SnapshotVersion (durable (en_store en2))"
proof -
  obtain j en2 where s: "Submit sample_agent False sample_assignment sample_engine = (Inr j, en2)"
    using sample_submits by blast
  then have "(agent_step sample_agent)\<^sup>*\<^sup>* sample_engine en2" by (auto intro: submitted)
  with trust_metadata_never_rolls_back [OF sample_reachable] s show ?thesis by blast
qed

text \<open>
  Acknowledging commutes with recording: whether an acknowledgement takes effect before or after a
  transition is recorded, the journal is the same (as long as the event counter has not reached its
  end), so an \<open>Ack\<close> that falls between two writes of another handler changes nothing for it.
\<close>

theorem ack_commutes:
  assumes "ack_fn n d = Inr d1" "save_fn j st d = Inr d2" "db_EventSequence d + 1 \<noteq> 0"
  shows "\<exists>d3. save_fn j st d1 = Inr d3 \<and> ack_fn n d2 = Inr d3"
proof -
  from assms(1) have n: "n \<le> db_EventSequence d"
    and d1: "d1 = d\<lparr>db_Events := dropWhile (\<lambda>e. ev_Sequence e \<le> n) (db_Events d)\<rparr>"
    by (auto simp: ack_fn_def not_less split: if_splits)
  have lt: "\<not> db_EventSequence d + 1 \<le> n" 
    using n assms(3) unatSuc [of "db_EventSequence d"] by (simp add: word_le_nat_alt add.commute)
  let ?p = "\<lambda>e. ev_Sequence e \<le> n"
  have drop: "dropWhile ?p (db_Events d @ [e]) = dropWhile ?p (db_Events d) @ [e]"
    if "ev_Sequence e = db_EventSequence d + 1" for e
    by (rule dropWhile_append3) (simp add: that lt)
  have room: "length (db_Events d) < 10000" using assms(2) by (simp add: save_fn_def addEvent_def Let_def split: if_splits)
  with length_dropWhile_le [of ?p "db_Events d"] have room1: "length (dropWhile ?p (db_Events d)) < 10000" by linarith
  have "n \<le> db_EventSequence d + 1" using lt by simp
  then show ?thesis
    using assms(2) room room1
    by (cases "Terminal st")
      (auto simp: save_fn_def addEvent_def ack_fn_def d1 Let_def not_less drop simp del: dropWhile.simps)
qed

theorem ack_commutes_witness:
  "\<exists>d1 d2 d3. ack_fn 0 sample_done = Inr d1 \<and> save_fn (sample_job ''b'' Failed 3) Failed sample_done = Inr d2
     \<and> save_fn (sample_job ''b'' Failed 3) Failed d1 = Inr d3 \<and> ack_fn 0 d2 = Inr d3"
proof -
  obtain d1 where d1: "ack_fn 0 sample_done = Inr d1" by (simp add: ack_fn_def)
  obtain d2 where d2: "save_fn (sample_job ''b'' Failed 3) Failed sample_done = Inr d2"
    by (simp add: save_fn_def addEvent_def sample_done_def empty_Database_def Let_def)
  have "db_EventSequence sample_done + 1 \<noteq> 0" by (simp add: sample_done_def empty_Database_def)
  from ack_commutes [OF d1 d2 this] d1 d2 show ?thesis by blast
qed

end
