(* ===== verification/OTA_Safety.thy ===== *)
theory OTA_Safety
  imports OTA_Execution
begin

text \<open>
  What reaches the device. A backend is wrapped so that it records the calls of \<open>Install\<close>; the
  theorems say which calls the engine can ever make, over all executions with crashes and restarts.
\<close>

section \<open>A device that records installations\<close>

text \<open>
  Any backend with a record of the calls of \<open>Install\<close> it received: the file system at that moment,
  the path and the release. Everything else passes through.
\<close>

type_synonym 'b spied = "'b \<times> (fs \<times> path \<times> Release) list"

definition spy :: "'b backend \<Rightarrow> 'b spied backend" where
  "spy B = \<lparr>be_Status = (\<lambda>(b, log). case be_Status B b of (r, b1) \<Rightarrow> (r, b1, log)),
     be_Install = (\<lambda>f p r (b, log). case be_Install B f p r b of (eo, b1) \<Rightarrow> (eo, b1, log @ [(f, p, r)])),
     be_Mark = (\<lambda>st n (b, log). case be_Mark B st n b of (eo, b1) \<Rightarrow> (eo, b1, log)),
     be_Reboot = (\<lambda>(b, log). case be_Reboot B b of (eo, b1) \<Rightarrow> (eo, b1, log))\<rparr>"

abbreviation installs :: "'b spied engine \<Rightarrow> (fs \<times> path \<times> Release) list" where
  "installs en \<equiv> snd (en_dev en)"

named_theorems quiet

lemma Now_quiet [quiet]: "Now en = (t, en1) \<Longrightarrow> installs en1 = installs en"
  by (auto simp: Now_def)

lemma Status_quiet [quiet]: "Status A en = (r, en1) \<Longrightarrow> ag_backend A = spy B \<Longrightarrow> installs en1 = installs en"
  by (auto simp: Status_def spy_def split: prod.splits)

lemma Mark_quiet [quiet]: "Mark A st n en = (r, en1) \<Longrightarrow> ag_backend A = spy B \<Longrightarrow> installs en1 = installs en"
  by (auto simp: Mark_def spy_def split: prod.splits)

lemma Reboot_quiet [quiet]: "Reboot A en = (r, en1) \<Longrightarrow> ag_backend A = spy B \<Longrightarrow> installs en1 = installs en"
  by (auto simp: Reboot_def spy_def split: prod.splits)

lemma save_quiet [quiet]: "save A j st msg en = (eo, en1) \<Longrightarrow> installs en1 = installs en"
  using save_dev by metis

lemma Install_loud:
  "Install A p r en = (eo, en1) \<Longrightarrow> ag_backend A = spy B \<Longrightarrow> installs en1 = installs en @ [(en_fs en, p, r)]"
  by (auto simp: Install_def spy_def split: prod.splits)

lemma armDownload_quiet [quiet]: "armDownload A j en = (r, en1) \<Longrightarrow> installs en1 = installs en"
  by (auto simp: armDownload_def Now_def split: if_splits sum.splits bool.splits)

lemma step_accepted_quiet [quiet]: "step_accepted A j en = (eo, en1) \<Longrightarrow> installs en1 = installs en"
  by (auto simp: step_accepted_def split: prod.splits sum.splits dest!: armDownload_quiet save_quiet)

lemma noteDeferred_quiet [quiet]: "noteDeferred A j e en = (eo, en1) \<Longrightarrow> installs en1 = installs en"
  by (auto simp: noteDeferred_def split: if_splits dest!: save_quiet)

lemma step_fetch_quiet [quiet]: "step_fetch A j en = (eo, en1) \<Longrightarrow> installs en1 = installs en"
  by (auto simp: step_fetch_def Let_def split: prod.splits option.splits if_splits
      dest!: fetchAll_frame noteDeferred_quiet save_quiet)

lemma step_downloading_quiet [quiet]: "step_downloading A j now en = (eo, en1) \<Longrightarrow> installs en1 = installs en"
  by (auto simp: step_downloading_def split: sum.splits option.splits if_splits
      dest!: step_fetch_quiet noteDeferred_quiet)

lemma reboot_quiet [quiet]:
  "reboot A j en = (eo, en1) \<Longrightarrow> ag_backend A = spy B \<Longrightarrow> installs en1 = installs en"
  by (auto simp: reboot_def Let_def split: prod.splits option.splits)
    (metis Reboot_quiet save_quiet prod.collapse)+

lemma step_awaiting_quiet [quiet]:
  "step_awaiting A j now en = (eo, en1) \<Longrightarrow> ag_backend A = spy B \<Longrightarrow> installs en1 = installs en"
  by (auto simp: step_awaiting_def split: prod.splits sum.splits if_splits
      dest!: Status_quiet reboot_quiet save_quiet)

lemma step_check_quiet [quiet]: "step_check A j now en = (eo, en1) \<Longrightarrow> installs en1 = installs en"
  by (auto simp: step_check_def Let_def split: option.splits if_splits dest!: save_quiet)

lemma step_health_quiet [quiet]:
  "step_health A j now en = (eo, en1) \<Longrightarrow> ag_backend A = spy B \<Longrightarrow> installs en1 = installs en"
  by (auto simp: step_health_def split: prod.splits sum.splits option.splits if_splits
      dest!: Status_quiet Mark_quiet step_check_quiet save_quiet)

lemma step_rollback_quiet [quiet]:
  "step_rollback A j en = (eo, en1) \<Longrightarrow> ag_backend A = spy B \<Longrightarrow> installs en1 = installs en"
  by (auto simp: step_rollback_def split: prod.splits sum.splits option.splits if_splits
      dest!: Status_quiet Mark_quiet Reboot_quiet save_quiet)

lemma boot_update_quiet [quiet]: "boot_update A g en = (eo, en1) \<Longrightarrow> installs en1 = installs en"
  by (auto simp: boot_update_def split: prod.splits)

lemma fall_back_quiet [quiet]:
  "fall_back A known s en = (eo, en1) \<Longrightarrow> ag_backend A = spy B \<Longrightarrow> installs en1 = installs en"
  by (auto simp: fall_back_def split: prod.splits sum.splits option.splits if_splits
      dest!: Mark_quiet Reboot_quiet)

lemma confirm_boot_quiet [quiet]:
  "confirm_boot A d latest s en = (eo, en1) \<Longrightarrow> ag_backend A = spy B \<Longrightarrow> installs en1 = installs en"
  by (auto simp: confirm_boot_def Let_def split: prod.splits option.splits if_splits
      dest!: Now_quiet Mark_quiet boot_update_quiet fall_back_quiet)

lemma confirmNormalBoot_quiet [quiet]:
  "confirmNormalBoot A en = (eo, en1) \<Longrightarrow> ag_backend A = spy B \<Longrightarrow> installs en1 = installs en"
  by (auto simp: confirmNormalBoot_def Let_def split: prod.splits sum.splits option.splits if_splits
      dest!: Status_quiet confirm_boot_quiet)
section \<open>Installing\<close>

lemma save_fs: "save A j Installing msg en = (eo, en1) \<Longrightarrow> en_fs en1 = en_fs en"
  by (auto simp: save_def Now_def settle_payloads_def Let_def split: sum.splits prod.splits option.splits)

text \<open>After an attempt to record a state, the disk is as before or holds the job in that state.\<close>

lemma save_durable:
  assumes "save A j st msg en = (eo, en1)" "store_ok (ag_lib A) (en_store en)" "\<not> Terminal st"
  shows "durable (en_store en1) = durable (en_store en)
    \<or> (\<exists>j2. map_of (db_Jobs (durable (en_store en1))) (job_id j) = Some j2 \<and> same_job j j2 \<and> job_State j2 = st)"
  using assms(1)
proof (cases rule: save_cases)
  case (tried j2)
  have j2: "same_job j j2" "job_State j2 = st" "job_id j2 = job_id j" using tried(3) by (auto simp: same_job_def)
  have disk: "written_by (save_fn j2 st) (data_of en) = Some d \<Longrightarrow> map_of (db_Jobs d) (job_id j) = Some j2" for d
    using save_fn_written(6) [OF _ store_ok_distinct [OF assms(2)]] j2 assms(3) by metis
  from update_Update [THEN iffD1, OF tried(1)] show ?thesis
  proof (cases rule: Update_cases)
    case (written next' spilled d)
    then have "map_of (db_Jobs d) (job_id j) = Some j2" by (intro disk) (simp add: written_by_def pure_fn_def)
    with written j2 show ?thesis by (auto simp: durable_def)
  next
    case (broken e next' spilled d)
    then have "map_of (db_Jobs d) (job_id j) = Some j2" by (intro disk) (simp add: written_by_def pure_fn_def)
    with broken j2 show ?thesis by (auto simp: durable_def)
  qed auto
qed auto

text \<open>The job is past the point of installation on disk.\<close>

definition past_install :: "Database \<Rightarrow> Job \<Rightarrow> bool" where
  "past_install d j \<longleftrightarrow> (\<exists>j'. map_of (db_Jobs d) (job_id j) = Some j' \<and> same_job j j'
     \<and> job_State j' \<in> {Installing, AwaitingReboot, NeedsRecovery})"

lemma save_past_install:
  assumes "save A j st msg en1 = (eo, en2)" "store_ok (ag_lib A) (en_store en1)" "past_install (durable (en_store en1)) j"
    and "st \<in> {Installing, AwaitingReboot, NeedsRecovery}"
  shows "past_install (durable (en_store en2)) j"
  using save_durable [OF assms(1,2)] assms(3,4) unfolding past_install_def by force

lemma save_installing:
  assumes "save A j Installing [] en = (None, en2)" "store_ok (ag_lib A) (en_store en)"
  shows "past_install (durable (en_store en2)) j" "\<not> st_poisoned (en_store en)"
proof -
  obtain j2 where j2: "\<exists>tr i now. j2 = j\<lparr>job_State := Installing, job_Error := [], job_Updated := now, job_TraceID := tr, job_SpanID := i\<rparr>"
    "written_by (save_fn j2 Installing) (data_of en) = Some (data_of en2)" "durable (en_store en2) = data_of en2"
    using assms(1) by (rule save_ok)
  have "map_of (db_Jobs (data_of en2)) (job_id j2) = Some j2"
    using j2(1) by (intro save_fn_written(6) [OF j2(2) store_ok_distinct [OF assms(2)]]) auto
  with j2(1,3) show "past_install (durable (en_store en2)) j" by (auto simp: past_install_def same_job_def)
  show "\<not> st_poisoned (en_store en)"
    using assms(1) by (cases rule: save_cases) (auto simp: update_def Update_def)
qed

lemma install_and_check_once:
  assumes "install_and_check A j p en = (eo, en1)" "ag_backend A = spy B" "store_ok (ag_lib A) (en_store en)"
  shows "installs en1 = installs en \<or>
    installs en1 = installs en @ [(en_fs en, p, job_Release j)] \<and> past_install (durable (en_store en1)) j
      \<and> \<not> st_poisoned (en_store en)"
proof -
  obtain e2 en2 where s: "save A j Installing [] en = (e2, en2)" by fastforce
  show ?thesis
  proof (cases e2)
    case (Some e)
    with assms(1) s save_quiet [OF s] show ?thesis by (simp add: install_and_check_def)
  next
    case None
    note past = save_installing [OF s [unfolded None] assms(3)]
    obtain e3 en3 where i: "Install A p (job_Release j) en2 = (e3, en3)" by fastforce
    note i3 = Install_loud [OF i assms(2)] Install_frame [OF i]
    have inst: "installs en3 = installs en @ [(en_fs en, p, job_Release j)]"
      using i3 save_quiet [OF s] save_fs [OF s] by simp
    have fin: "installs en6 = installs en3 \<and> past_install (durable (en_store en6)) j"
      if "save A j st msg en5 = (e6, en6)" "en_store en5 = en_store en2" "installs en5 = installs en3"
        "st \<in> {Installing, AwaitingReboot, NeedsRecovery}" for st msg e6 en5 en6
      using save_past_install [OF that(1) _ _ that(4)] that(2,3) save_store_ok [OF s assms(3)] past(1) save_quiet [OF that(1)] by simp
    obtain e4 en4 where st: "Status A en3 = (e4, en4)" by fastforce
    note q4 = Status_quiet [OF st assms(2)] Status_frame [OF st]
    obtain st' msg en5 where "save A j st' msg en5 = (eo, en1)" "st' \<in> {Installing, AwaitingReboot, NeedsRecovery}" "en5 = en3 \<or> en5 = en4"
      using assms(1) s i None st by (auto simp: install_and_check_def split: option.splits sum.splits if_splits)
    with fin [of st' msg en5] q4 i3(2) inst past(2) show ?thesis by auto
  qed
qed

text \<open>
  What holds when \<open>step_install\<close> calls the backend: the file handed over is the cached one and has the
  signed digest and size, the clock was read before the deadline and before the expiry of the
  release, the store is working and the disk then says the job is past installation.
\<close>

lemma step_install_once:
  assumes "step_install A j en = (eo, en1)" "ag_backend A = spy B" "store_ok (ag_lib A) (en_store en)"
  shows "installs en1 = installs en \<or>
    installs en1 = installs en @ [(en_fs en, cache_file (sdir A) (rel_Artifact (job_Release j)), job_Release j)]
      \<and> CheckArtifact (ag_lib A) (en_fs en) (cache_file (sdir A) (rel_Artifact (job_Release j))) (rel_Artifact (job_Release j)) = None
      \<and> (\<exists>n. en_clock en n < asg_Deadline (job_Assignment j)) \<and> (\<exists>n. en_clock en n < rel_Expires (job_Release j))
      \<and> past_install (durable (en_store en1)) j \<and> \<not> st_poisoned (en_store en)"
proof -
  let ?p = "cache_file (sdir A) (rel_Artifact (job_Release j))"
  obtain r en2 where st: "Status A en = (r, en2)" by fastforce
  note q2 = Status_quiet [OF st assms(2)] Status_frame [OF st]
  have clk2: "en_clock en2 = en_clock en" using st by (auto simp: Status_def split: prod.splits)
  obtain t1 en3 where n1: "Now en2 = (t1, en3)" by fastforce
  obtain t2 en4 where n2: "Now en3 = (t2, en4)" by fastforce
  note q3 = Now_quiet [OF n1] Now_frame [OF n1] Now_quiet [OF n2] Now_frame [OF n2]
  have clk: "t1 = en_clock en (en_tick en2)" "t2 = en_clock en (en_tick en3)"
    using n1 n2 clk2 by (auto simp: Now_def)
  have sv: "installs en1 = installs en" if "save A k st' msg en5 = (eo, en1)" "installs en5 = installs en" for k st' msg en5
    using save_quiet [OF that(1)] that(2) by simp
  consider (quiet) "installs en1 = installs en"
    | (go) s t where "CheckArtifact (ag_lib A) (en_fs en2) ?p (rel_Artifact (job_Release j)) = None"
        "t1 < asg_Deadline (job_Assignment j)" "t2 < rel_Expires (job_Release j)"
        "install_and_check A (j\<lparr>job_OldSlot := ds_Booted s, job_OldVersion := VersionOf s (ds_Booted s),
           job_TargetSlot := t, job_BootID := ds_BootID s\<rparr>) ?p en4 = (eo, en1)"
    using assms(1) st n1 n2 q2 q3 sv
    by (auto simp: step_install_def Let_def split: sum.splits if_splits option.splits)
  then show ?thesis
  proof cases
    case (go s t)
    let ?k = "j\<lparr>job_OldSlot := ds_Booted s, job_OldVersion := VersionOf s (ds_Booted s), job_TargetSlot := t, job_BootID := ds_BootID s\<rparr>"
    have "past_install d ?k \<longleftrightarrow> past_install d j" for d by (simp add: past_install_def same_job_def)
    with install_and_check_once [OF go(4) assms(2)] go(1-3) q2 q3 assms(3) clk show ?thesis
      by auto
  qed simp
qed
lemma step_verified_once:
  assumes "step_verified A j en = (eo, en1)" "ag_backend A = spy B" "store_ok (ag_lib A) (en_store en)"
  shows "installs en1 = installs en \<or>
    (\<exists>f. installs en1 = installs en @ [(f, cache_file (sdir A) (rel_Artifact (job_Release j)), job_Release j)]
      \<and> CheckArtifact (ag_lib A) f (cache_file (sdir A) (rel_Artifact (job_Release j))) (rel_Artifact (job_Release j)) = None
      \<and> HasOS (job_Release j) \<and> past_install (durable (en_store en1)) j \<and> \<not> st_poisoned (en_store en))"
proof -
  consider (quiet) k st' msg en5 where "save A k st' msg en5 = (eo, en1)" "installs en5 = installs en"
    | (go) k en5 where "step_install A k en5 = (eo, en1)" "installs en5 = installs en" "en_store en5 = en_store en"
        "same_job j k" "HasOS (job_Release j)"
    using assms(1) by (auto simp: step_verified_def Let_def same_job_def split: option.splits prod.splits if_splits)
  then show ?thesis
  proof cases
    case quiet
    then show ?thesis using save_quiet [OF quiet(1)] by simp
  next
    case (go k en5)
    have "past_install d k \<longleftrightarrow> past_install d j" for d using go(4) by (auto simp: past_install_def same_job_def)
    with step_install_once [OF go(1) assms(2)] go assms(3) show ?thesis by (auto simp: same_job_def)
  qed
qed

text \<open>One step of the engine installs at most once, and then this is the situation.\<close>

definition install_event :: "'b spied agent \<Rightarrow> 'b spied engine \<Rightarrow> Job \<Rightarrow> fs \<Rightarrow> bool" where
  "install_event A en j f \<longleftrightarrow> current en = Some j \<and> job_State j = Verified \<and> HasOS (job_Release j)
     \<and> CheckArtifact (ag_lib A) f (cache_file (sdir A) (rel_Artifact (job_Release j))) (rel_Artifact (job_Release j)) = None
     \<and> (\<exists>now r. asg_NotBefore (job_Assignment j) \<le> now \<and> now < asg_Deadline (job_Assignment j)
          \<and> VerifyEnvelope (ag_lib A) (asg_Release (job_Assignment j)) (ag_cfg A) now = Inr r)"

lemma Step_installs:
  assumes "Step A en = (eo, en1)" "ag_backend A = spy B" "store_ok (ag_lib A) (en_store en)"
  shows "installs en1 = installs en \<or>
    (\<exists>j f. installs en1 = installs en @ [(f, cache_file (sdir A) (rel_Artifact (job_Release j)), job_Release j)]
      \<and> install_event A en j f \<and> past_install (durable (en_store en1)) j \<and> \<not> st_poisoned (en_store en))"
proof (cases "current en")
  case None
  with assms(1) confirmNormalBoot_quiet [OF _ assms(2)] show ?thesis by (auto simp: Step_def)
next
  case (Some j)
  obtain now en2 where n: "Now en = (now, en2)" by fastforce
  note q = Now_quiet [OF n] Now_frame [OF n]
  show ?thesis
  proof (cases "job_State j = Verified")
    case True
    from assms(1) Some n True consider (quiet) k st' msg where "save A k st' msg en2 = (eo, en1)"
      | (idle) "en1 = en2"
      | (go) r where "asg_NotBefore (job_Assignment j) \<le> now" "now < asg_Deadline (job_Assignment j)"
          "VerifyEnvelope (ag_lib A) (asg_Release (job_Assignment j)) (ag_cfg A) now = Inr r"
          "step_verified A j en2 = (eo, en1)"
      by (auto simp: Step_def before_install_def step_state_def split: if_splits sum.splits)
    then show ?thesis
    proof cases
      case (go r)
      from step_verified_once [OF go(4) assms(2)] assms(3) q Some True go(1-3) show ?thesis
        unfolding install_event_def by auto
    next
      case (quiet k st' msg)
      then show ?thesis using save_quiet [OF quiet] q by simp
    qed (use q in simp)
  next
    case False
    have "step_state A j now en2 = (eo', en1) \<Longrightarrow> installs en1 = installs en2" for eo'
      using False
      by (auto simp: step_state_def split: JobState.splits dest: step_accepted_quiet step_downloading_quiet save_quiet
          step_awaiting_quiet [OF _ assms(2)] step_health_quiet [OF _ assms(2)] step_rollback_quiet [OF _ assms(2)])
    with assms(1) Some n q show ?thesis
      by (auto simp: Step_def split: if_splits sum.splits dest: save_quiet)
  qed
qed
lemma installing_not_verified:
  assumes "transition\<^sup>*\<^sup>* s t" "s \<in> {Installing, AwaitingReboot, NeedsRecovery}"
  shows "t \<noteq> Verified"
proof -
  have "t \<notin> {Accepted, Downloading, Verified}"
    using assms by (induction rule: rtranclp_induct) (auto elim: transition_fromE)
  then show ?thesis by simp
qed


section \<open>Runs of a recorded device\<close>

text \<open>
  Executions in which the record is only extended by the engine: by \<open>Step\<close>, the one handler that
  installs (\<open>other_handlers_quiet\<close>). Everything else may happen as in \<open>agent_step\<close>.
\<close>

inductive spied_run :: "'b spied agent \<Rightarrow> 'b spied engine \<Rightarrow> bool" for A where
  fresh: "data_of en = empty_Database \<Longrightarrow> st_row (en_store en) = None \<Longrightarrow> installs en = [] \<Longrightarrow> spied_run A en"
| engine_step: "spied_run A en \<Longrightarrow> Step A en = (eo, en1) \<Longrightarrow> spied_run A en1"
| other_event: "spied_run A en \<Longrightarrow> agent_step A en en1 \<Longrightarrow> installs en1 = installs en \<Longrightarrow> spied_run A en1"

lemma RequestReboot_quiet:
  "RequestReboot A busy en = (eo, en1) \<Longrightarrow> ag_backend A = spy B \<Longrightarrow> installs en1 = installs en"
  by (auto simp: RequestReboot_def split: if_splits option.splits prod.splits sum.splits
      dest!: Now_quiet Status_quiet reboot_quiet)

lemma RecoverAbort_quiet:
  "RecoverAbort A busy en = (eo, en1) \<Longrightarrow> ag_backend A = spy B \<Longrightarrow> installs en1 = installs en"
  by (auto simp: RecoverAbort_def split: if_splits option.splits prod.splits sum.splits
      dest!: Mark_quiet Status_quiet save_quiet)

lemma other_handlers_quiet:
  assumes "ag_backend A = spy B"
  shows "Submit A busy a en = (r, en1) \<Longrightarrow> installs en1 = installs en"
    "RequestReboot A busy en = (eo, en1) \<Longrightarrow> installs en1 = installs en"
    "RecoverAbort A busy en = (eo, en1) \<Longrightarrow> installs en1 = installs en"
    "Ack A n en = (eo, en1) \<Longrightarrow> installs en1 = installs en"
    "GC A busy en = (eo, en1) \<Longrightarrow> installs en1 = installs en"
  using RequestReboot_quiet [OF _ assms] RecoverAbort_quiet [OF _ assms]
  by (auto simp: Submit_def Ack_def GC_def Now_def split: if_splits option.splits sum.splits prod.splits)

lemma spied_run_reachable: "spied_run A en \<Longrightarrow> reachable A en"
  by (induction rule: spied_run.induct) (auto intro: provisioned onward stepped)

text \<open>
  The invariant: installed releases are within the bound of the disk and older than every job that
  may still be installed.
\<close>

definition early :: "JobState \<Rightarrow> bool" where
  "early st \<longleftrightarrow> st \<in> {Accepted, Downloading, Verified}"

definition installs_below :: "(fs \<times> path \<times> Release) list \<Rightarrow> Database \<Rightarrow> bool" where
  "installs_below log d \<longleftrightarrow> (\<forall>(f, p, r) \<in> set log. rel_Sequence r \<le> db_HighSequence d
     \<and> (\<forall>i k. map_of (db_Jobs d) i = Some k \<longrightarrow> early (job_State k) \<longrightarrow> rel_Sequence r < rel_Sequence (job_Release k)))"

lemma transitions_early: "transition\<^sup>*\<^sup>* s t \<Longrightarrow> early t \<Longrightarrow> early s"
  by (induction rule: rtranclp_induct) (auto simp: early_def elim: transition_fromE)

lemma early_not_terminal: "early s \<Longrightarrow> \<not> Terminal s"
  by (auto simp: early_def)

lemma installs_below_evolve:
  assumes "installs_below log d" "evolve d d'"
  shows "installs_below log d'"
  unfolding installs_below_def
proof (intro ballI, clarify, intro conjI allI impI)
  fix f p r assume m: "(f, p, r) \<in> set log"
  have hi: "rel_Sequence r \<le> db_HighSequence d" using assms(1) m by (auto simp: installs_below_def)
  then show "rel_Sequence r \<le> db_HighSequence d'" using assms(2) by (auto simp: evolve_def)
  fix i k assume k: "map_of (db_Jobs d') i = Some k" "early (job_State k)"
  from assms(2) k(1) consider (old) l where "map_of (db_Jobs d) i = Some l" "same_job l k" "transition\<^sup>*\<^sup>* (job_State l) (job_State k)"
    | (new) "db_HighSequence d < rel_Sequence (job_Release k)"
    unfolding evolve_def by blast
  then show "rel_Sequence r < rel_Sequence (job_Release k)"
  proof cases
    case (old l)
    with assms(1) m transitions_early [OF old(3) k(2)] show ?thesis
      unfolding installs_below_def same_job_def by fastforce
  next
    case new
    with hi show ?thesis by simp
  qed
qed

lemma installs_below_install:
  assumes "installs_below log d" "journal_ok L d" "past_install d j"
  shows "installs_below (log @ [(f, p, job_Release j)]) d"
proof -
  obtain k where k: "map_of (db_Jobs d) (job_id j) = Some k" "same_job j k" "job_State k \<in> {Installing, AwaitingReboot, NeedsRecovery}"
    using assms(3) by (auto simp: past_install_def)
  note kv = journal_job_ok [OF assms(2) k(1)]
  have "\<not> early (job_State l)" if l: "map_of (db_Jobs d) i = Some l" for i l
  proof
    assume e: "early (job_State l)"
    with journal_job_ok [OF assms(2) l] early_not_terminal kv k(3) have "i = job_id j" by (auto simp: job_ok_def)
    with k l e show False by (auto simp: early_def)
  qed
  moreover have "rel_Sequence (job_Release j) \<le> db_HighSequence d" using kv k(2) by (auto simp: job_ok_def same_job_def)
  ultimately show ?thesis using assms(1) unfolding installs_below_def by fastforce
qed

lemma spied_run_invariant:
  assumes "spied_run A en" "ag_backend A = spy B"
  shows "sorted_wrt (<) (map (\<lambda>(f, p, r). rel_Sequence r) (installs en)) \<and> installs_below (installs en) (durable (en_store en))"
  using assms
proof (induction rule: spied_run.induct)
  case (fresh en)
  then show ?case by (simp add: installs_below_def)
next
  case (engine_step en eo en1)
  note ok = reachable_store_ok [OF spied_run_reachable [OF engine_step.hyps(1)]]
  note ev = agent_step_evolve [OF stepped [OF engine_step.hyps(2)] ok]
  from Step_installs [OF engine_step.hyps(2) assms(2) ok] show ?case
  proof (elim disjE exE conjE)
    assume "installs en1 = installs en"
    with engine_step ev show ?thesis by (auto intro: installs_below_evolve)
  next
    fix j f assume j: "installs en1 = installs en @ [(f, cache_file (sdir A) (rel_Artifact (job_Release j)), job_Release j)]"
      "install_event A en j f" "past_install (durable (en_store en1)) j" "\<not> st_poisoned (en_store en)"
    have m: "map_of (db_Jobs (durable (en_store en))) (db_Active (data_of en)) = Some j" "early (job_State j)"
      using j(2,4) current_job [of en j] ok by (auto simp: install_event_def store_ok_def early_def)
    with engine_step have "\<forall>x \<in> set (map (\<lambda>(f, p, r). rel_Sequence r) (installs en)). x < rel_Sequence (job_Release j)"
      by (force simp: installs_below_def)
    moreover have "installs_below (installs en1) (durable (en_store en1))"
      using engine_step ev j(1,3) by (auto simp: store_ok_def good_db_def intro: installs_below_install installs_below_evolve)
    ultimately show ?thesis using engine_step j(1) by (auto simp: sorted_wrt_append)
  qed
next
  case (other_event en en1)
  note ok = reachable_store_ok [OF spied_run_reachable [OF other_event.hyps(1)]]
  from agent_step_evolve [OF other_event.hyps(2) ok] other_event show ?case
    by (auto intro: installs_below_evolve)
qed

text \<open>
  C2. No release is installed twice, and none after a newer one: over any execution, with crashes,
  restarts and storage failures at any point, the releases handed to the device have strictly
  increasing sequence numbers. In particular a crash during an installation never makes the agent
  repeat it.
\<close>

theorem install_sequences_increase:
  assumes "spied_run A en" "ag_backend A = spy B"
  shows "sorted_wrt (<) (map (\<lambda>(f, p, r). rel_Sequence r) (installs en))"
  using spied_run_invariant [OF assms] by simp

section \<open>Sample run\<close>

definition sample_spy_agent :: "simulator spied agent" where
  "sample_spy_agent = NewEngine sample_lib (\<lambda>_. 0) sample_config (spy (Simulator sample_lib))"

definition sample_spy_engine :: "simulator spied engine" where
  "sample_spy_engine = \<lparr>en_store = sample_store\<lparr>st_env := (\<lambda>_. Stored)\<rparr>, en_fs = sample_empty_fs, en_dev = (sample_sim, []),
     en_net = sample_net, en_probes = sample_probes, en_healthySince = 0, en_stats = zero_Stats,
     en_clock = (\<lambda>n. 10 + int n), en_tick = 0, en_elapsed = 1, en_rng = (\<lambda>d n. Inr ''r''), en_draws = 0,
     en_queue = []\<rparr>"

text \<open>Accepted, downloading, verified; the next step installs.\<close>

definition sample_verified :: "simulator spied engine" where
  "sample_verified = (let stp = snd \<circ> Step sample_spy_agent in
     stp (stp (snd (Submit sample_spy_agent False sample_assignment sample_spy_engine))))"

lemma sample_verified_installs:
  "installs sample_verified = [] \<and> map (\<lambda>(f, p, r). rel_ID r) (installs (snd (Step sample_spy_agent sample_verified))) = [''r1'']"
proof -
  have "let en = sample_verified in installs en = []
      \<and> map (\<lambda>(f, p, r). rel_ID r) (installs (snd (Step sample_spy_agent en))) = [''r1'']" by code_simp
  then show ?thesis by (simp only: Let_def)
qed

lemma sample_verified_run: "spied_run sample_spy_agent sample_verified"
proof -
  let ?A = sample_spy_agent
  have spy: "ag_backend ?A = spy (Simulator sample_lib)" by (simp add: sample_spy_agent_def)
  have start: "spied_run ?A sample_spy_engine"
    by (rule fresh) (simp_all add: sample_spy_engine_def sample_store_def)
  obtain r en1 where s: "Submit ?A False sample_assignment sample_spy_engine = (r, en1)" by fastforce
  have "spied_run ?A en1"
    by (rule other_event [OF start submitted [OF s] other_handlers_quiet(1) [OF spy s]])
  then have "spied_run ?A (snd (Submit ?A False sample_assignment sample_spy_engine))" by (simp add: s)
  then show ?thesis
    unfolding sample_verified_def Let_def comp_def by (metis engine_step prod.collapse)
qed


theorem install_sequences_increase_witness:
  "map (\<lambda>(f, p, r). rel_ID r) (installs (snd (Step sample_spy_agent sample_verified))) = [''r1'']
   \<and> sorted_wrt (<) (map (\<lambda>(f, p, r). rel_Sequence r) (installs (snd (Step sample_spy_agent sample_verified))))"
proof -
  have spy: "ag_backend sample_spy_agent = spy (Simulator sample_lib)" by (simp add: sample_spy_agent_def)
  have "spied_run sample_spy_agent (snd (Step sample_spy_agent sample_verified))"
    using sample_verified_run by (metis engine_step prod.collapse)
  from install_sequences_increase [OF this spy] sample_verified_installs show ?thesis by simp
qed

end
