(* ===== verification/OTA_Commit.thy ===== *)
theory OTA_Commit
  imports OTA_Execution
begin

text \<open>
  When the engine commits and how it rolls back: which evidence a step needs before it writes
  \<open>COMMITTING\<close> and \<open>COMMITTED\<close>, that a missed health deadline leads to rollback, and that rollback
  completes on a working device.
\<close>

section \<open>Which step writes a state\<close>

text \<open>\<open>enters st d d'\<close>: some job of \<open>d'\<close> is in state \<open>st\<close> and was not in \<open>d\<close>.\<close>

definition enters :: "JobState \<Rightarrow> Database \<Rightarrow> Database \<Rightarrow> bool" where
  "enters st d d' \<longleftrightarrow> (\<exists>i j'. map_of (db_Jobs d') i = Some j' \<and> job_State j' = st
     \<and> (\<forall>j. map_of (db_Jobs d) i = Some j \<longrightarrow> job_State j \<noteq> st))"

definition avoids :: "JobState \<Rightarrow> 'b engine \<Rightarrow> 'x \<times> 'b engine \<Rightarrow> bool" where
  "avoids st en r \<longleftrightarrow> \<not> enters st (data_of en) (data_of (snd r))
     \<and> \<not> enters st (durable (en_store en)) (durable (en_store (snd r)))"

lemma enters_refl [simp]: "\<not> enters st d d" by (auto simp: enters_def)

lemma enters_trans: "\<not> enters st a b \<Longrightarrow> \<not> enters st b c \<Longrightarrow> \<not> enters st a c"
  unfolding enters_def by metis

lemma avoids_frame: "en_store en1 = en_store en \<Longrightarrow> avoids st en (x, en1)"
  by (simp add: avoids_def)

lemma avoids_from: "avoids st en r \<Longrightarrow> en_store en0 = en_store en \<Longrightarrow> avoids st en0 r"
  by (simp add: avoids_def)

lemma avoids_trans: "avoids st en (x, en1) \<Longrightarrow> avoids st en1 r \<Longrightarrow> avoids st en r"
  unfolding avoids_def by (auto dest: enters_trans)

lemma update_avoids:
  assumes "update L fn s = (eo, s1)" "store_ok L s"
    and "\<And>d. written_by fn (st_data s) = Some d \<Longrightarrow> \<not> enters st (st_data s) d"
  shows "\<not> enters st (st_data s) (st_data s1) \<and> \<not> enters st (durable s) (durable s1)"
  using update_Update [THEN iffD1, OF assms(1)]
proof (cases rule: Update_cases)
  case (written next' spilled d)
  then have "written_by fn (st_data s) = Some d" by (simp add: written_by_def pure_fn_def)
  with assms(2,3) written show ?thesis by (auto simp: durable_def store_ok_def)
next
  case (broken e next' spilled d)
  then have w: "written_by fn (st_data s) = Some d" by (simp add: written_by_def pure_fn_def)
  have "durable s = st_data s" using assms(2) broken(2) by (simp add: store_ok_def)
  with assms(3) [OF w] broken show ?thesis by (auto simp: durable_def)
qed auto

lemma save_avoids:
  assumes "store_ok (ag_lib A) (en_store en)" "en_store en1 = en_store en" "st' \<noteq> st"
  shows "avoids st en (save A j st' msg en1)"
proof -
  obtain eo en2 where s: "save A j st' msg en1 = (eo, en2)" by fastforce
  show ?thesis
    using s
  proof (cases rule: save_cases)
    case (untried e)
    with s assms(2) show ?thesis by (simp add: avoids_def)
  next
    case (tried j2)
    have dist: "distinct (keys (db_Jobs (data_of en1)))" using assms(1,2) by (simp add: store_ok_distinct)
    have "job_State j2 = st'" using tried(3) by auto
    have "\<not> enters st (data_of en1) d" if w: "written_by (save_fn j2 st') (data_of en1) = Some d" for d
    proof
      assume "enters st (data_of en1) d"
      then obtain i j' where j': "map_of (db_Jobs d) i = Some j'" "job_State j' = st"
        "\<forall>j. map_of (db_Jobs (data_of en1)) i = Some j \<longrightarrow> job_State j \<noteq> st" unfolding enters_def by blast
      with save_fn_written(1) [OF w dist j'(1)] assms(3) \<open>job_State j2 = st'\<close> show False
        by (auto split: if_splits)
    qed
    from update_avoids [OF tried(1) _ this] s assms(1,2) show ?thesis by (simp add: avoids_def)
  qed
qed

lemma update_jobs_avoids:
  assumes "\<And>d d'. fn d = Inr d' \<Longrightarrow> db_Jobs d' = db_Jobs d"
    and "store_ok (ag_lib A) (en_store en)" "en_store en1 = en_store en"
  shows "avoids st en (case update (ag_lib A) fn (en_store en1) of (eo, s) \<Rightarrow> (eo, en1\<lparr>en_store := s\<rparr>))"
proof -
  obtain eo s where u: "update (ag_lib A) fn (en_store en1) = (eo, s)" by fastforce
  have "\<not> enters st (data_of en1) d" if w: "written_by fn (data_of en1) = Some d" for d
  proof -
    obtain d1 sp where d1: "fn (data_of en1) = Inr d1" "compactHot d1 = Inr (sp, d)"
      using w by (auto simp: written_by_def split: sum.splits prod.splits)
    have "distinct (keys (db_Jobs d1))" using assms d1(1) by (simp add: store_ok_distinct)
    note c = compactHot_facts(4) [OF d1(2) this]
    then show ?thesis using assms(1) [OF d1(1)] by (auto simp: enters_def simp del: map_of_eq_Some_iff)
  qed
  from update_avoids [OF u _ this] assms(2,3) u show ?thesis by (simp add: avoids_def)
qed

lemma boot_update_avoids:
  "store_ok (ag_lib A) (en_store en) \<Longrightarrow> en_store en1 = en_store en \<Longrightarrow> avoids st en (boot_update A g en1)"
  unfolding boot_update_def by (rule update_jobs_avoids) auto

lemma fall_back_avoids: "en_store en1 = en_store en \<Longrightarrow> avoids st en (fall_back A known s en1)"
  by (auto simp: fall_back_def split: sum.split prod.split option.split if_split
      intro!: avoids_frame dest!: Mark_frame)
    (auto simp: avoids_def Reboot_def split: prod.split)

lemma confirm_boot_avoids:
  assumes "store_ok (ag_lib A) (en_store en)" "en_store en1 = en_store en"
  shows "avoids st en (confirm_boot A d latest s en1)"
proof -
  obtain now en2 where n: "Now en1 = (now, en2)" by fastforce
  have s2: "en_store en2 = en_store en" using Now_frame [OF n] assms(2) by simp
  have "avoids st en (case Mark A ''good'' (ds_Booted s) en' of
      (None, en3) \<Rightarrow> boot_update A g en3 | (Some e, en3) \<Rightarrow> (Some e, en3))" if "en_store en' = en_store en" for en' g
  proof -
    obtain e en3 where m: "Mark A ''good'' (ds_Booted s) en' = (e, en3)" by fastforce
    have "en_store en3 = en_store en" using Mark_frame [OF m] that by simp
    with assms(1) show ?thesis by (cases e) (simp_all add: m boot_update_avoids avoids_frame)
  qed
  moreover have "avoids st en (boot_update A g (en2\<lparr>en_healthySince := 0\<rparr>))" for g
    by (rule boot_update_avoids [OF assms(1)]) (simp add: s2)
  ultimately show ?thesis
    by (simp add: confirm_boot_def n Let_def avoids_frame assms(2) s2 fall_back_avoids split: option.split)
qed

lemma confirmNormalBoot_avoids:
  "store_ok (ag_lib A) (en_store en) \<Longrightarrow> avoids st en (confirmNormalBoot A en)"
  by (auto simp: confirmNormalBoot_def Let_def split: prod.split sum.split option.split if_split
      intro!: avoids_frame confirm_boot_avoids dest!: Status_frame)

lemma noteDeferred_avoids:
  "store_ok (ag_lib A) (en_store en) \<Longrightarrow> en_store en1 = en_store en \<Longrightarrow> st \<noteq> Downloading \<Longrightarrow> avoids st en (noteDeferred A j e en1)"
  by (auto simp: noteDeferred_def intro: avoids_frame save_avoids)

lemma step_accepted_avoids:
  "store_ok (ag_lib A) (en_store en) \<Longrightarrow> en_store en1 = en_store en \<Longrightarrow> st \<noteq> Downloading \<Longrightarrow> avoids st en (step_accepted A j en1)"
  by (auto simp: step_accepted_def split: prod.split sum.split intro!: avoids_frame save_avoids dest!: armDownload_frame)

lemma step_fetch_avoids:
  "store_ok (ag_lib A) (en_store en) \<Longrightarrow> en_store en1 = en_store en \<Longrightarrow> st \<notin> {Downloading, Verified} \<Longrightarrow> avoids st en (step_fetch A j en1)"
  by (auto simp: step_fetch_def Let_def split: prod.split option.split
      intro!: avoids_frame save_avoids noteDeferred_avoids dest!: fetchAll_frame)

lemma step_downloading_avoids:
  "store_ok (ag_lib A) (en_store en) \<Longrightarrow> en_store en1 = en_store en \<Longrightarrow> st \<notin> {Downloading, Verified} \<Longrightarrow>
     avoids st en (step_downloading A j now en1)"
  by (auto simp: step_downloading_def split: sum.split option.split
      intro!: avoids_frame step_fetch_avoids noteDeferred_avoids)

lemma two_saves_avoid:
  fixes en en1 :: "'b engine"
  assumes "store_ok (ag_lib A) (en_store en)" "en_store en1 = en_store en" "save A j st1 msg en1 = (eo, en2)" "st1 \<noteq> st"
    and "\<And>en0 :: 'b engine. store_ok (ag_lib A) (en_store en0) \<Longrightarrow> en_store en0 = en_store en2 \<Longrightarrow> avoids st en0 r"
  shows "avoids st en r"
proof -
  have ok: "store_ok (ag_lib A) (en_store en1)" using assms(1,2) by simp
  have "avoids st en (eo, en2)" using save_avoids [OF assms(1,2,4), of j msg] assms(3) by simp
  moreover have "avoids st en2 r" by (rule assms(5) [OF save_store_ok [OF assms(3) ok] refl])
  ultimately show ?thesis by (rule avoids_trans)
qed

lemma install_and_check_avoids:
  assumes "store_ok (ag_lib A) (en_store en)" "en_store en1 = en_store en"
    and "st \<notin> {Installing, NeedsRecovery, AwaitingReboot}"
  shows "avoids st en (install_and_check A j p en1)"
proof -
  obtain eo en2 where s: "save A j Installing [] en1 = (eo, en2)" by fastforce
  from assms(1,2) s show ?thesis
  proof (rule two_saves_avoid)
    fix en0 :: "'a engine" assume "store_ok (ag_lib A) (en_store en0)" "en_store en0 = en_store en2"
    with assms(3) s show "avoids st en0 (install_and_check A j p en1)"
      by (auto simp: install_and_check_def split: option.split prod.split sum.split
          intro!: save_avoids avoids_frame dest!: Install_frame Status_frame)
  qed (use assms(3) in auto)
qed

lemma step_install_avoids:
  "store_ok (ag_lib A) (en_store en) \<Longrightarrow> en_store en1 = en_store en \<Longrightarrow>
     st \<notin> {Failed, Installing, NeedsRecovery, AwaitingReboot} \<Longrightarrow> avoids st en (step_install A j en1)"
  by (auto simp: step_install_def Let_def split: prod.split sum.split option.split
      intro!: avoids_frame save_avoids install_and_check_avoids dest!: Status_frame Now_frame)

lemma step_verified_avoids:
  "store_ok (ag_lib A) (en_store en) \<Longrightarrow> en_store en1 = en_store en \<Longrightarrow>
     st \<notin> {Failed, Installing, NeedsRecovery, AwaitingReboot} \<Longrightarrow> HasOS (job_Release j) \<or> st \<noteq> Committed \<Longrightarrow>
     avoids st en (step_verified A j en1)"
  by (auto simp: step_verified_def Let_def split: prod.split option.split
      intro!: save_avoids step_install_avoids)

lemma reboot_avoids:
  assumes "store_ok (ag_lib A) (en_store en)" "en_store en1 = en_store en" "st \<noteq> AwaitingReboot"
  shows "avoids st en (reboot A j en1)"
proof -
  obtain eo en2 where s: "save A (j\<lparr>job_RebootRequested := True\<rparr>) AwaitingReboot [] en1 = (eo, en2)" by fastforce
  from assms(1,2) s show ?thesis
  proof (rule two_saves_avoid)
    fix en0 :: "'a engine" assume ok: "store_ok (ag_lib A) (en_store en0)" "en_store en0 = en_store en2"
    have "avoids st en0 (x, snd (save A k AwaitingReboot m en3))" if "en_store en3 = en_store en2" for x :: "error option" and k m en3
      using save_avoids [OF ok(1), of en3 AwaitingReboot st k m] that ok(2) assms(3) by (simp add: avoids_def)
    note again = this
    obtain e3 en3 where r: "Reboot A en2 = (e3, en3)" by fastforce
    with ok(2) s again [of en3] Reboot_frame [OF r] show "avoids st en0 (reboot A j en1)"
      by (cases eo; cases e3) (auto simp: reboot_def Let_def intro!: avoids_frame)
  qed (use assms(3) in auto)
qed

lemma step_awaiting_avoids:
  "store_ok (ag_lib A) (en_store en) \<Longrightarrow> en_store en1 = en_store en \<Longrightarrow>
     st \<notin> {AwaitingReboot, NeedsRecovery, RolledBack, CheckingHealth} \<Longrightarrow> avoids st en (step_awaiting A j now en1)"
  by (auto simp: step_awaiting_def split: prod.split sum.split
      intro!: avoids_frame save_avoids reboot_avoids dest!: Status_frame)

lemma step_rollback_avoids:
  "store_ok (ag_lib A) (en_store en) \<Longrightarrow> en_store en1 = en_store en \<Longrightarrow>
     st \<notin> {NeedsRecovery, RolledBack} \<Longrightarrow> avoids st en (step_rollback A j en1)"
  by (auto simp: step_rollback_def split: prod.split sum.split option.split
      intro!: avoids_frame save_avoids dest!: Status_frame Mark_frame)
    (auto simp: avoids_def Reboot_def split: prod.split)
lemma step_check_avoids:
  assumes "store_ok (ag_lib A) (en_store en)" "en_store en1 = en_store en" "st \<notin> {RollbackPending, Committing}"
  shows "avoids st en (step_check A j now en1)"
  using assms by (auto simp: step_check_def Let_def split: option.split intro!: avoids_frame save_avoids)

text \<open>The evidence on which a step commits an installed system.\<close>

definition commit_evidence :: "'b agent \<Rightarrow> 'b engine \<Rightarrow> Job \<Rightarrow> bool" where
  "commit_evidence A en j \<longleftrightarrow> (\<exists>s d1 d2. be_Status (ag_backend A) (en_dev en) = (Inr s, d1)
     \<and> ds_Booted s = job_TargetSlot j \<and> ds_Booted s \<noteq> job_OldSlot j
     \<and> VersionOf s (job_TargetSlot j) = rel_Version (job_Release j) \<and> ds_BootID s = job_BootID j
     \<and> be_Mark (ag_backend A) ''good'' (job_TargetSlot j) d1 = (None, d2))"

lemma step_health_commit:
  assumes "store_ok (ag_lib A) (en_store en)" "en_store en1 = en_store en"
    and "\<not> avoids Committed en (step_health A j now en1)"
  shows "job_State j = Committing \<and> commit_evidence A en1 j"
proof -
  note av = save_avoids [OF assms(1), of _ _ Committed] avoids_frame step_check_avoids [OF assms(1)]
  obtain r en2 where st: "Status A en1 = (r, en2)" by fastforce
  note f2 = Status_frame [OF st]
  from assms(3) st f2 assms(2) obtain s where s: "r = Inr s" "ds_Booted s = job_TargetSlot j" "ds_Booted s \<noteq> job_OldSlot j"
    "VersionOf s (job_TargetSlot j) = rel_Version (job_Release j)" "ds_BootID s = job_BootID j" "job_State j = Committing"
    by (cases r) (auto simp: step_health_def av split: if_splits)
  obtain e3 en3 where m: "Mark A ''good'' (job_TargetSlot j) en2 = (e3, en3)" by fastforce
  have "e3 = None"
    using assms(2,3) st f2 s m Mark_frame [OF m] by (cases e3) (auto simp: step_health_def av)
  with st m s show ?thesis
    by (auto simp: commit_evidence_def Status_def Mark_def split: prod.splits)
qed

lemma current_save_avoids:
  "store_ok (ag_lib A) (en_store en) \<Longrightarrow> Now en = (now, en1) \<Longrightarrow> st \<noteq> Failed \<Longrightarrow> avoids st en (save A j Failed msg en1)"
  by (auto dest!: Now_frame intro!: save_avoids)

lemma Step_commits:
  assumes "store_ok (ag_lib A) (en_store en)" "\<not> avoids Committed en (Step A en)"
  shows "\<exists>j. current en = Some j \<and> (job_State j = Verified \<and> \<not> HasOS (job_Release j)
     \<or> job_State j = Committing \<and> commit_evidence A en j)"
proof -
  obtain j where j: "current en = Some j"
    using assms confirmNormalBoot_avoids [OF assms(1)] by (cases "current en") (auto simp: Step_def)
  obtain now en1 where n: "Now en = (now, en1)" by fastforce
  note f1 = Now_frame [OF n]
  have store: "en_store en1 = en_store en" using f1 by simp
  have idle: "avoids Committed en (x, en1)" for x :: "error option" by (rule avoids_frame [OF store])
  have ev: "commit_evidence A en1 j \<longleftrightarrow> commit_evidence A en j" using f1 by (simp add: commit_evidence_def)
  have "\<not> avoids Committed en (step_state A j now en1)"
    using assms j n current_save_avoids [OF assms(1) n] idle
    by (auto simp: Step_def split: if_splits sum.splits)
  then have "job_State j = Verified \<and> \<not> HasOS (job_Release j) \<or> job_State j = Committing \<and> commit_evidence A en1 j"
    using step_health_commit [OF assms(1) store, of j now]
      step_accepted_avoids [OF assms(1) store, of Committed j] step_downloading_avoids [OF assms(1) store, of Committed j now]
      step_verified_avoids [OF assms(1) store, of Committed j] step_awaiting_avoids [OF assms(1) store, of Committed j now]
      step_rollback_avoids [OF assms(1) store, of Committed j] save_avoids [OF assms(1) store, of NeedsRecovery Committed j] idle
    by (cases "job_State j") (auto simp: step_state_def)
  with j ev show ?thesis by auto
qed
text \<open>The evidence on which a step decides to commit: healthy, within the deadline, stable for long enough.\<close>

definition health_evidence :: "'b agent \<Rightarrow> 'b engine \<Rightarrow> Job \<Rightarrow> bool" where
  "health_evidence A en j \<longleftrightarrow>
     (let now = en_clock en (en_tick en);
          since = (if en_healthySince en = 0 then now else en_healthySince en)
      in Health A en = None \<and> job_HealthStarted j \<le> now
         \<and> now < job_HealthStarted j + seconds (cfg_HealthTimeoutSeconds (ag_cfg A))
         \<and> seconds (cfg_HealthStableSeconds (ag_cfg A)) \<le> time_sub now since)"

lemma step_health_committing:
  assumes "store_ok (ag_lib A) (en_store en)" "en_store en1 = en_store en" "Now en = (now, en1)"
    and "\<not> avoids Committing en (step_health A j now en1)"
  shows "job_State j \<noteq> Committing \<and> health_evidence A en j"
proof -
  note av = save_avoids [OF assms(1), of _ _ Committing] avoids_frame
  obtain r en2 where st: "Status A en1 = (r, en2)" by fastforce
  note f2 = Status_frame [OF st] Now_frame [OF assms(3)]
  have h: "Health A en2 = Health A en" using f2 by (simp add: Health_def)
  obtain e3 en3 where m: "Mark A ''good'' (job_TargetSlot j) en2 = (e3, en3)" by fastforce
  have ns: "job_State j \<noteq> Committing" and "\<not> avoids Committing en (step_check A j now en2)"
    using assms(2,4) st f2 Mark_frame [OF m]
    by (cases r; cases e3; auto simp: step_health_def m av split: if_splits)+
  then have "health_evidence A en j"
    using f2 h assms(3) by (auto simp: step_check_def health_evidence_def Let_def Now_def av split: if_splits option.splits)
  with ns show ?thesis by simp
qed

lemma Step_committing:
  assumes "store_ok (ag_lib A) (en_store en)" "\<not> avoids Committing en (Step A en)"
  shows "\<exists>j. current en = Some j \<and> job_State j = CheckingHealth \<and> health_evidence A en j"
proof -
  obtain j where j: "current en = Some j"
    using assms confirmNormalBoot_avoids [OF assms(1)] by (cases "current en") (auto simp: Step_def)
  obtain now en1 where n: "Now en = (now, en1)" by fastforce
  have store: "en_store en1 = en_store en" using Now_frame [OF n] by simp
  have idle: "avoids Committing en (x, en1)" for x :: "error option" by (rule avoids_frame [OF store])
  have "\<not> avoids Committing en (step_state A j now en1)"
    using assms j n current_save_avoids [OF assms(1) n] idle
    by (auto simp: Step_def split: if_splits sum.splits)
  then have "job_State j = CheckingHealth \<and> health_evidence A en j"
    using step_health_committing [OF assms(1) store n, of j]
      step_accepted_avoids [OF assms(1) store, of Committing j] step_downloading_avoids [OF assms(1) store, of Committing j now]
      step_verified_avoids [OF assms(1) store, of Committing j] step_awaiting_avoids [OF assms(1) store, of Committing j now]
      step_rollback_avoids [OF assms(1) store, of Committing j] save_avoids [OF assms(1) store, of NeedsRecovery Committing j] idle
    by (cases "job_State j") (auto simp: step_state_def)
  with j show ?thesis by auto
qed

section \<open>Progress when storage works\<close>

text \<open>The storage accepts the next write and the random source answers.\<close>

definition storage_works :: "'b engine \<Rightarrow> bool" where
  "storage_works en \<longleftrightarrow> \<not> st_poisoned (en_store en) \<and> (\<forall>n. st_env (en_store en) n = Stored)
     \<and> length (db_Jobs (data_of en)) \<le> hotJobLimit \<and> length (db_Events (data_of en)) < eventLimit
     \<and> db_EventSequence (data_of en) + 1 \<noteq> 0 \<and> (\<forall>d n. is_ok (en_rng en d n))"

lemma nextSpan_works: "(\<And>d n. is_ok (R d n)) \<Longrightarrow> \<exists>p d'. nextSpan c R d j prev msg = (Inr p, d')"
proof -
  assume ok: "\<And>d n. is_ok (R d n)"
  have r: "\<exists>h. randomHex R n d = (Inr h, Suc d)" for n d
    using ok [of d n] by (auto simp: randomHex_def is_ok_iff)
  obtain trace d1 where t: "(if job_TraceID j = [] then randomHex R 16 d else (Inr (job_TraceID j), d)) = (Inr trace, d1)"
    using r [of 16 d] by (cases "job_TraceID j = []") auto
  obtain h where "randomHex R 8 d1 = (Inr h, Suc d1)" using r by blast
  with t show ?thesis by (simp add: nextSpan_def Let_def)
qed

lemma save_fn_valid:
  assumes "good_db L d" "map_of (db_Jobs d) (job_id j) = Some j0" "same_job j0 j" "db_Active d = job_id j"
    and "job_State j = st" "known_state st" "length (db_Events d) < eventLimit" "db_EventSequence d + 1 \<noteq> 0"
  shows "\<exists>d1. save_fn j st d = Inr d1 \<and> journal_ok L d1 \<and> length (db_Jobs d1) = length (db_Jobs d)
     \<and> length (db_Events d1) \<le> eventLimit \<and> map_of (db_Jobs d1) (job_id j) = Some j
     \<and> (\<not> Terminal st \<longrightarrow> db_Active d1 = job_id j)"
proof -
  let ?js = "AList.update (job_id j) j (db_Jobs d)"
  let ?ev = "\<lparr>ev_Sequence = db_EventSequence d + 1, ev_JobID = job_id j, ev_State = job_State j, ev_Error = job_Error j, ev_Time = job_Updated j\<rparr>"
  let ?d1 = "d\<lparr>db_Jobs := ?js, db_Active := if Terminal st then [] else db_Active d,
     db_EventSequence := db_EventSequence d + 1, db_Events := db_Events d @ [?ev]\<rparr>"
  have v: "journal_ok L d" "distinct (keys (db_Jobs d))" using assms(1) by (auto simp: good_db_def)
  have fn: "save_fn j st d = Inr ?d1" using assms(7) by (simp add: save_fn_def addEvent_def Let_def eventLimit_def)
  have j0: "job_ok L d (job_id j) j0" by (rule journal_job_ok [OF v(1) assms(2)])
  have lt: "db_EventSequence d < db_EventSequence d + 1"
    using u64_less_Suc [of "db_EventSequence d"] assms(8) by (simp add: add.commute)
  have jobs: "job_ok L ?d1 i k" if "(i, k) \<in> set ?js" for i k
  proof -
    have "map_of ?js i = Some k" by (rule map_of_is_SomeI) (use that v(2) in \<open>simp_all add: distinct_update\<close>)
    then consider "i = job_id j" "k = j" | "i \<noteq> job_id j" "map_of (db_Jobs d) i = Some k"
      by (auto simp: update_conv' simp del: map_of_eq_Some_iff split: if_splits)
    then show ?thesis
    proof cases
      case 1
      with j0 assms(3-6) show ?thesis by (auto simp: job_ok_def same_job_def)
    next
      case 2
      with journal_job_ok [OF v(1) 2(2)] assms(4) show ?thesis by (auto simp: job_ok_def)
    qed
  qed
  have "sorted_wrt (<) (map ev_Sequence (db_Events d) @ [db_EventSequence d + 1])"
    using v(1) lt by (auto simp: journal_ok_def events_ok_def sorted_wrt_append list_all_iff)
  moreover have "0 < db_EventSequence d + 1" using lt by (metis le_less_trans word_zero_le)
  ultimately have ev: "events_ok (db_EventSequence d + 1) (db_Events d @ [?ev])"
    using v(1) lt by (auto simp: journal_ok_def events_ok_def list_all_iff)
  have len: "length ?js = length (db_Jobs d)"
    using map_of_SomeD [OF assms(2)] by (intro length_update_present) force
  have "journal_ok L ?d1"
    unfolding journal_ok_def
    using v(1) jobs ev assms(4,5,7) len
    by (auto simp: journal_ok_def simp del: map_of_eq_Some_iff)
  with fn len assms(4,7) show ?thesis by (intro exI [of _ ?d1]) simp
qed
text \<open>
  With working storage a save of the active job succeeds and is on disk; the rest of the agent's
  state is as before but for bookkeeping.
\<close>

lemma update_works:
  assumes "storage_works en" "f (data_of en) = Inr d1" "journal_ok (ag_lib A) d1"
    and "length (db_Jobs d1) = length (db_Jobs (data_of en))" "length (db_Events d1) \<le> eventLimit"
  shows "update (ag_lib A) f (en_store en) = (None, (en_store en)\<lparr>st_writes := Suc (st_writes (en_store en)), st_row := Some (Inr d1),
     st_archive := st_archive (en_store en), st_data := d1\<rparr>)"
proof -
  have "compactHot d1 = Inr ([], d1)"
    using assms by (intro compactHot_small) (auto simp: storage_works_def)
  moreover have "validateDatabase (ag_lib A) d1 = None" using assms(3) validateDatabase_None by blast
  ultimately show ?thesis
    using assms(1,2) by (simp add: update_def Update_def pure_fn_def persist_def storage_works_def Let_def)
qed

lemma span_works:
  assumes "\<And>d n. is_ok (R d n)"
  obtains span j2 d tr i where "nextSpan c R n (with_trace s j1) prev msg = (Inr (span, j2), d)" "j2 = j1\<lparr>job_TraceID := tr, job_SpanID := i\<rparr>"
proof -
  obtain p d where "nextSpan c R n (with_trace s j1) prev msg = (Inr p, d)"
    using nextSpan_works [where R = R, OF assms] by meson
  moreover obtain span j2 where "p = (span, j2)" by (cases p)
  ultimately have ns: "nextSpan c R n (with_trace s j1) prev msg = (Inr (span, j2), d)" by simp
  obtain tr i where "j2 = (with_trace s j1)\<lparr>job_TraceID := tr, job_SpanID := i\<rparr>" using nextSpan_job [OF ns] by blast
  moreover obtain tr' i' where "with_trace s j1 = j1\<lparr>job_TraceID := tr', job_SpanID := i'\<rparr>" using with_trace_same by blast
  ultimately show thesis using that [OF ns] by simp
qed

lemma save_works:
  assumes "store_ok (ag_lib A) (en_store en)" "storage_works en" "map_of (db_Jobs (data_of en)) (db_Active (data_of en)) = Some j0"
    and "same_job j0 j" "known_state st"
  obtains en1 j2 where "save A j st msg en = (None, en1)"
    "\<exists>tr i now. j2 = j\<lparr>job_State := st, job_Error := msg, job_Updated := now, job_TraceID := tr, job_SpanID := i\<rparr>"
    "map_of (db_Jobs (data_of en1)) (job_id j) = Some j2" "\<not> Terminal st \<longrightarrow> db_Active (data_of en1) = job_id j"
    "durable (en_store en1) = data_of en1" "en_dev en1 = en_dev en" "store_ok (ag_lib A) (en_store en1)"
    "\<not> st_poisoned (en_store en1)" "st_env (en_store en1) = st_env (en_store en)" "en_rng en1 = en_rng en"
proof -
  have g: "good_db (ag_lib A) (data_of en)" using assms(1) by (simp add: store_ok_def)
  then have "job_ok (ag_lib A) (data_of en) (db_Active (data_of en)) j0" using journal_job_ok assms(3) by (simp add: good_db_def)
  then have act: "db_Active (data_of en) = job_id j" using assms(4) by (simp add: job_ok_def same_job_def)
  obtain now en0 where now: "Now en = (now, en0)" by fastforce
  have rng0: "en_rng en0 = en_rng en" using now by (auto simp: Now_def)
  then have "\<And>d n. is_ok (en_rng en0 d n)" using assms(2) by (simp add: storage_works_def)
  then obtain span j2 d tr i where
    ns: "nextSpan (ag_cfg A) (en_rng en0) (en_draws en0) (with_trace (en_store en0) (j\<lparr>job_State := st, job_Error := msg, job_Updated := now\<rparr>))
       (job_Updated j) msg = (Inr (span, j2), d)"
    and j2: "j2 = j\<lparr>job_State := st, job_Error := msg, job_Updated := now, job_TraceID := tr, job_SpanID := i\<rparr>"
    by (rule span_works)
  obtain d1 where d1: "save_fn j2 st (data_of en) = Inr d1" "journal_ok (ag_lib A) d1"
    "length (db_Jobs d1) = length (db_Jobs (data_of en))" "length (db_Events d1) \<le> eventLimit"
    "map_of (db_Jobs d1) (job_id j2) = Some j2" "\<not> Terminal st \<longrightarrow> db_Active d1 = job_id j2"
    using save_fn_valid [OF g, of j2 j0 st] j2 act assms(2-5) by (auto simp: storage_works_def same_job_def)
  note u = update_works [where f = "save_fn j2 st", OF assms(2) d1(1-4)]
  obtain en1 where sv: "save A j st msg en = (None, en1)" and en1: "en_store en1 = snd (update (ag_lib A) (save_fn j2 st) (en_store en))" "en_rng en1 = en_rng en0"
    using now ns u Now_frame [OF now] by (simp add: save_def Let_def)
  note en1 = en1 [unfolded u, simplified]
  show thesis
  proof (rule that [OF sv _ _ _ _ save_dev [OF sv] save_store_ok [OF sv assms(1)]])
    show "\<exists>tr i now. j2 = j\<lparr>job_State := st, job_Error := msg, job_Updated := now, job_TraceID := tr, job_SpanID := i\<rparr>"
      using j2 by blast
  qed (use d1(5,6) en1 j2 rng0 assms(2) in \<open>simp_all add: durable_def storage_works_def\<close>)
qed

lemma save_stored:
  assumes "store_ok (ag_lib A) (en_store en)" "storage_works en" "map_of (db_Jobs (data_of en)) (db_Active (data_of en)) = Some j0"
    and "same_job j0 j" "known_state st"
  shows "\<exists>en1 j2. save A j st msg en = (None, en1) \<and> map_of (db_Jobs (durable (en_store en1))) (job_id j) = Some j2
    \<and> same_job j j2 \<and> job_State j2 = st"
proof (rule save_works [OF assms, of msg])
  fix en1 j2
  assume "save A j st msg en = (None, en1)" "map_of (db_Jobs (data_of en1)) (job_id j) = Some j2"
    "durable (en_store en1) = data_of en1"
    "\<exists>tr i now. j2 = j\<lparr>job_State := st, job_Error := msg, job_Updated := now, job_TraceID := tr, job_SpanID := i\<rparr>"
  then show ?thesis by (intro exI [of _ en1] exI [of _ j2]) (auto simp: same_job_def)
qed

section \<open>A simulator whose file can be written\<close>

definition sim_works :: "simulator \<Rightarrow> DeviceStatus \<Rightarrow> bool" where
  "sim_works s v \<longleftrightarrow> sim_file s = Inr v \<and> (\<forall>n. sim_env s n = Stored)"

lemma mark_loop_total:
  "st \<in> {''good'', ''bad'', ''active''} \<Longrightarrow> \<exists>r. mark_loop st n sls (found, out, primary) = Inr r"
  by (induction sls arbitrary: found out primary) auto

lemma sim_Mark_works:
  assumes "sim_works s v" "st \<in> {''good'', ''bad'', ''active''}" "n \<in> set (map slot_Name (ds_Slots v))"
  shows "\<exists>s1 v1. sim_Mark st n s = (None, s1) \<and> sim_works s1 v1 \<and> sim_FailBoot s1 = sim_FailBoot s
    \<and> ds_Operation v1 = ds_Operation v \<and> ds_Booted v1 = ds_Booted v
    \<and> map slot_Name (ds_Slots v1) = map slot_Name (ds_Slots v)
    \<and> ds_Primary v1 = (if st = ''active'' then n else ds_Primary v)"
proof -
  obtain found out primary where m: "mark_loop st n (ds_Slots v) (False, [], ds_Primary v) = Inr (found, out, primary)"
    using mark_loop_total [OF assms(2)] by (metis prod_cases3)
  note o = mark_loop_out [OF m]
  from o assms(1,3) m show ?thesis
    by (auto simp: sim_Mark_def sim_works_def sim_write_def Let_def)
qed

lemma sim_Reboot_works:
  assumes "sim_works s v" "\<not> sim_FailBoot s"
  shows "\<exists>s1 v1. sim_Reboot s = (None, s1) \<and> sim_works s1 v1 \<and> ds_Operation v1 = ds_Operation v \<and> ds_Booted v1 = ds_Primary v"
  using assms by (auto simp: sim_Reboot_def sim_works_def sim_write_def Let_def)

text \<open>Marking the new slot bad, the old one active, and rebooting leads back to the old slot.\<close>

lemma step_rollback_works:
  assumes "ag_backend A = Simulator L" "sim_works (en_dev en) v" "\<not> sim_FailBoot (en_dev en)" "ds_Operation v = ''idle''"
    and "ds_Booted v = job_TargetSlot j" "job_TargetSlot j \<noteq> job_OldSlot j"
    and "job_TargetSlot j \<in> set (map slot_Name (ds_Slots v))" "job_OldSlot j \<in> set (map slot_Name (ds_Slots v))"
  shows "\<exists>s1 v1. step_rollback A j en = (None, en\<lparr>en_dev := s1\<rparr>) \<and> sim_works s1 v1
    \<and> ds_Operation v1 = ''idle'' \<and> ds_Booted v1 = job_OldSlot j"
proof -
  obtain s1 v1 where 1: "sim_Mark ''bad'' (job_TargetSlot j) (en_dev en) = (None, s1)" "sim_works s1 v1"
    "\<not> sim_FailBoot s1" "ds_Operation v1 = ''idle''" "map slot_Name (ds_Slots v1) = map slot_Name (ds_Slots v)"
    using sim_Mark_works [OF assms(2) _ assms(7), of "''bad''"] assms(3,4) by auto
  obtain s2 v2 where 2: "sim_Mark ''active'' (job_OldSlot j) s1 = (None, s2)" "sim_works s2 v2"
    "\<not> sim_FailBoot s2" "ds_Operation v2 = ''idle''" "ds_Primary v2 = job_OldSlot j"
    using sim_Mark_works [OF 1(2), of "''active''" "job_OldSlot j"] 1(3-5) assms(8) by auto
  obtain s3 v3 where 3: "sim_Reboot s2 = (None, s3)" "sim_works s3 v3" "ds_Operation v3 = ''idle''" "ds_Booted v3 = job_OldSlot j"
    using sim_Reboot_works [OF 2(2,3)] 2(4,5) by auto
  have "step_rollback A j en = (None, en\<lparr>en_dev := s3\<rparr>)"
    using assms(2,4-6) 1(1) 2(1) 3(1)
    by (simp add: step_rollback_def Status_def Mark_def Reboot_def assms(1) Simulator_def sim_Status_def sim_works_def)
  with 3 show ?thesis by blast
qed

section \<open>Sample states\<close>

definition sample_active :: "JobState \<Rightarrow> time \<Rightarrow> Job" where
  "sample_active st h = (sample_job ''b'' st 3)\<lparr>job_OldSlot := ''rootfs.0'', job_OldVersion := ''factory'',
     job_TargetSlot := ''rootfs.1'', job_BootID := ''boot-1'', job_HealthStarted := h\<rparr>"

definition sample_active_db :: "JobState \<Rightarrow> time \<Rightarrow> Database" where
  "sample_active_db st h = empty_Database\<lparr>db_HighSequence := 1, db_Active := ''b'', db_Jobs := [(''b'', sample_active st h)]\<rparr>"

definition sample_booted :: DeviceStatus where
  "sample_booted = \<lparr>ds_BootID = ''boot-1'', ds_Booted = ''rootfs.1'', ds_Primary = ''rootfs.1'',
     ds_Operation = ''idle'', ds_Compatible = ''board'',
     ds_Slots = [\<lparr>slot_Name = ''rootfs.0'', slot_Version = ''factory'', slot_Good = True\<rparr>,
       \<lparr>slot_Name = ''rootfs.1'', slot_Version = ''v1'', slot_Good = False\<rparr>]\<rparr>"

definition sample_at :: "JobState \<Rightarrow> time \<Rightarrow> simulator engine" where
  "sample_at st h = sample_engine\<lparr>en_dev := sample_sim\<lparr>sim_file := Inr sample_booted\<rparr>, en_store :=
     \<lparr>st_data = sample_active_db st h, st_poisoned = False, st_row = Some (Inr (sample_active_db st h)), st_archive = [],
      st_env = (\<lambda>_. Stored), st_writes = 0\<rparr>\<rparr>"

lemma sample_at_ok:
  assumes "known_state st" "\<not> Terminal st"
  shows "store_ok (ag_lib sample_agent) (en_store (sample_at st h))"
    "storage_works (sample_at st h)" "current (sample_at st h) = Some (sample_active st h)"
proof -
  have "validateDatabase sample_lib (sample_active_db st h) = None"
    using assms
    by (simp add: validateDatabase_def validate_job_def validate_active_def sample_active_db_def sample_active_def
        sample_job_def sample_defs empty_Database_def hotJobLimit_def eventLimit_def Fingerprint_def)
  then have "good_db sample_lib (sample_active_db st h)"
    by (simp add: good_db_def validateDatabase_None) (simp add: sample_active_db_def)
  then show "store_ok (ag_lib sample_agent) (en_store (sample_at st h))"
    by (simp add: store_ok_def sample_at_def durable_def sample_agent_def)
  show "storage_works (sample_at st h)"
    by (simp add: storage_works_def sample_at_def sample_active_db_def empty_Database_def hotJobLimit_def eventLimit_def
        sample_engine_def is_ok_iff)
  show "current (sample_at st h) = Some (sample_active st h)"
    by (simp add: current_def View_def sample_at_def sample_active_db_def)
qed

section \<open>Properties\<close>

text \<open>
  C4. Nothing is committed without evidence. Whenever a step writes the state \<open>COMMITTED\<close>, in memory or on disk, the
  active job either carries only side payloads and was verified, or it was being committed and in
  this very step the device reported that it runs the target slot, not the old one, with the
  release's version there and with the boot ID of the health check, and accepted the mark \<open>good\<close>.
\<close>

theorem commit_requires_evidence:
  assumes "store_ok (ag_lib A) (en_store en)" "Step A en = (eo, en1)"
    and "enters Committed (data_of en) (data_of en1) \<or> enters Committed (durable (en_store en)) (durable (en_store en1))"
  shows "\<exists>j. current en = Some j \<and> (job_State j = Verified \<and> \<not> HasOS (job_Release j)
     \<or> job_State j = Committing \<and> commit_evidence A en j)"
  using assms by (intro Step_commits) (auto simp: avoids_def)

theorem commit_requires_evidence_witness:
  "commit_evidence sample_agent (sample_at Committing 5) (sample_active Committing 5)"
proof -
  let ?en = "sample_at Committing 5"
  have "(case map_of (db_Jobs (data_of (snd (Step sample_agent ?en)))) ''b'' of None \<Rightarrow> False | Some j \<Rightarrow> job_State j = Committed)"
    by code_simp
  then have "enters Committed (data_of ?en) (data_of (snd (Step sample_agent ?en)))"
    by (auto simp: enters_def sample_at_def sample_active_db_def sample_active_def sample_job_def split: option.splits
        intro!: exI [of _ "''b''"])
  from commit_requires_evidence [OF sample_at_ok(1) surjective_pairing disjI1 [OF this]] show ?thesis
    by (auto simp: sample_at_ok(3) sample_active_def sample_job_def)
qed



text \<open>
  C16. A missed health deadline leads to rollback: with working storage, if the active job is
  checking health on the expected slot, version and boot, and the clock shows a time outside the
  health window, then this step succeeds and the disk says \<open>ROLLBACK_PENDING\<close>.
\<close>

theorem health_deadline_rolls_back:
  assumes "store_ok (ag_lib A) (en_store en)" "storage_works en" "current en = Some j" "job_State j = CheckingHealth"
    and "be_Status (ag_backend A) (en_dev en) = (Inr s, dev)"
    and "ds_Booted s = job_TargetSlot j" "job_TargetSlot j \<noteq> job_OldSlot j"
    and "VersionOf s (job_TargetSlot j) = rel_Version (job_Release j)" "ds_BootID s = job_BootID j"
    and "en_clock en (en_tick en) < job_HealthStarted j
      \<or> job_HealthStarted j + seconds (cfg_HealthTimeoutSeconds (ag_cfg A)) \<le> en_clock en (en_tick en)"
  shows "\<exists>en1 j1. Step A en = (None, en1) \<and> map_of (db_Jobs (durable (en_store en1))) (job_id j) = Some j1
    \<and> same_job j j1 \<and> job_State j1 = RollbackPending"
proof -
  let ?en = "en\<lparr>en_tick := Suc (en_tick en), en_dev := dev\<rparr>"
  have "map_of (db_Jobs (data_of ?en)) (db_Active (data_of ?en)) = Some j" using current_job [OF assms(3)] by simp
  moreover have "storage_works ?en" "store_ok (ag_lib A) (en_store ?en)"
    using assms(2) assms(1) by (simp_all add: storage_works_def)
  ultimately obtain en1 j1 where sv: "save A j RollbackPending ''health verification deadline exceeded'' ?en = (None, en1)"
    "map_of (db_Jobs (durable (en_store en1))) (job_id j) = Some j1" "same_job j j1" "job_State j1 = RollbackPending"
    using save_stored [of A ?en j j RollbackPending] by fastforce
  have "Step A en = (None, en1)"
    using assms(3-10) sv(1)
    by (auto simp: Step_def Now_def before_install_def step_state_def step_health_def Status_def step_check_def)
  with sv show ?thesis by blast
qed

theorem health_deadline_rolls_back_witness:
  "\<exists>en1 j1. Step sample_agent (sample_at CheckingHealth 11) = (None, en1)
     \<and> map_of (db_Jobs (durable (en_store en1))) ''b'' = Some j1 \<and> job_State j1 = RollbackPending"
proof -
  let ?en = "sample_at CheckingHealth 11" and ?j = "sample_active CheckingHealth 11"
  have "be_Status (ag_backend sample_agent) (en_dev ?en) = (Inr sample_booted, en_dev ?en)"
    by (simp add: sample_agent_def Simulator_def sim_Status_def sample_at_def)
  moreover have "job_State ?j = CheckingHealth" "ds_Booted sample_booted = job_TargetSlot ?j" "job_TargetSlot ?j \<noteq> job_OldSlot ?j"
    "VersionOf sample_booted (job_TargetSlot ?j) = rel_Version (job_Release ?j)" "ds_BootID sample_booted = job_BootID ?j"
    "en_clock ?en (en_tick ?en) < job_HealthStarted ?j" "job_id ?j = ''b''"
    by (simp_all add: sample_booted_def sample_active_def sample_job_def VersionOf_def sample_release1_def sample_at_def sample_engine_def)
  ultimately show ?thesis
    using health_deadline_rolls_back [OF sample_at_ok(1-3), of CheckingHealth 11] by fastforce
qed

text \<open>
  C17. Rollback completes: with working storage and a simulator whose status file can be written,
  whose slots include both of the job's and whose boots succeed, a job in \<open>ROLLBACK_PENDING\<close> on the
  target slot is rolled back after two steps: the first marks the slots and reboots, the second
  finds the old slot running and records \<open>ROLLED_BACK\<close> on disk.
\<close>

theorem rollback_completes:
  assumes "store_ok (ag_lib A) (en_store en)" "storage_works en" "current en = Some j" "job_State j = RollbackPending"
    and "ag_backend A = Simulator L" "sim_works (en_dev en) v" "\<not> sim_FailBoot (en_dev en)" "ds_Operation v = ''idle''"
    and "ds_Booted v = job_TargetSlot j" "job_TargetSlot j \<noteq> job_OldSlot j"
    and "job_TargetSlot j \<in> set (map slot_Name (ds_Slots v))" "job_OldSlot j \<in> set (map slot_Name (ds_Slots v))"
  shows "\<exists>en1 en2 j2. Step A en = (None, en1) \<and> Step A en1 = (None, en2)
    \<and> map_of (db_Jobs (durable (en_store en2))) (job_id j) = Some j2 \<and> same_job j j2 \<and> job_State j2 = RolledBack"
proof -
  let ?a = "en\<lparr>en_tick := Suc (en_tick en)\<rparr>"
  have "sim_works (en_dev ?a) v" "\<not> sim_FailBoot (en_dev ?a)" using assms(6,7) by simp_all
  from step_rollback_works [OF assms(5) this assms(8-12)] obtain s1 v1 where
    r: "step_rollback A j ?a = (None, ?a\<lparr>en_dev := s1\<rparr>)" "sim_works s1 v1" "ds_Operation v1 = ''idle''" "ds_Booted v1 = job_OldSlot j"
    by blast
  let ?b = "?a\<lparr>en_dev := s1\<rparr>"
  have st: "Step A en = (None, ?b)"
    using assms(3,4) r(1) by (simp add: Step_def Now_def before_install_def step_state_def)
  let ?c = "?b\<lparr>en_tick := Suc (Suc (en_tick en))\<rparr>"
  have "map_of (db_Jobs (data_of ?c)) (db_Active (data_of ?c)) = Some j" using current_job [OF assms(3)] by simp
  moreover have "storage_works ?c" "store_ok (ag_lib A) (en_store ?c)"
    using assms(2) assms(1) by (simp_all add: storage_works_def)
  ultimately obtain en2 j2 where sv: "save A j RolledBack (job_Error j) ?c = (None, en2)"
    "map_of (db_Jobs (durable (en_store en2))) (job_id j) = Some j2" "same_job j j2" "job_State j2 = RolledBack"
    using save_stored [of A ?c j j RolledBack] by fastforce
  have "current ?b = Some j" using assms(3) by (simp add: current_def)
  then have "Step A ?b = (None, en2)"
    using assms(4) sv(1) r(2-4)
    by (simp add: Step_def Now_def before_install_def step_state_def step_rollback_def Status_def assms(5) Simulator_def
        sim_Status_def sim_works_def)
  with st sv show ?thesis by blast
qed
theorem rollback_completes_witness:
  "\<exists>en1 en2 j2. Step sample_agent (sample_at RollbackPending 5) = (None, en1) \<and> Step sample_agent en1 = (None, en2)
     \<and> map_of (db_Jobs (durable (en_store en2))) ''b'' = Some j2 \<and> job_State j2 = RolledBack"
proof -
  let ?en = "sample_at RollbackPending 5" and ?j = "sample_active RollbackPending 5"
  have "sim_works (en_dev ?en) sample_booted" "\<not> sim_FailBoot (en_dev ?en)" "ag_backend sample_agent = Simulator sample_lib"
    by (simp_all add: sim_works_def sample_at_def sample_sim_def sample_agent_def)
  moreover have "job_State ?j = RollbackPending" "ds_Booted sample_booted = job_TargetSlot ?j" "job_TargetSlot ?j \<noteq> job_OldSlot ?j"
    "job_TargetSlot ?j \<in> set (map slot_Name (ds_Slots sample_booted))" "job_OldSlot ?j \<in> set (map slot_Name (ds_Slots sample_booted))"
    "ds_Operation sample_booted = ''idle''" "job_id ?j = ''b''"
    by (simp_all add: sample_booted_def sample_active_def sample_job_def)
  ultimately show ?thesis
    using rollback_completes [OF sample_at_ok(1-3), of RollbackPending 5] by fastforce
qed

section \<open>Normal boots after a payload-only update\<close>


definition sample_payload_done :: "simulator engine" where
  "sample_payload_done = sample_engine\<lparr>en_dev := sample_sim\<lparr>sim_file := Inr (sim_factory ''board'')\<rparr>, en_store := (en_store sample_engine)\<lparr>st_data :=
     empty_Database\<lparr>db_HighSequence := 1, db_Jobs := [(''b'', sample_job ''b'' Committed 3)]\<rparr>\<rparr>\<rparr>"


section \<open>Executions of an unhealthy device\<close>

definition free_of :: "JobState \<Rightarrow> 'b engine \<Rightarrow> bool" where
  "free_of st en \<longleftrightarrow> (\<forall>i j. map_of (db_Jobs (data_of en)) i = Some j \<longrightarrow> job_State j \<noteq> st)
     \<and> (\<forall>i j. map_of (db_Jobs (durable (en_store en))) i = Some j \<longrightarrow> job_State j \<noteq> st)"

lemma avoids_free: "avoids st en (x, en1) \<Longrightarrow> free_of st en \<Longrightarrow> free_of st en1"
  unfolding avoids_def free_of_def enters_def by (metis snd_conv)

lemma RequestReboot_avoids:
  "store_ok (ag_lib A) (en_store en) \<Longrightarrow> st \<noteq> AwaitingReboot \<Longrightarrow> avoids st en (RequestReboot A busy en)"
  by (auto simp: RequestReboot_def split: prod.split sum.split option.split
      intro!: avoids_frame reboot_avoids dest!: Status_frame Now_frame)

lemma RecoverAbort_avoids:
  "store_ok (ag_lib A) (en_store en) \<Longrightarrow> st \<noteq> Failed \<Longrightarrow> avoids st en (RecoverAbort A busy en)"
  by (auto simp: RecoverAbort_def split: prod.split sum.split option.split
      intro!: avoids_frame save_avoids dest!: Status_frame Mark_frame)

lemma Ack_avoids: "store_ok (ag_lib A) (en_store en) \<Longrightarrow> avoids st en (Ack A n en)"
  unfolding Ack_def by (rule update_jobs_avoids) (auto simp: ack_fn_def split: if_splits)

lemma GC_avoids: "avoids st en (GC A busy en)"
  by (auto simp: GC_def split: prod.split sum.split intro: avoids_frame)

lemma admits_enters: "admits d j d' \<Longrightarrow> st \<noteq> Accepted \<Longrightarrow> \<not> enters st d d'"
  unfolding admits_def enters_def by (metis option.inject)

lemma Submit_avoids:
  assumes "Submit A busy a en = (r, en1)" "store_ok (ag_lib A) (en_store en)" "st \<noteq> Accepted"
  shows "avoids st en (r, en1)"
  using assms(1,2) by (cases rule: Submit_cases) (use assms(3) in \<open>auto simp: avoids_def dest: admits_enters\<close>)

text \<open>Every event but a step of the engine leaves the journal free of a state that only a step enters.\<close>

lemma agent_step_free:
  assumes "agent_step A en en1" "store_ok (ag_lib A) (en_store en)" "free_of st en" "st \<notin> {Accepted, AwaitingReboot, Failed}"
    and "avoids st en (Step A en)"
  shows "free_of st en1"
  using assms(1)
proof cases
  case (stepped eo)
  with assms(3,5) show ?thesis by (auto intro: avoids_free)
next
  case (submitted busy a r)
  from Submit_avoids [OF this assms(2)] assms(3,4) show ?thesis by (auto intro: avoids_free)
next
  case (reboot_requested busy eo)
  with RequestReboot_avoids [OF assms(2), of st busy] assms(3,4) show ?thesis by (auto intro: avoids_free)
next
  case (abort_requested busy eo)
  with RecoverAbort_avoids [OF assms(2), of st busy] assms(3,4) show ?thesis by (auto intro: avoids_free)
next
  case (acknowledged n eo)
  with Ack_avoids [OF assms(2), of st n] assms(3) show ?thesis by (auto intro: avoids_free)
next
  case (collected busy eo)
  with GC_avoids [of st en A busy] assms(3) show ?thesis by (auto intro: avoids_free)
next
  case world
  with assms(3) show ?thesis by (simp add: free_of_def)
next
  case (restarted s1 f1)
  have "st_data s1 = durable (en_store en)" "store_ok (ag_lib A) s1" "\<not> st_poisoned s1"
    using load_fresh [OF assms(2) restarted(2)] restarted(3) by auto
  then have "durable s1 = durable (en_store en)" by (simp add: store_ok_def)
  with \<open>st_data s1 = durable (en_store en)\<close> restarted(1) assms(3) show ?thesis by (simp add: free_of_def)
qed

lemma unhealthy_step_avoids:
  assumes "store_ok (ag_lib A) (en_store en)" "\<And>P f. ag_Health A P f \<noteq> None"
  shows "avoids Committing en (Step A en)"
  using Step_committing [OF assms(1)] assms(2) by (auto simp: health_evidence_def Health_def Let_def)

lemma unhealthy_free:
  assumes "(agent_step A)\<^sup>*\<^sup>* en en1" "store_ok (ag_lib A) (en_store en)" "free_of Committing en" "\<And>P f. ag_Health A P f \<noteq> None"
  shows "free_of Committing en1 \<and> store_ok (ag_lib A) (en_store en1)"
  using assms(1)
proof (induction rule: rtranclp_induct)
  case (step en1 en2)
  with agent_step_free [OF step.hyps(2) _ _ _ unhealthy_step_avoids [OF _ assms(4)]] agent_step_evolve [OF step.hyps(2)]
  show ?case by auto
qed (use assms in simp)

text \<open>
  C15. A device whose health never passes never commits an operating system: however steps, operator requests, acknowledgements, failed writes and
  restarts interleave, no job ever becomes \<open>COMMITTING\<close>, in memory or on disk, and a step that commits a job commits one
  without an operating system.
\<close>

theorem unhealthy_never_commits:
  assumes "(agent_step A)\<^sup>*\<^sup>* en en1" "store_ok (ag_lib A) (en_store en)" "free_of Committing en" "\<And>P f. ag_Health A P f \<noteq> None"
  shows "free_of Committing en1 \<and> (enters Committed (data_of en1) (data_of (snd (Step A en1))) \<longrightarrow>
     (\<exists>j. current en1 = Some j \<and> \<not> HasOS (job_Release j)))"
proof -
  note free = unhealthy_free [OF assms]
  have "current en1 = Some j \<Longrightarrow> job_State j \<noteq> Committing" for j
    using free by (auto simp: free_of_def current_def View_def)
  moreover have "enters Committed (data_of en1) (data_of (snd (Step A en1))) \<Longrightarrow> \<not> avoids Committed en1 (Step A en1)"
    by (simp add: avoids_def)
  ultimately show ?thesis using free Step_commits [of A en1] by blast
qed

theorem unhealthy_never_commits_witness:
  "free_of Committing (snd (Step (sample_agent\<lparr>ag_Health := \<lambda>P f. Some (Err ''down'')\<rparr>) (sample_at CheckingHealth 5)))"
proof -
  let ?A = "sample_agent\<lparr>ag_Health := \<lambda>P f. Some (Err ''down'')\<rparr>" and ?en = "sample_at CheckingHealth 5"
  have "agent_step ?A ?en (snd (Step ?A ?en))" by (rule stepped [OF surjective_pairing])
  moreover have "free_of Committing ?en"
    by (auto simp: free_of_def sample_at_def sample_active_db_def sample_active_def sample_job_def durable_def split: if_splits)
  moreover have "store_ok (ag_lib ?A) (en_store ?en)" using sample_at_ok(1) by simp
  ultimately show ?thesis using unhealthy_never_commits [of ?A ?en] by auto
qed

end
