(* ===== verification/OTA_Campaign.thy ===== *)
theory OTA_Campaign
  imports OTA_Download
begin

text \<open>
  Offline campaigns (\<open>internal/ota/campaign.go\<close>): a signed assignment and its artifacts in a
  directory, exported by one machine and copied into the media directory of a device by another.
\<close>

section \<open>The code\<close>

definition assignmentRelease :: "lib \<Rightarrow> Assignment \<Rightarrow> Release result" where
  "assignmentRelease L a = StrictJSON (lib_dec_Release L) (env_Payload (asg_Release a))"

definition assignmentArtifacts :: "lib \<Rightarrow> Assignment \<Rightarrow> Artifact list result" where
  "assignmentArtifacts L a = (case assignmentRelease L a of Inl e \<Rightarrow> Inl e | Inr rel \<Rightarrow> releaseArtifacts rel)"

definition campaign_file :: "string \<Rightarrow> Artifact \<Rightarrow> path" where
  "campaign_file dir a = Join (abs_path dir) (art_SHA256 a @ ''.raucb'')"

fun export_artifacts :: "lib \<Rightarrow> string \<Rightarrow> string \<Rightarrow> Artifact list \<Rightarrow> fs \<Rightarrow> error option \<times> fs" where
  "export_artifacts L artifactDir dir [] f = (None, f)"
| "export_artifacts L artifactDir dir (a # as) f =
     (case CheckArtifact L f (campaign_file artifactDir a) a of
        Some e \<Rightarrow> (Some e, f)
      | None \<Rightarrow> (case copyFile (campaign_file artifactDir a) (campaign_file dir a) f of
          (Some e, f1) \<Rightarrow> (Some e, f1)
        | (None, f1) \<Rightarrow> export_artifacts L artifactDir dir as f1))"

definition assignment_file :: "string \<Rightarrow> path" where
  "assignment_file dir = Join (abs_path dir) ''assignment.json''"

text \<open>\<open>indent\<close> is \<open>json.MarshalIndent\<close> of an assignment.\<close>

definition ExportCampaign ::
  "lib \<Rightarrow> (Assignment \<Rightarrow> bytes result) \<Rightarrow> string \<Rightarrow> Assignment \<Rightarrow> string \<Rightarrow> fs \<Rightarrow> error option \<times> fs" where
  "ExportCampaign L indent dir assignment artifactDir f =
     (case os_MkdirAll (abs_path dir) f of (Some e, f1) \<Rightarrow> (Some e, f1)
      | (None, f1) \<Rightarrow> (case assignmentArtifacts L assignment of Inl e \<Rightarrow> (Some e, f1)
        | Inr arts \<Rightarrow> (case export_artifacts L artifactDir dir arts f1 of
            (Some e, f2) \<Rightarrow> (Some e, f2)
          | (None, f2) \<Rightarrow> (case indent assignment of Inl e \<Rightarrow> (Some e, f2)
            | Inr b \<Rightarrow> AtomicWrite (assignment_file dir) b f2))))"

fun check_artifacts :: "lib \<Rightarrow> string \<Rightarrow> Artifact list \<Rightarrow> fs \<Rightarrow> error option" where
  "check_artifacts L dir [] f = None"
| "check_artifacts L dir (a # as) f =
     (case CheckArtifact L f (campaign_file dir a) a of Some e \<Rightarrow> Some e | None \<Rightarrow> check_artifacts L dir as f)"

definition ImportCampaign :: "lib \<Rightarrow> string \<Rightarrow> fs \<Rightarrow> Assignment result" where
  "ImportCampaign L dir f =
     (case os_ReadFile f (assignment_file dir) of Inl e \<Rightarrow> Inl e
      | Inr b \<Rightarrow> (case StrictJSON (lib_dec_Assignment L) b of Inl e \<Rightarrow> Inl e
        | Inr a \<Rightarrow> (case assignmentArtifacts L a of Inl e \<Rightarrow> Inl e
          | Inr arts \<Rightarrow> (case check_artifacts L dir arts f of Some e \<Rightarrow> Inl e | None \<Rightarrow> Inr a))))"

definition CopyToMedia :: "lib \<Rightarrow> string \<Rightarrow> path \<Rightarrow> Artifact \<Rightarrow> fs \<Rightarrow> path result \<times> fs" where
  "CopyToMedia L mediaDir artifactPath a f =
     (if \<not> IsAbs mediaDir then (Inl (Err ''media dir must be absolute''), f)
      else case CheckArtifact L f artifactPath a of Some e \<Rightarrow> (Inl e, f)
      | None \<Rightarrow> (case os_MkdirAll (abs_path mediaDir) f of (Some e, f1) \<Rightarrow> (Inl e, f1)
        | (None, f1) \<Rightarrow> (case copyFile artifactPath (campaign_file mediaDir a) f1 of
            (Some e, f2) \<Rightarrow> (Inl e, f2)
          | (None, f2) \<Rightarrow> (Inr (campaign_file mediaDir a), f2))))"

fun install_artifacts :: "lib \<Rightarrow> string \<Rightarrow> string \<Rightarrow> Artifact list \<Rightarrow> fs \<Rightarrow> error option \<times> fs" where
  "install_artifacts L mediaDir campaignDir [] f = (None, f)"
| "install_artifacts L mediaDir campaignDir (a # as) f =
     (case CopyToMedia L mediaDir (campaign_file campaignDir a) a f of
        (Inl e, f1) \<Rightarrow> (Some e, f1)
      | (Inr p, f1) \<Rightarrow> install_artifacts L mediaDir campaignDir as f1)"

definition InstallCampaign :: "lib \<Rightarrow> string \<Rightarrow> string \<Rightarrow> Assignment \<Rightarrow> fs \<Rightarrow> error option \<times> fs" where
  "InstallCampaign L mediaDir campaignDir assignment f =
     (case assignmentArtifacts L assignment of Inl e \<Rightarrow> (Some e, f)
      | Inr arts \<Rightarrow> install_artifacts L mediaDir campaignDir arts f)"

section \<open>Copying a set of artifacts\<close>

lemma add_artifacts_named:
  assumes "add_artifacts as out = Inr res" "distinct (map art_SHA256 out)" "\<forall>a \<in> set out. digestPattern (art_SHA256 a) \<and> 0 < art_Size a"
  shows "distinct (map art_SHA256 res) \<and> (\<forall>a \<in> set res. digestPattern (art_SHA256 a) \<and> 0 < art_Size a)"
  using assms
proof (induction as arbitrary: out)
  case (Cons a as)
  then obtain out1 where out1: "add_artifact a out = Inr out1" "add_artifacts as out1 = Inr res"
    by (auto split: sum.splits)
  have "distinct (map art_SHA256 out1)" "\<forall>a \<in> set out1. digestPattern (art_SHA256 a) \<and> 0 < art_Size a"
    using out1(1) Cons.prems(2,3) by (auto simp: add_artifact_def split: if_splits)
  with Cons.IH [OF out1(2)] show ?case by blast
qed auto

lemma releaseArtifacts_named:
  "releaseArtifacts r = Inr as \<Longrightarrow> distinct (map art_SHA256 as) \<and> (\<forall>a \<in> set as. digestPattern (art_SHA256 a) \<and> 0 < art_Size a)"
  using add_artifacts_named [of "rel_Artifact r # rel_SBOM r # map tgt_Artifact (rel_Targets r)" "[]" as]
  by (simp add: releaseArtifacts_def del: add_artifacts.simps split: sum.splits if_splits)

lemma assignmentArtifacts_named:
  "assignmentArtifacts L a = Inr as \<Longrightarrow> distinct (map art_SHA256 as) \<and> (\<forall>a \<in> set as. digestPattern (art_SHA256 a))"
  by (auto simp: assignmentArtifacts_def split: sum.splits dest!: releaseArtifacts_named)

lemma campaign_file_plain: "digestPattern (art_SHA256 a) \<Longrightarrow> campaign_file dir a = abs_path dir @ [art_SHA256 a @ ''.raucb'']"
  by (simp add: campaign_file_def plain_digest)

text \<open>No entry of the directory under an artifact's name is a link or a directory.\<close>

definition free_names :: "string \<Rightarrow> Artifact list \<Rightarrow> fs \<Rightarrow> bool" where
  "free_names dir as f \<longleftrightarrow> (\<forall>a \<in> set as. reg_or_none f (campaign_file dir a))"

lemma copy_artifact:
  assumes "CheckArtifact L f (campaign_file src a) a = None"
    and "copyFile (campaign_file src a) (campaign_file dst a) f = (None, f1)"
    and "digestPattern (art_SHA256 a)" "abs_path src \<noteq> abs_path dst" "reg_or_none f (campaign_file dst a)"
  shows "holds_artifact L f1 (campaign_file dst a) a"
    "q \<noteq> campaign_file dst a \<Longrightarrow> node_at f1 q = node_at f q" "reg_or_none f1 (campaign_file dst a)"
proof -
  have ne: "campaign_file src a \<noteq> campaign_file dst a" "campaign_file dst a \<noteq> []"
    using assms(3,4) by (simp_all add: campaign_file_plain)
  obtain b where b: "node_at f (campaign_file src a) = Some (RegFile b)" "int (length b) = art_Size a" "lib_sha256 L b = art_SHA256 a"
    using CheckArtifact_sound [OF assms(1)] by (auto simp: holds_artifact_def)
  have "node_at f1 (campaign_file dst a) = Some (RegFile b)"
    using copyFile_ok [OF _ assms(5) b(1)] ne assms(2) by simp
  with b show "holds_artifact L f1 (campaign_file dst a) a" by (simp add: holds_artifact_def)
  show "q \<noteq> campaign_file dst a \<Longrightarrow> node_at f1 q = node_at f q" "reg_or_none f1 (campaign_file dst a)"
    using copyFile_effect [OF assms(5) ne(2), of "campaign_file src a"] assms(2) by simp_all
qed
lemma campaign_file_eq:
  "digestPattern (art_SHA256 a) \<Longrightarrow> digestPattern (art_SHA256 b) \<Longrightarrow>
     campaign_file d a = campaign_file e b \<longleftrightarrow> abs_path d = abs_path e \<and> art_SHA256 a = art_SHA256 b"
  by (simp add: campaign_file_plain)

lemma export_all:
  assumes "export_artifacts L src dst as f = (None, f1)" "distinct (map art_SHA256 as)"
    and "\<forall>a \<in> set as. digestPattern (art_SHA256 a)" "abs_path src \<noteq> abs_path dst" "free_names dst as f"
  shows "(\<forall>a \<in> set as. holds_artifact L f1 (campaign_file dst a) a)
     \<and> (\<forall>q. q \<notin> campaign_file dst ` set as \<longrightarrow> node_at f1 q = node_at f q) \<and> fs_fault f1 = fs_fault f"
  using assms
proof (induction as arbitrary: f)
  case (Cons a as)
  then obtain f2 where c: "CheckArtifact L f (campaign_file src a) a = None"
    "copyFile (campaign_file src a) (campaign_file dst a) f = (None, f2)" "export_artifacts L src dst as f2 = (None, f1)"
    by (auto split: option.splits prod.splits)
  have da: "digestPattern (art_SHA256 a)" and rn: "reg_or_none f (campaign_file dst a)"
    using Cons.prems by (auto simp: free_names_def)
  note ca = copy_artifact [OF c(1,2) da Cons.prems(4) rn]
  have fresh: "campaign_file dst b \<noteq> campaign_file dst a" if "b \<in> set as" for b
    using that Cons.prems(2,3) by (auto simp: campaign_file_eq image_iff)
  have "free_names dst as f2"
    using Cons.prems(5) ca(2) fresh by (auto simp: free_names_def reg_or_none_def)
  from Cons.IH [OF c(3) _ _ Cons.prems(4) this] Cons.prems(2,3)
  have ih: "\<forall>a \<in> set as. holds_artifact L f1 (campaign_file dst a) a"
    "\<forall>q. q \<notin> campaign_file dst ` set as \<longrightarrow> node_at f1 q = node_at f2 q" "fs_fault f1 = fs_fault f2" by auto
  have "campaign_file dst a \<notin> campaign_file dst ` set as" using fresh by (metis imageE)
  with ih(2) have "node_at f1 (campaign_file dst a) = node_at f2 (campaign_file dst a)" by blast
  with ca(1) have "holds_artifact L f1 (campaign_file dst a) a" by (simp add: holds_artifact_def)
  moreover have "fs_fault f2 = fs_fault f" using copyFile_fault [of "campaign_file src a" "campaign_file dst a" f] c(2) by simp
  ultimately show ?case using ih ca(2) by auto
qed simp

lemma mkdirs_deep: "length p + length xs < length q \<Longrightarrow> node_at (snd (mkdirs p xs f)) q = node_at f q"
  by (induction xs arbitrary: p f) (auto simp: node_at_put split: option.splits node.splits)

lemma MkdirAll_deep: "os_MkdirAll p f = (eo, f1) \<Longrightarrow> length p < length q \<Longrightarrow> node_at f1 q = node_at f q"
  using mkdirs_deep [of "[]" p q f] by (auto simp: os_MkdirAll_def split: option.splits)

lemma MkdirAll_fault: "os_MkdirAll p f = (eo, f1) \<Longrightarrow> fs_fault f1 = fs_fault f"
  using mkdirs_frame [of "[]" p f] by (auto simp: os_MkdirAll_def simp del: mkdirs_frame split: option.splits)

lemma campaign_file_deep: "digestPattern (art_SHA256 a) \<Longrightarrow> length (campaign_file dir a) = Suc (length (abs_path dir))"
  by (simp add: campaign_file_plain)

lemma install_all:
  assumes "install_artifacts L media src as f = (None, f1)" "distinct (map art_SHA256 as)"
    and "\<forall>a \<in> set as. digestPattern (art_SHA256 a)" "abs_path src \<noteq> abs_path media" "free_names media as f"
  shows "(\<forall>a \<in> set as. holds_artifact L f1 (campaign_file media a) a) \<and> fs_fault f1 = fs_fault f
     \<and> (\<forall>q. length q = Suc (length (abs_path media)) \<longrightarrow> q \<notin> campaign_file media ` set as \<longrightarrow> node_at f1 q = node_at f q)"
  using assms
proof (induction as arbitrary: f)
  case (Cons a as)
  then obtain f2 f3 where c: "CheckArtifact L f (campaign_file src a) a = None" "os_MkdirAll (abs_path media) f = (None, f2)"
    "copyFile (campaign_file src a) (campaign_file media a) f2 = (None, f3)" "install_artifacts L media src as f3 = (None, f1)"
    by (auto simp: CopyToMedia_def split: if_splits option.splits prod.splits sum.splits)
  have da: "digestPattern (art_SHA256 a)" using Cons.prems by simp
  note deep = MkdirAll_deep [OF c(2)] and mf = MkdirAll_fault [OF c(2)]
  have free2: "free_names media (a # as) f2"
    using Cons.prems(3,5) deep by (auto simp: free_names_def reg_or_none_def campaign_file_deep)
  obtain b where b: "node_at f (campaign_file src a) = Some (RegFile b)" "int (length b) = art_Size a" "lib_sha256 L b = art_SHA256 a"
    using CheckArtifact_sound [OF c(1)] by (auto simp: holds_artifact_def)
  have b2: "node_at f2 (campaign_file src a) = Some (RegFile b)" by (rule MkdirAll_keeps [OF c(2) b(1)])
  have ne: "campaign_file src a \<noteq> campaign_file media a" "campaign_file media a \<noteq> []"
    using da Cons.prems(4) by (simp_all add: campaign_file_plain)
  have rn: "reg_or_none f2 (campaign_file media a)" using free2 by (simp add: free_names_def)
  have at: "node_at f3 (campaign_file media a) = Some (RegFile b)" using copyFile_ok [OF _ rn b2 ne] c(3) by simp
  have other: "q \<noteq> campaign_file media a \<Longrightarrow> node_at f3 q = node_at f2 q" for q
    using copyFile_effect(1) [OF rn ne(2), of "campaign_file src a"] c(3) by simp
  have fresh: "campaign_file media b \<noteq> campaign_file media a" if "b \<in> set as" for b
    using that Cons.prems(2,3) by (auto simp: campaign_file_eq image_iff)
  have "free_names media as f3" using free2 other fresh by (auto simp: free_names_def reg_or_none_def)
  from Cons.IH [OF c(4) _ _ Cons.prems(4) this] Cons.prems(2,3)
  have ih: "\<forall>a \<in> set as. holds_artifact L f1 (campaign_file media a) a" "fs_fault f1 = fs_fault f3"
    "\<forall>q. length q = Suc (length (abs_path media)) \<longrightarrow> q \<notin> campaign_file media ` set as \<longrightarrow> node_at f1 q = node_at f3 q" by auto
  have "campaign_file media a \<notin> campaign_file media ` set as" using fresh by (metis imageE)
  with ih(3) da have "node_at f1 (campaign_file media a) = node_at f3 (campaign_file media a)"
    by (simp add: campaign_file_deep)
  with at b have "holds_artifact L f1 (campaign_file media a) a" by (simp add: holds_artifact_def)
  moreover have "fs_fault f3 = fs_fault f2" using copyFile_fault [of "campaign_file src a" "campaign_file media a" f2] c(3) by simp
  ultimately show ?case using ih other deep mf by auto
qed simp
lemma copy_onto_itself:
  assumes "copyFile p p f = (None, f1)" "node_at f p = Some (RegFile b)" "p \<noteq> []"
  shows "node_at f1 p = Some (RegFile [])"
proof -
  have "follow f p = Inr p" by (rule follow_plain) (simp add: assms(2))
  moreover have "open_trunc p f = Inr q \<Longrightarrow> q = p" for q
    using open_trunc_reg [of f p] assms(2) by (simp add: reg_or_none_def)
  ultimately show ?thesis
    using assms by (auto simp: copyFile_def Let_def write_file_def node_at_put split: option.splits sum.splits)
qed

lemma install_in_place_all:
  assumes "install_artifacts L dir dir as f = (None, f1)" "distinct (map art_SHA256 as)" "\<forall>a \<in> set as. digestPattern (art_SHA256 a)"
  shows "(\<forall>a \<in> set as. node_at f1 (campaign_file dir a) = Some (RegFile []))
     \<and> (\<forall>q. length q = Suc (length (abs_path dir)) \<longrightarrow> q \<notin> campaign_file dir ` set as \<longrightarrow> node_at f1 q = node_at f q)"
  using assms
proof (induction as arbitrary: f)
  case (Cons a as)
  then obtain f2 f3 where c: "CheckArtifact L f (campaign_file dir a) a = None" "os_MkdirAll (abs_path dir) f = (None, f2)"
    "copyFile (campaign_file dir a) (campaign_file dir a) f2 = (None, f3)" "install_artifacts L dir dir as f3 = (None, f1)"
    by (auto simp: CopyToMedia_def split: if_splits option.splits prod.splits sum.splits)
  have da: "digestPattern (art_SHA256 a)" using Cons.prems by simp
  obtain b where "node_at f (campaign_file dir a) = Some (RegFile b)"
    using CheckArtifact_sound [OF c(1)] by (auto simp: holds_artifact_def)
  then have b2: "node_at f2 (campaign_file dir a) = Some (RegFile b)" by (rule MkdirAll_keeps [OF c(2)])
  have rn: "reg_or_none f2 (campaign_file dir a)" "campaign_file dir a \<noteq> []"
    using b2 da by (simp_all add: reg_or_none_def campaign_file_plain)
  have empty: "node_at f3 (campaign_file dir a) = Some (RegFile [])" by (rule copy_onto_itself [OF c(3) b2 rn(2)])
  have other: "q \<noteq> campaign_file dir a \<Longrightarrow> node_at f3 q = node_at f2 q" for q
    using copyFile_effect(1) [OF rn, of "campaign_file dir a"] c(3) by simp
  have out: "campaign_file dir a \<notin> campaign_file dir ` set as"
    using Cons.prems(2,3) by (auto simp: campaign_file_eq image_iff)
  from Cons.IH [OF c(4)] Cons.prems(2,3) MkdirAll_deep [OF c(2)] other out empty da show ?case
    by (auto simp: campaign_file_deep)
qed simp

text \<open>Reads of a path do not fail.\<close>

definition readable :: "fs \<Rightarrow> path \<Rightarrow> bool" where
  "readable f p \<longleftrightarrow> fault f (IoOpen p) = None \<and> fault f (IoStat p) = None \<and> fault f (IoRead p) = None"

lemma readable_cong: "fs_fault f1 = fs_fault f \<Longrightarrow> readable f1 p = readable f p"
  by (simp add: readable_def fault_def)

section \<open>Sample campaign\<close>

definition sample_indent :: "Assignment \<Rightarrow> bytes result" where
  "sample_indent a = Inr ''asg''"

definition sample_dec_Assignment :: "Assignment decoder" where
  "sample_dec_Assignment b = Inr (sample_assignment, [])"

definition sample_campaign_lib :: lib where
  "sample_campaign_lib = sample_lib\<lparr>lib_dec_Assignment := sample_dec_Assignment\<rparr>"

definition sample_campaign_fs :: fs where
  "sample_campaign_fs = \<lparr>fs_nodes = [([''src''], Directory), ([''src'', sample_digest @ ''.raucb''], RegFile ''new'')],
     fs_fault = (\<lambda>_. None), fs_partial = (\<lambda>_. 0), fs_bavail = (\<lambda>_. 100), fs_bsize = 1\<rparr>"

lemma sample_campaign:
  "readable sample_campaign_fs p" "reg_or_none sample_campaign_fs [''d'', q]" "abs_path ''/d'' = [''d'']"
  "abs_path ''/src'' = [''src'']" "assignmentArtifacts sample_campaign_lib sample_assignment = Inr [sample_artifact]"
proof -
  show "readable sample_campaign_fs p" by (simp add: readable_def fault_def sample_campaign_fs_def)
  show "reg_or_none sample_campaign_fs [''d'', q]"
    by (simp add: reg_or_none_def node_at_def sample_campaign_fs_def)
  show "abs_path ''/d'' = [''d'']" "abs_path ''/src'' = [''src'']" by code_simp+
  show "assignmentArtifacts sample_campaign_lib sample_assignment = Inr [sample_artifact]" by code_simp
qed

section \<open>Properties\<close>

lemma check_artifacts_None: "check_artifacts L dir as f = None \<longleftrightarrow> (\<forall>a \<in> set as. CheckArtifact L f (campaign_file dir a) a = None)"
  by (induction as) (auto split: option.splits)

lemma holds_check: "readable f p \<Longrightarrow> holds_artifact L f p a \<Longrightarrow> CheckArtifact L f p a = None"
  using CheckArtifact_iff [of f p L a] by (simp add: readable_def)

lemma assignment_file_plain: "assignment_file dir = abs_path dir @ [''assignment.json'']"
  by (simp add: assignment_file_def plain_def)

lemma assignment_file_ne: "digestPattern (art_SHA256 a) \<Longrightarrow> campaign_file dir a \<noteq> assignment_file dir"
proof
  assume d: "digestPattern (art_SHA256 a)" and "campaign_file dir a = assignment_file dir"
  then have "length (art_SHA256 a @ ''.raucb'') = length ''assignment.json''"
    by (simp add: campaign_file_plain assignment_file_plain)
  with d show False by (simp add: digestPattern_def)
qed

text \<open>
  C30. A campaign survives the trip: what \<open>ExportCampaign\<close> wrote into a directory other than the
  artifact directory, \<open>ImportCampaign\<close> reads back as the same assignment, every artifact verified.
  Assumed: reads do not fail, no name in the target directory is a link or directory, and the decoder inverts
  the indented encoding.
\<close>

theorem campaign_roundtrip:
  assumes "ExportCampaign L indent dir asg artifactDir f = (None, f1)" "abs_path artifactDir \<noteq> abs_path dir"
    and codec: "\<And>b. indent asg = Inr b \<Longrightarrow> lib_dec_Assignment L b = Inr (asg, [])"
    and readable: "\<And>p. readable f p" and free: "\<And>p. reg_or_none f (abs_path dir @ [p])"
  shows "ImportCampaign L dir f1 = Inr asg"
proof -
  obtain f2 arts f3 b' where e: "os_MkdirAll (abs_path dir) f = (None, f2)" "assignmentArtifacts L asg = Inr arts"
    "export_artifacts L artifactDir dir arts f2 = (None, f3)" "indent asg = Inr b'" "AtomicWrite (assignment_file dir) b' f3 = (None, f1)"
    using assms(1) by (auto simp: ExportCampaign_def split: option.splits prod.splits sum.splits)
  note nm = assignmentArtifacts_named [OF e(2)]
  have "free_names dir arts f2"
    using free MkdirAll_deep [OF e(1)] nm by (auto simp: free_names_def reg_or_none_def campaign_file_plain)
  from export_all [OF e(3) _ _ assms(2) this] nm
  have ex: "\<forall>a \<in> set arts. holds_artifact L f3 (campaign_file dir a) a" "fs_fault f3 = fs_fault f2" by auto
  have f1: "f1 = put_node (assignment_file dir) (RegFile b') f3"
    using AtomicWrite_ok [of "assignment_file dir" b' f3] e(5) by simp
  then have fault1: "fs_fault f1 = fs_fault f" using ex(2) MkdirAll_fault [OF e(1)] by (simp add: put_node_def)
  have r1: "readable f1 p" for p using readable readable_cong [OF fault1] by simp
  have "holds_artifact L f1 (campaign_file dir a) a" if "a \<in> set arts" for a
    using ex(1) that nm assignment_file_ne [of a dir] by (simp add: f1 holds_artifact_def node_at_put)
  then have ck: "check_artifacts L dir arts f1 = None" by (simp add: check_artifacts_None holds_check r1)
  have at: "node_at f1 (assignment_file dir) = Some (RegFile b')" by (simp add: f1 node_at_put assignment_file_plain)
  have "follow f1 (assignment_file dir) = Inr (assignment_file dir)" by (rule follow_plain) (simp add: at)
  then have "os_ReadFile f1 (assignment_file dir) = Inr b'"
    using at r1 [of "assignment_file dir"] by (simp add: os_ReadFile_def readable_def)
  moreover have "StrictJSON (lib_dec_Assignment L) b' = Inr asg" using codec [OF e(4)]
    by (simp add: StrictJSON_def)
  ultimately show ?thesis using e(2) ck by (simp add: ImportCampaign_def)
qed

theorem campaign_roundtrip_witness:
  "\<exists>f1. ExportCampaign sample_campaign_lib sample_indent ''/d'' sample_assignment ''/src'' sample_campaign_fs = (None, f1)
     \<and> ImportCampaign sample_campaign_lib ''/d'' f1 = Inr sample_assignment"
proof -
  let ?e = "ExportCampaign sample_campaign_lib sample_indent ''/d'' sample_assignment ''/src'' sample_campaign_fs"
  have "fst ?e = None" by code_simp
  then have r: "?e = (None, snd ?e)" by (metis prod.collapse)
  have "ImportCampaign sample_campaign_lib ''/d'' (snd ?e) = Inr sample_assignment"
    by (rule campaign_roundtrip [OF r])
      (simp_all add: sample_campaign sample_campaign_lib_def sample_dec_Assignment_def)
  with r show ?thesis by blast
qed

text \<open>
  Offline updates need no network: after \<open>InstallCampaign\<close> copied a campaign into the media
  directory of the configuration, \<open>artifactsLocal\<close> says that every artifact of the assignment is
  there, which is the condition under which the engine skips the download window and stages the files.
\<close>

theorem installed_campaign_is_local:
  assumes "InstallCampaign L (cfg_LocalMediaDir c) campaignDir asg f = (None, f1)" "assignmentArtifacts L asg = Inr arts"
    and "abs_path campaignDir \<noteq> abs_path (cfg_LocalMediaDir c)"
    and "\<And>p. readable f p" "\<And>p. reg_or_none f (abs_path (cfg_LocalMediaDir c) @ [p])"
  shows "artifactsLocal L c f1 arts = Inr True"
proof -
  let ?m = "cfg_LocalMediaDir c"
  note nm = assignmentArtifacts_named [OF assms(2)]
  have run: "install_artifacts L ?m campaignDir arts f = (None, f1)" using assms(1,2) by (simp add: InstallCampaign_def)
  have "arts \<noteq> []" using assms(2) by (auto simp: assignmentArtifacts_def releaseArtifacts_def split: sum.splits if_splits)
  then obtain a0 as0 where "arts = a0 # as0" by (cases arts) auto
  with run have m: "?m \<noteq> []" by (auto simp: CopyToMedia_def IsAbs_def)
  have "free_names ?m arts f" using assms(5) nm by (auto simp: free_names_def campaign_file_plain)
  from install_all [OF run _ _ assms(3) this] nm
  have h: "\<forall>a \<in> set arts. holds_artifact L f1 (campaign_file ?m a) a" "fs_fault f1 = fs_fault f" by auto
  have r1: "readable f1 p" for p using assms(4) readable_cong [OF h(2)] by simp
  have lm: "localMediaFile L c f1 a = Inr (Some (campaign_file ?m a))" if "a \<in> set arts" for a
  proof -
    have "holds_artifact L f1 (campaign_file ?m a) a" using h(1) that by simp
    then have "open_nofollow f1 (campaign_file ?m a) = None"
      using r1 [of "campaign_file ?m a"] by (auto simp: open_nofollow_def readable_def holds_artifact_def)
    moreover have "CheckArtifact L f1 (campaign_file ?m a) a = None" using h(1) that by (simp add: holds_check r1)
    moreover have "digestPattern (art_SHA256 a)" using nm that by simp
    ultimately show ?thesis using m unfolding localMediaFile_def Let_def campaign_file_def by simp
  qed
  have "all_local L c f1 as = Inr True" if "set as \<subseteq> set arts" for as
    using that by (induction as) (auto simp: lm)
  with m \<open>arts \<noteq> []\<close> show ?thesis by (simp add: artifactsLocal_def)
qed

theorem installed_campaign_is_local_witness:
  "\<exists>f1. InstallCampaign sample_campaign_lib ''/d'' ''/src'' sample_assignment sample_campaign_fs = (None, f1)
     \<and> artifactsLocal sample_campaign_lib (sample_config\<lparr>cfg_LocalMediaDir := ''/d''\<rparr>) f1 [sample_artifact] = Inr True"
proof -
  let ?c = "sample_config\<lparr>cfg_LocalMediaDir := ''/d''\<rparr>"
  let ?i = "InstallCampaign sample_campaign_lib (cfg_LocalMediaDir ?c) ''/src'' sample_assignment sample_campaign_fs"
  have "fst ?i = None" by code_simp
  then have r: "?i = (None, snd ?i)" by (metis prod.collapse)
  have "artifactsLocal sample_campaign_lib ?c (snd ?i) [sample_artifact] = Inr True"
    by (rule installed_campaign_is_local [OF r]) (simp_all add: sample_campaign)
  with r show ?thesis by (intro exI [of _ "snd ?i"]) simp
qed

text \<open>
  C31. Importing a campaign into its own directory destroys it: when the campaign and media
  directories are the same, \<open>InstallCampaign\<close> reports success and leaves every artifact empty,
  because \<open>copyFile\<close> truncates the destination before it reads the source.
\<close>

theorem install_in_place_destroys:
  assumes "InstallCampaign L dir dir asg f = (None, f1)" "assignmentArtifacts L asg = Inr arts" "a \<in> set arts"
  shows "node_at f1 (campaign_file dir a) = Some (RegFile [])"
  using install_in_place_all [of L dir arts f f1] assignmentArtifacts_named [OF assms(2)] assms
  by (simp add: InstallCampaign_def)

theorem install_in_place_destroys_witness:
  "\<exists>f1. InstallCampaign sample_campaign_lib ''/src'' ''/src'' sample_assignment sample_campaign_fs = (None, f1)
     \<and> node_at f1 (campaign_file ''/src'' sample_artifact) = Some (RegFile [])"
proof -
  let ?i = "InstallCampaign sample_campaign_lib ''/src'' ''/src'' sample_assignment sample_campaign_fs"
  have "fst ?i = None" by code_simp
  then have r: "?i = (None, snd ?i)" by (metis prod.collapse)
  from install_in_place_destroys [OF r sample_campaign(5)] r show ?thesis by (intro exI [of _ "snd ?i"]) simp
qed

end
