(* ===== verification/OTA_FleetRef.thy ===== *)
theory OTA_FleetRef
  imports OTA_Sample OTA_Files
begin

text \<open>
  The reference fleet server (\<open>internal/fleetref/server.go\<close>): devices with tokens, the next assignment of each
  and the events they sent, with the acknowledgement the server returns. The maps are association
  lists; the mutex makes a handler atomic, so a handler is a function of the server's state.
\<close>

section \<open>The code\<close>

text \<open>
  \<open>wire\<close> holds the JSON encoders and decoders of event batches and acknowledgements, which agent
  and server share.
\<close>

record wire =
  wi_enc_events :: "Event list \<Rightarrow> bytes result"
  wi_dec_events :: "Event list decoder"
  wi_enc_ack :: "u64 \<Rightarrow> bytes"
  wi_dec_ack :: "u64 decoder"

record FleetServer =
  fsv_tokens :: "(string \<times> string) list"
  fsv_assignments :: "(string \<times> Assignment) list"
  fsv_acked :: "(string \<times> u64) list"
  fsv_events :: "(string \<times> (u64 \<times> Event) list) list"

definition new_FleetServer :: FleetServer where
  "new_FleetServer = \<lparr>fsv_tokens = [], fsv_assignments = [], fsv_acked = [], fsv_events = []\<rparr>"

definition RegisterDevice :: "string \<Rightarrow> string \<Rightarrow> FleetServer \<Rightarrow> error option \<times> FleetServer" where
  "RegisterDevice deviceID token s =
     (if deviceID = [] \<or> token = [] then (Some (Err ''device id and token required''), s)
      else let s1 = s\<lparr>fsv_tokens := AList.update deviceID token (fsv_tokens s)\<rparr> in
        (None, if map_of (fsv_events s1) deviceID = None
               then s1\<lparr>fsv_events := AList.update deviceID [] (fsv_events s1)\<rparr> else s1))"

definition SetAssignment :: "string \<Rightarrow> Assignment option \<Rightarrow> FleetServer \<Rightarrow> FleetServer" where
  "SetAssignment deviceID a s = (case a of
       None \<Rightarrow> s\<lparr>fsv_assignments := AList.delete deviceID (fsv_assignments s)\<rparr>
     | Some x \<Rightarrow> s\<lparr>fsv_assignments := AList.update deviceID x (fsv_assignments s)\<rparr>)"

definition AckedSequence :: "FleetServer \<Rightarrow> string \<Rightarrow> u64" where
  "AckedSequence s deviceID = (case map_of (fsv_acked s) deviceID of None \<Rightarrow> 0 | Some n \<Rightarrow> n)"

definition TrimPrefix :: "string \<Rightarrow> string \<Rightarrow> string" where
  "TrimPrefix p s = (if starts_with p s then drop (length p) s else s)"

record http_request =
  hq_Method :: string
  hq_Path :: string
  hq_Authorization :: string
  hq_Body :: bytes
  hq_Broken :: bool

definition fleet_authorize :: "FleetServer \<Rightarrow> http_request \<Rightarrow> string \<Rightarrow> bool" where
  "fleet_authorize s r deviceID = (case map_of (fsv_tokens s) deviceID of
       None \<Rightarrow> False
     | Some want \<Rightarrow> TrimSpace (TrimPrefix ''Bearer '' (hq_Authorization r)) = want)"

definition getAssignment :: "lib \<Rightarrow> FleetServer \<Rightarrow> http_request \<Rightarrow> string \<Rightarrow> reply" where
  "getAssignment L s r deviceID =
     (if \<not> fleet_authorize s r deviceID then http_Error 401 ''unauthorized''
      else case map_of (fsv_assignments s) deviceID of
        None \<Rightarrow> Reply 204 []
      | Some a \<Rightarrow> Reply 200 (lib_enc_Assignment L a @ [CHR 0x0A]))"

definition stored_events :: "FleetServer \<Rightarrow> string \<Rightarrow> (u64 \<times> Event) list" where
  "stored_events s deviceID = (case map_of (fsv_events s) deviceID of None \<Rightarrow> [] | Some m \<Rightarrow> m)"

text \<open>
  The loop over the batch stops at the first conflict; the events before it stay in the map.
\<close>

fun insert_events :: "Event list \<Rightarrow> (u64 \<times> Event) list \<Rightarrow> bool \<times> (u64 \<times> Event) list" where
  "insert_events [] m = (True, m)"
| "insert_events (ev # evs) m = (case map_of m (ev_Sequence ev) of
      Some prev \<Rightarrow>
        if ev_JobID prev \<noteq> ev_JobID ev \<or> ev_State prev \<noteq> ev_State ev then (False, m) else insert_events evs m
    | None \<Rightarrow> insert_events evs (AList.update (ev_Sequence ev) ev m))"

text \<open>\<open>None\<close> is a loop that never leaves: the counter wraps around at 64 bits.\<close>

partial_function (option) advance_acked :: "(u64 \<times> Event) list \<Rightarrow> u64 \<Rightarrow> u64 option" where
  [code]: "advance_acked m acked =
     (case map_of m (acked + 1) of None \<Rightarrow> Some acked | Some _ \<Rightarrow> advance_acked m (acked + 1))"

text \<open>
  \<open>io.ReadAll\<close> of an \<open>io.LimitReader\<close>: the bytes after the limit are not looked at, so a body that breaks
  off only there is not an error.
\<close>

definition ReadAll_limit :: "int \<Rightarrow> bytes \<Rightarrow> bool \<Rightarrow> bytes result" where
  "ReadAll_limit n body broken =
     (if int (length body) < n then (if broken then Inl (Err ''unexpected EOF'') else Inr body)
      else Inr (take (nat n) body))"

definition postEvents :: "wire \<Rightarrow> FleetServer \<Rightarrow> http_request \<Rightarrow> string \<Rightarrow> (reply \<times> FleetServer) option" where
  "postEvents W s r deviceID =
     (if \<not> fleet_authorize s r deviceID then Some (http_Error 401 ''unauthorized'', s)
      else case ReadAll_limit 524288 (hq_Body r) (hq_Broken r) of
        Inl e \<Rightarrow> Some (http_Error 400 ''read error'', s)
      | Inr body \<Rightarrow> (case StrictJSON (wi_dec_events W) body of
          Inl e \<Rightarrow> Some (http_Error 400 ''invalid events'', s)
        | Inr events \<Rightarrow>
            if events = [] \<or> length events > 100 then Some (http_Error 400 ''event batch size'', s)
            else (case insert_events events (stored_events s deviceID) of (fine, m) \<Rightarrow>
              (let s1 = s\<lparr>fsv_events := AList.update deviceID m (fsv_events s)\<rparr> in
               if \<not> fine then Some (http_Error 409 ''conflicting event'', s1)
               else (case advance_acked m (AckedSequence s1 deviceID) of
                   None \<Rightarrow> None
                 | Some acked \<Rightarrow>
                     (let n = min acked (ev_Sequence (last events)) in
                      Some (Reply 200 (wi_enc_ack W n @ [CHR 0x0A]),
                            s1\<lparr>fsv_acked := AList.update deviceID n (fsv_acked s1)\<rparr>)))))))"

text \<open>
  Routing, for a path without escapes, empty or dot segments (others are redirected before a
  handler runs). A pattern for \<open>GET\<close> also serves \<open>HEAD\<close>, whose reply has no body.
\<close>

definition HandleGet :: "http_request \<Rightarrow> reply \<Rightarrow> reply" where
  "HandleGet r rep = (case rep of Reply code body \<Rightarrow>
     if hq_Method r = ''GET'' then rep else if hq_Method r = ''HEAD'' then Reply code [] else http_Error 405 ''Method Not Allowed'')"

definition fleet_Handler :: "lib \<Rightarrow> wire \<Rightarrow> FleetServer \<Rightarrow> http_request \<Rightarrow> (reply \<times> FleetServer) option" where
  "fleet_Handler L W s r =
     (let p = split_slash (hq_Path r) in
      if length p = 5 \<and> take 3 p = [[], ''v1'', ''devices''] \<and> p ! 4 = ''assignment''
      then Some (HandleGet r (getAssignment L s r (p ! 3)), s)
      else if length p = 5 \<and> take 3 p = [[], ''v1'', ''devices''] \<and> p ! 4 = ''events''
      then (if hq_Method r = ''POST'' then postEvents W s r (p ! 3) else Some (http_Error 405 ''Method Not Allowed'', s))
      else if p = [[], ''healthz''] then Some (HandleGet r (Reply 200 (''ok'' @ [CHR 0x0A])), s)
      else Some (http_Error 404 ''404 page not found'', s))"

section \<open>The loop that advances the acknowledgement\<close>

lemma u64_le_SucE:
  fixes k n :: u64
  assumes "k \<le> n + 1"
  shows "k \<le> n \<or> k = n + 1"
proof (cases "1 + n = 0")
  case True
  with assms show ?thesis by (simp add: add.commute)
next
  case False
  with assms show ?thesis by (auto simp: word_le_nat_alt unatSuc add.commute [of n] le_Suc_eq word_unat_eq_iff)
qed

lemma u64_Suc_le:
  fixes a n :: u64
  assumes "a < n"
  shows "a + 1 \<le> n" "0 < a + 1"
proof -
  have "1 + a \<noteq> 0"
  proof
    assume "1 + a = 0"
    then have "a = - 1" by (simp add: eq_neg_iff_add_eq_0 add.commute)
    with assms show False by simp
  qed
  with assms show "a + 1 \<le> n" "0 < a + 1"
    by (simp_all add: word_le_nat_alt word_less_nat_alt unatSuc add.commute [of a])
qed

lemma advance_stops: "map_of m (a + 1) = None \<Longrightarrow> advance_acked m a = Some a"
  by (subst advance_acked.simps) simp

lemma advance_goes: "map_of m (a + 1) = Some e \<Longrightarrow> advance_acked m a = advance_acked m (a + 1)"
  by (subst advance_acked.simps) simp

lemma advance_returns:
  assumes "map_of m k = None"
  shows "\<exists>n. advance_acked m a = Some n"
proof (induction "unat (k - (a + 1))" arbitrary: a rule: less_induct)
  case less
  show ?case
  proof (cases "map_of m (a + 1)")
    case None
    then show ?thesis using advance_stops by blast
  next
    case (Some e)
    with assms have "k - (a + 1) \<noteq> 0" by auto
    then have "unat (k - (a + 1) - 1) < unat (k - (a + 1))"
      by (rule measure_unat)
    then have "unat (k - (a + 1 + 1)) < unat (k - (a + 1))" by (simp add: algebra_simps)
    from less [OF this] Some show ?thesis by (simp add: advance_goes)
  qed
qed

text \<open>\<open>contiguous m n\<close>: every sequence from 1 to \<open>n\<close> is in the map.\<close>

definition contiguous :: "(u64 \<times> Event) list \<Rightarrow> u64 \<Rightarrow> bool" where
  "contiguous m n \<longleftrightarrow> (\<forall>k. 0 < k \<and> k \<le> n \<longrightarrow> map_of m k \<noteq> None)"

lemma contiguous_0 [simp]: "contiguous m 0"
  by (simp add: contiguous_def)

lemma contiguous_le: "contiguous m n \<Longrightarrow> k \<le> n \<Longrightarrow> contiguous m k"
  by (auto simp: contiguous_def)

lemma contiguous_Suc:
  assumes "contiguous m n" "map_of m (n + 1) \<noteq> None"
  shows "contiguous m (n + 1)"
  unfolding contiguous_def
proof (intro allI impI)
  fix k assume "0 < k \<and> k \<le> n + 1"
  then have "k \<le> n \<or> k = n + 1" using u64_le_SucE by blast
  with assms \<open>0 < k \<and> k \<le> n + 1\<close> show "map_of m k \<noteq> None" by (auto simp: contiguous_def)
qed

lemma advance_contiguous:
  "advance_acked m a = Some n \<Longrightarrow> contiguous m a \<longrightarrow> contiguous m n \<and> map_of m (n + 1) = None"
proof (induction rule: advance_acked.raw_induct [rotated, consumes 1, case_names loop])
  case (loop adv m a n)
  then show ?case using contiguous_Suc [of m a] by (cases "map_of m (a + 1)") auto
qed

lemma advance_from_below:
  assumes "contiguous m n" "map_of m (n + 1) = None" "a \<le> n"
  shows "advance_acked m a = Some n"
  using assms(3)
proof (induction "unat (n - a)" arbitrary: a rule: less_induct)
  case less
  show ?case
  proof (cases "a = n")
    case True
    with assms(2) show ?thesis by (simp add: advance_stops)
  next
    case False
    with less.prems have "a < n" by simp
    note le = u64_Suc_le [OF this]
    with assms(1) obtain e where "map_of m (a + 1) = Some e" by (auto simp: contiguous_def)
    moreover have "unat (n - a - 1) < unat (n - a)" using False by (intro measure_unat) simp
    then have "unat (n - (a + 1)) < unat (n - a)" by (simp add: algebra_simps)
    ultimately show ?thesis using less.hyps le(1) by (simp add: advance_goes)
  qed
qed

section \<open>Storing a batch\<close>

definition same_event :: "Event \<Rightarrow> Event \<Rightarrow> bool" where
  "same_event p e \<longleftrightarrow> ev_JobID p = ev_JobID e \<and> ev_State p = ev_State e"

definition holds :: "(u64 \<times> Event) list \<Rightarrow> Event \<Rightarrow> bool" where
  "holds m e \<longleftrightarrow> (\<exists>p. map_of m (ev_Sequence e) = Some p \<and> same_event p e)"

lemma insert_events_grows:
  "insert_events evs m = (b, m1) \<Longrightarrow> map_of m k = Some e \<Longrightarrow> map_of m1 k = Some e"
proof (induction evs m rule: insert_events.induct)
  case (2 ev evs m)
  then show ?case by (cases "k = ev_Sequence ev") (auto split: option.splits if_splits)
qed simp

lemma insert_events_holds:
  "insert_events evs m = (True, m1) \<Longrightarrow> e \<in> set evs \<Longrightarrow> holds m1 e"
proof (induction evs m rule: insert_events.induct)
  case (2 ev evs m)
  have "holds m1 ev"
  proof (cases "map_of m (ev_Sequence ev)")
    case None
    with 2 insert_events_grows [of evs "AList.update (ev_Sequence ev) ev m" True m1] show ?thesis
      by (auto simp: holds_def same_event_def)
  next
    case (Some p)
    with 2 insert_events_grows [of evs m True m1] show ?thesis
      by (auto simp: holds_def same_event_def split: if_splits)
  qed
  with 2 show ?case by (auto split: option.splits if_splits)
qed simp

lemma insert_events_again:
  "(\<And>e. e \<in> set evs \<Longrightarrow> holds m e) \<Longrightarrow> insert_events evs m = (True, m)"
proof (induction evs)
  case (Cons ev evs)
  from Cons.prems [of ev] obtain p where "map_of m (ev_Sequence ev) = Some p" "same_event p ev"
    by (auto simp: holds_def)
  with Cons show ?case by (simp add: same_event_def)
qed simp

lemma insert_events_length:
  "insert_events evs m = (b, m1) \<Longrightarrow> length m1 \<le> length evs + length m"
proof (induction evs m rule: insert_events.induct)
  case (2 ev evs m)
  then show ?case using length_update_le [of "ev_Sequence ev" ev m]
    by (fastforce split: option.splits if_splits)
qed simp

lemma update_present: "map_of m k = Some v \<Longrightarrow> AList.update k v m = m"
  by (induction m) (auto split: if_splits)

text \<open>What a batch that is accepted does.\<close>

lemma postEvents_200:
  assumes "postEvents W s r d = Some (Reply 200 b, s1)"
  obtains body events m acked where
    "fleet_authorize s r d" "ReadAll_limit 524288 (hq_Body r) (hq_Broken r) = Inr body"
    "StrictJSON (wi_dec_events W) body = Inr events" "events \<noteq> []" "length events \<le> 100"
    "insert_events events (stored_events s d) = (True, m)" "advance_acked m (AckedSequence s d) = Some acked"
    "b = wi_enc_ack W (min acked (ev_Sequence (last events))) @ [CHR 0x0A]"
    "s1 = s\<lparr>fsv_events := AList.update d m (fsv_events s),
       fsv_acked := AList.update d (min acked (ev_Sequence (last events))) (fsv_acked s)\<rparr>"
  using assms
  by (auto simp: postEvents_def http_Error_def AckedSequence_def Let_def split: if_splits sum.splits prod.splits option.splits)

lemma postEvents_other:
  assumes "postEvents W s r d = Some (Reply code b, s1)" "code \<noteq> 200"
  shows "s1 = s \<or> (\<exists>events m. insert_events events (stored_events s d) = (False, m)
    \<and> s1 = s\<lparr>fsv_events := AList.update d m (fsv_events s)\<rparr>)"
  using assms
  by (auto simp: postEvents_def http_Error_def Let_def split: if_splits sum.splits prod.splits option.splits)

lemma stored_update [simp]:
  "stored_events (s\<lparr>fsv_events := AList.update d m (fsv_events s)\<rparr>) = (stored_events s)(d := m)"
  "stored_events (s\<lparr>fsv_events := AList.update d m (fsv_events s), fsv_acked := q\<rparr>) = (stored_events s)(d := m)"
  by (auto simp: stored_events_def fun_eq_iff)

lemma acked_update [simp]:
  "AckedSequence (s\<lparr>fsv_events := q, fsv_acked := AList.update d n (fsv_acked s)\<rparr>) = (AckedSequence s)(d := n)"
  "AckedSequence (s\<lparr>fsv_events := q\<rparr>) = AckedSequence s"
  by (auto simp: AckedSequence_def fun_eq_iff)

section \<open>All states of the server\<close>

inductive fleet_step :: "lib \<Rightarrow> wire \<Rightarrow> FleetServer \<Rightarrow> FleetServer \<Rightarrow> bool" for L W where
  registered: "RegisterDevice d token s = (eo, s1) \<Longrightarrow> fleet_step L W s s1"
| assigned: "fleet_step L W s (SetAssignment d a s)"
| served: "fleet_Handler L W s r = Some (rep, s1) \<Longrightarrow> fleet_step L W s s1"

definition fleet_reachable :: "lib \<Rightarrow> wire \<Rightarrow> FleetServer \<Rightarrow> bool" where
  "fleet_reachable L W = (fleet_step L W)\<^sup>*\<^sup>* new_FleetServer"

text \<open>Every step but a posted batch leaves events and acknowledgements alone.\<close>

lemma fleet_step_cases:
  assumes "fleet_step L W s s1"
  obtains (kept) "stored_events s1 = stored_events s" "AckedSequence s1 = AckedSequence s"
  | (posted) r d rep where "postEvents W s r d = Some (rep, s1)"
  using assms
proof cases
  case (registered d token eo)
  then show thesis
    by (intro kept) (auto simp: RegisterDevice_def stored_events_def AckedSequence_def fun_eq_iff Let_def split: if_splits)
next
  case (assigned d a)
  then show thesis
    by (intro kept) (auto simp: SetAssignment_def stored_events_def AckedSequence_def fun_eq_iff split: option.splits)
next
  case (served r rep)
  then consider "s1 = s" | d where "postEvents W s r d = Some (rep, s1)"
    by (auto simp: fleet_Handler_def Let_def split: if_splits)
  then show thesis by cases (auto intro: kept posted)
qed

lemma postEvents_grows:
  assumes "postEvents W s r d = Some (rep, s1)" "map_of (stored_events s x) k = Some e"
  shows "map_of (stored_events s1 x) k = Some e"
proof (cases rep)
  case (Reply code b)
  show ?thesis
  proof (cases "code = 200")
    case True
    with assms(1) Reply have "postEvents W s r d = Some (Reply 200 b, s1)" by simp
    then show ?thesis
      by (cases rule: postEvents_200) (use assms(2) in \<open>auto intro: insert_events_grows\<close>)
  next
    case False
    with postEvents_other [of W s r d code b s1] assms Reply show ?thesis
      by (auto intro: insert_events_grows)
  qed
qed

lemma fleet_step_grows:
  assumes "fleet_step L W s s1" "map_of (stored_events s x) k = Some e"
  shows "map_of (stored_events s1 x) k = Some e"
  using assms(1)
proof (cases rule: fleet_step_cases)
  case kept
  with assms(2) show ?thesis by simp
next
  case (posted r d rep)
  then show ?thesis using assms(2) by (rule postEvents_grows)
qed

lemma contiguous_grows:
  "contiguous m n \<Longrightarrow> (\<And>k e. map_of m k = Some e \<Longrightarrow> map_of m1 k = Some e) \<Longrightarrow> contiguous m1 n"
  by (fastforce simp: contiguous_def)

lemma post_contiguous:
  assumes "insert_events events m = (b, m1)" "contiguous m n"
  shows "contiguous m1 n"
  using contiguous_grows [OF assms(2)] insert_events_grows [OF assms(1)] by blast

lemma fleet_reachable_contiguous:
  assumes "fleet_reachable L W s"
  shows "contiguous (stored_events s d) (AckedSequence s d)"
  using assms unfolding fleet_reachable_def
proof (induction arbitrary: d rule: rtranclp_induct)
  case base
  show ?case by (simp add: AckedSequence_def new_FleetServer_def)
next
  case (step s s1)
  from step(2) show ?case
  proof (cases rule: fleet_step_cases)
    case kept
    with step.IH show ?thesis by simp
  next
    case (posted r x rep)
    obtain code b where rep: "rep = Reply code b" by (cases rep)
    show ?thesis
    proof (cases "code = 200")
      case True
      with posted rep have "postEvents W s r x = Some (Reply 200 b, s1)" by simp
      then show ?thesis
      proof (cases rule: postEvents_200)
        case (1 body events m acked)
        have "contiguous m acked" using advance_contiguous [OF 1(7)] post_contiguous [OF 1(6) step.IH] by blast
        with 1(9) step.IH show ?thesis by (auto intro: contiguous_le)
      qed
    next
      case False
      with postEvents_other [of W s r x code b s1] posted rep
      consider "s1 = s" | events m where "insert_events events (stored_events s x) = (False, m)"
          "s1 = s\<lparr>fsv_events := AList.update x m (fsv_events s)\<rparr>" by blast
      then show ?thesis using step.IH by cases (auto intro: post_contiguous)
    qed
  qed
qed

section \<open>Samples\<close>

text \<open>
  A small concrete wire format: two batches of one event each, and acknowledgements in unary.
\<close>

definition sample_event :: "u64 \<Rightarrow> JobState \<Rightarrow> Event" where
  "sample_event n st = \<lparr>ev_Sequence = n, ev_JobID = ''j1'', ev_State = st, ev_Error = [], ev_Time = 10\<rparr>"

definition sample_enc_events :: "Event list \<Rightarrow> bytes result" where
  "sample_enc_events es = (if es = [sample_event 1 Accepted] then Inr ''[1]''
     else if es = [sample_event 2 Downloading] then Inr ''[2]'' else Inl (Err ''encode''))"

definition sample_dec_events :: "Event list decoder" where
  "sample_dec_events b = (if b = ''[1]'' then Inr ([sample_event 1 Accepted], [])
     else if b = ''[2]'' then Inr ([sample_event 2 Downloading], []) else Inl (Err ''decode''))"

definition sample_dec_ack :: "u64 decoder" where
  "sample_dec_ack b = Inr (of_nat (length (takeWhile (\<lambda>c. c = CHR ''1'') b)), dropWhile (\<lambda>c. c = CHR ''1'') b)"

definition sample_wire :: wire where
  "sample_wire = \<lparr>wi_enc_events = sample_enc_events, wi_dec_events = sample_dec_events,
     wi_enc_ack = (\<lambda>n. replicate (unat n) CHR ''1''), wi_dec_ack = sample_dec_ack\<rparr>"

definition sample_post :: "bytes \<Rightarrow> http_request" where
  "sample_post b = \<lparr>hq_Method = ''POST'', hq_Path = ''/v1/devices/d1/events'', hq_Authorization = ''Bearer tok'',
     hq_Body = b, hq_Broken = False\<rparr>"

definition sample_server :: FleetServer where
  "sample_server = snd (RegisterDevice ''d1'' ''tok'' new_FleetServer)"

definition after_post :: "bytes \<Rightarrow> FleetServer \<Rightarrow> FleetServer" where
  "after_post b s = snd (the (postEvents sample_wire s (sample_post b) ''d1''))"

lemma sample_server_reachable: "fleet_reachable L W sample_server"
  unfolding fleet_reachable_def sample_server_def
  by (rule r_into_rtranclp) (rule registered, rule surjective_pairing)

lemma after_post_step:
  assumes "postEvents sample_wire s (sample_post b) ''d1'' \<noteq> None"
  shows "fleet_step L sample_wire s (after_post b s)"
proof -
  obtain rep s1 where p: "postEvents sample_wire s (sample_post b) ''d1'' = Some (rep, s1)"
    using assms by auto
  moreover have "split_slash ''/v1/devices/d1/events'' = [[], ''v1'', ''devices'', ''d1'', ''events'']" by code_simp
  ultimately have "fleet_Handler L sample_wire s (sample_post b) = Some (rep, s1)"
    by (simp add: fleet_Handler_def sample_post_def)
  with p show ?thesis by (auto simp: after_post_def intro: served)
qed

lemma after_post_reachable:
  "fleet_reachable L sample_wire s \<Longrightarrow> postEvents sample_wire s (sample_post b) ''d1'' \<noteq> None \<Longrightarrow>
    fleet_reachable L sample_wire (after_post b s)"
  unfolding fleet_reachable_def by (blast intro: rtranclp.rtrancl_into_rtrancl after_post_step)

lemma sample_posts:
  "postEvents sample_wire sample_server (sample_post ''[1]'') ''d1''
     = Some (Reply 200 ''1\<newline>'', after_post ''[1]'' sample_server)"
  by code_simp

text \<open>
  C27. The acknowledgement keeps the contract of \<open>docs/FLEET.md\<close>: in every state of the server, when
  a batch is answered with 200, every event of the batch is stored, the number returned is the one recorded for the device,
  every sequence from 1 up to it is stored, it does not exceed the last event of the request, and it
  is the highest such number.
\<close>

theorem fleet_ack_contract:
  assumes "fleet_reachable L W s" "postEvents W s r d = Some (Reply 200 b, s1)"
  shows "\<exists>body events. ReadAll_limit 524288 (hq_Body r) (hq_Broken r) = Inr body
    \<and> StrictJSON (wi_dec_events W) body = Inr events
    \<and> b = wi_enc_ack W (AckedSequence s1 d) @ [CHR 0x0A]
    \<and> (\<forall>e \<in> set events. holds (stored_events s1 d) e)
    \<and> contiguous (stored_events s1 d) (AckedSequence s1 d)
    \<and> AckedSequence s1 d \<le> ev_Sequence (last events)
    \<and> (AckedSequence s1 d = ev_Sequence (last events) \<or> map_of (stored_events s1 d) (AckedSequence s1 d + 1) = None)"
  using assms(2)
proof (cases rule: postEvents_200)
  case (1 body events m acked)
  have "contiguous m acked \<and> map_of m (acked + 1) = None"
    using advance_contiguous [OF 1(7)] post_contiguous [OF 1(6) fleet_reachable_contiguous [OF assms(1)]] by blast
  then show ?thesis
    using 1 insert_events_holds [OF 1(6)] by (auto simp: min_def intro: contiguous_le)
qed

theorem fleet_ack_contract_witness:
  "\<exists>events. StrictJSON (wi_dec_events sample_wire) ''[1]'' = Inr events
     \<and> (\<forall>e \<in> set events. holds (stored_events (after_post ''[1]'' sample_server) ''d1'') e)
     \<and> contiguous (stored_events (after_post ''[1]'' sample_server) ''d1'') (AckedSequence (after_post ''[1]'' sample_server) ''d1'')"
  using fleet_ack_contract [OF sample_server_reachable sample_posts]
  by (auto simp: sample_post_def ReadAll_limit_def)


text \<open>
  A lost response is harmless: posting the same request again, after it was answered with 200, gives the
  same answer and changes nothing on the server.
\<close>

theorem fleet_replay_idempotent:
  assumes "fleet_reachable L W s" "postEvents W s r d = Some (Reply 200 b, s1)"
  shows "postEvents W s1 r d = Some (Reply 200 b, s1)"
  using assms(2)
proof (cases rule: postEvents_200)
  case (1 body events m acked)
  let ?n = "min acked (ev_Sequence (last events))"
  have c: "contiguous m acked" "map_of m (acked + 1) = None"
    using advance_contiguous [OF 1(7)] post_contiguous [OF 1(6) fleet_reachable_contiguous [OF assms(1)]] by blast+
  have "advance_acked m ?n = Some acked" using advance_from_below [OF c] by simp
  moreover have "insert_events events m = (True, m)"
    by (rule insert_events_again) (rule insert_events_holds [OF 1(6)])
  moreover have "AList.update d m (fsv_events s1) = fsv_events s1" "AList.update d ?n (fsv_acked s1) = fsv_acked s1"
    using 1(9) by (simp_all add: update_present)
  moreover have "fleet_authorize s1 r d" using 1(1,9) by (simp add: fleet_authorize_def)
  moreover have "stored_events s1 d = m" "AckedSequence s1 d = ?n" using 1(9) by simp_all
  ultimately show ?thesis using 1(2-5,8) by (simp add: postEvents_def Let_def)
qed

theorem fleet_replay_idempotent_witness:
  "postEvents sample_wire (after_post ''[1]'' sample_server) (sample_post ''[1]'') ''d1''
     = Some (Reply 200 ''1\<newline>'', after_post ''[1]'' sample_server)"
  by (rule fleet_replay_idempotent [OF sample_server_reachable sample_posts])


text \<open>
  The loop over the sequence numbers ends: as long as a device has fewer events than there are
  64-bit numbers, every posted batch is answered, whatever it contains.
\<close>

theorem fleet_post_returns:
  assumes "length (stored_events s d) + 100 < 2 ^ 64"
  shows "\<exists>rep s1. postEvents W s r d = Some (rep, s1)"
proof -
  have "\<exists>n. advance_acked m a = Some n"
    if "insert_events events (stored_events s d) = (True, m)" "length events \<le> 100" for events m a
  proof -
    have "card (set (keys m)) \<le> length m" using card_length [of "keys m"] by simp
    also have "\<dots> < 2 ^ 64" using insert_events_length [OF that(1)] that(2) assms by linarith
    finally have "set (keys m) \<noteq> (UNIV :: u64 set)" by (auto simp: card_word)
    then obtain k where "k \<notin> set (keys m)" by blast
    then show ?thesis using advance_returns [of m k] by (simp add: map_of_eq_None_iff)
  qed
  then show ?thesis
    by (auto simp: postEvents_def Let_def split: sum.splits prod.splits option.splits) (metis option.distinct(1) not_less)
qed

theorem fleet_post_returns_witness:
  "\<exists>rep s1. postEvents sample_wire sample_server (sample_post ''[2]'') ''d1'' = Some (rep, s1)"
proof (rule fleet_post_returns)
  have "stored_events sample_server ''d1'' = []" by code_simp
  then show "length (stored_events sample_server ''d1'') + 100 < 2 ^ 64" by simp
qed


text \<open>
  The server forgets nothing: an event stored for a device keeps its content through every later
  request, registration and assignment.
\<close>

theorem fleet_events_append_only:
  assumes "(fleet_step L W)\<^sup>*\<^sup>* s s1" "map_of (stored_events s d) k = Some e"
  shows "map_of (stored_events s1 d) k = Some e"
  using assms by (induction rule: rtranclp_induct) (auto intro: fleet_step_grows)

theorem fleet_events_append_only_witness:
  "map_of (stored_events (after_post ''[2]'' (after_post ''[1]'' sample_server)) ''d1'') 1 = Some (sample_event 1 Accepted)"
proof (rule fleet_events_append_only)
  have "postEvents sample_wire (after_post ''[1]'' sample_server) (sample_post ''[2]'') ''d1'' \<noteq> None" by code_simp
  from after_post_step [OF this]
  show "(fleet_step sample_lib sample_wire)\<^sup>*\<^sup>* (after_post ''[1]'' sample_server) (after_post ''[2]'' (after_post ''[1]'' sample_server))"
    by blast
  show "map_of (stored_events (after_post ''[1]'' sample_server) ''d1'') 1 = Some (sample_event 1 Accepted)" by code_simp
qed


text \<open>
  C28. An old batch moves the recorded acknowledgement back: when a request is answered whose last event is below
  what the device had acknowledged, the recorded number falls to that event, although every later
  one is still stored.
\<close>

theorem fleet_old_batch_lowers_ack:
  assumes "fleet_reachable L W s" "postEvents W s r d = Some (Reply 200 b, s1)"
    and "ReadAll_limit 524288 (hq_Body r) (hq_Broken r) = Inr body" "StrictJSON (wi_dec_events W) body = Inr events"
    and "ev_Sequence (last events) < AckedSequence s d"
  shows "AckedSequence s1 d = ev_Sequence (last events) \<and> contiguous (stored_events s1 d) (AckedSequence s d)"
  using assms(2)
proof (cases rule: postEvents_200)
  case (1 body1 evs m acked)
  have evs: "evs = events" using 1(2,3) assms(3,4) by simp
  have c: "contiguous m (AckedSequence s d)" using post_contiguous [OF 1(6) fleet_reachable_contiguous [OF assms(1)]] .
  have "contiguous m acked \<and> map_of m (acked + 1) = None" using advance_contiguous [OF 1(7)] c by blast
  moreover have "ev_Sequence (last events) \<le> acked"
  proof (rule ccontr)
    assume "\<not> ev_Sequence (last events) \<le> acked"
    then have "acked < AckedSequence s d" using assms(5) by simp
    with u64_Suc_le [OF this] c have "map_of m (acked + 1) \<noteq> None" by (auto simp: contiguous_def)
    with \<open>contiguous m acked \<and> map_of m (acked + 1) = None\<close> show False by simp
  qed
  ultimately show ?thesis using 1(9) c by (auto simp: evs min_def)
qed

theorem fleet_old_batch_lowers_ack_witness:
  "let s = after_post ''[2]'' (after_post ''[1]'' sample_server) in
   AckedSequence s ''d1'' = 2 \<and> AckedSequence (after_post ''[1]'' s) ''d1'' = 1"
proof -
  let ?s = "after_post ''[2]'' (after_post ''[1]'' sample_server)"
  have p: "postEvents sample_wire (after_post ''[1]'' sample_server) (sample_post ''[2]'') ''d1'' \<noteq> None" by code_simp
  have r: "fleet_reachable sample_lib sample_wire ?s"
    by (intro after_post_reachable sample_server_reachable p) (simp add: sample_posts)
  have two: "AckedSequence ?s ''d1'' = 2" by code_simp
  have again: "postEvents sample_wire ?s (sample_post ''[1]'') ''d1'' = Some (Reply 200 ''1\<newline>'', after_post ''[1]'' ?s)"
    by code_simp
  have dec: "ReadAll_limit 524288 (hq_Body (sample_post ''[1]'')) (hq_Broken (sample_post ''[1]'')) = Inr ''[1]''"
    "StrictJSON (wi_dec_events sample_wire) ''[1]'' = Inr [sample_event 1 Accepted]" by code_simp+
  have "ev_Sequence (last [sample_event 1 Accepted]) < AckedSequence ?s ''d1''" by (simp add: two sample_event_def)
  from fleet_old_batch_lowers_ack [OF r again dec this] two show ?thesis by (simp add: sample_event_def)
qed

end
