(* ===== verification/OTA_Text.thy ===== *)
theory OTA_Text
  imports OTA_Lib
begin

text \<open>
  Text as the Go standard library builds and reads it: decimal numbers (\<open>strconv\<close>), joining, repeating, splitting and
  searching (\<open>strings\<close>). Shared by the exporter of spans, the metrics page, the status page and the commands.
\<close>

section \<open>Decimal numbers\<close>

text \<open>\<open>strconv.ParseUint(s, 10, 64)\<close> and \<open>strconv.FormatUint(n, 10)\<close>.\<close>

definition dec_value :: "string \<Rightarrow> int" where
  "dec_value s = foldl (\<lambda>a c. a * 10 + digit_val c) 0 s"

definition ParseUint :: "string \<Rightarrow> u64 option" where
  "ParseUint s = (if s = [] \<or> \<not> list_all is_digit s \<or> dec_value s \<ge> 2 ^ 64 then None else Some (word_of_int (dec_value s)))"

definition digit_char :: "nat \<Rightarrow> char" where
  "digit_char d = ''0123456789'' ! d"

fun dec_digits :: "nat \<Rightarrow> string" where
  "dec_digits n = (if n < 10 then [digit_char n] else dec_digits (n div 10) @ [digit_char (n mod 10)])"

declare dec_digits.simps [simp del]

definition FormatUint :: "u64 \<Rightarrow> string" where
  "FormatUint n = dec_digits (unat n)"

lemma digit_cases: "d < 10 \<Longrightarrow> is_digit (digit_char d) \<and> digit_val (digit_char d) = int d"
proof -
  assume "d < 10"
  then have "d \<in> {0, 1, 2, 3, 4, 5, 6, 7, 8, 9}" by auto
  then show ?thesis by (elim insertE emptyE) (simp_all add: digit_char_def is_digit_def digit_val_def)
qed

lemma dec_value_snoc: "dec_value (s @ [c]) = dec_value s * 10 + digit_val c"
  by (simp add: dec_value_def)

lemma dec_digits_value: "list_all is_digit (dec_digits n) \<and> dec_digits n \<noteq> [] \<and> dec_value (dec_digits n) = int n"
proof (induction n rule: dec_digits.induct)
  case (1 n)
  show ?case
  proof (cases "n < 10")
    case True
    then show ?thesis using digit_cases [of n] by (simp add: dec_digits.simps [of n] dec_value_def)
  next
    case False
    have "dec_value (dec_digits n) = int (n div 10) * 10 + int (n mod 10)"
      using 1 [OF False] False digit_cases [of "n mod 10"] by (simp add: dec_digits.simps [of n] dec_value_snoc)
    also have "\<dots> = int n" by presburger
    finally show ?thesis using 1 [OF False] False digit_cases [of "n mod 10"] by (simp add: dec_digits.simps [of n])
  qed
qed

lemma dec_digits_length: "k < 10 ^ Suc m \<Longrightarrow> length (dec_digits k) \<le> Suc m"
proof (induction m arbitrary: k)
  case 0
  then show ?case by (simp add: dec_digits.simps [of k])
next
  case (Suc m)
  show ?case
  proof (cases "k < 10")
    case False
    have "k div 10 < 10 ^ Suc m" using Suc.prems by (simp add: less_mult_imp_div_less)
    then show ?thesis using Suc.IH False by (simp add: dec_digits.simps [of k])
  qed (simp add: dec_digits.simps [of k])
qed

lemma FormatUint_length: "length (FormatUint n) \<le> 20"
proof -
  have "unat n < 2 ^ LENGTH(64)" by (rule unsigned_less)
  then have "unat n < 10 ^ Suc 19" by simp
  from dec_digits_length [OF this] show ?thesis by (simp add: FormatUint_def)
qed

text \<open>
  Printing and reading a 64-bit number is a round trip.
\<close>

theorem ParseUint_FormatUint: "ParseUint (FormatUint n) = Some n"
proof -
  have "uint n < 2 ^ LENGTH(64)" by (rule unsigned_less)
  then have "uint n < 2 ^ 64" by simp
  with dec_digits_value [of "unat n"] show ?thesis by (simp add: ParseUint_def FormatUint_def not_le)
qed

text \<open>\<open>strconv.FormatInt(i, 10)\<close>, which is also what \<open>%d\<close> prints.\<close>

definition FormatInt :: "int \<Rightarrow> string" where
  "FormatInt i = (if i < 0 then CHR ''-'' # dec_digits (nat (- i)) else dec_digits (nat i))"

definition scan_int :: "string \<Rightarrow> int option" where
  "scan_int s = (case s of
       c # cs \<Rightarrow> if c = CHR ''-'' then (if cs \<noteq> [] \<and> list_all is_digit cs then Some (- dec_value cs) else None)
                 else if list_all is_digit s then Some (dec_value s) else None
     | [] \<Rightarrow> None)"

lemma digit_char_not_minus: "is_digit c \<Longrightarrow> c \<noteq> CHR ''-''"
  by (auto simp: is_digit_def)

lemma scan_int_FormatInt: "scan_int (FormatInt i) = Some i"
proof (cases "i < 0")
  case True
  then show ?thesis using dec_digits_value [of "nat (- i)"] by (simp add: FormatInt_def scan_int_def)
next
  case False
  obtain c cs where d: "dec_digits (nat i) = c # cs" using dec_digits_value [of "nat i"] by (cases "dec_digits (nat i)") auto
  with dec_digits_value [of "nat i"] have "is_digit c" "list_all is_digit cs" "dec_value (c # cs) = i" using False by auto
  with d False digit_char_not_minus [of c] show ?thesis by (simp add: FormatInt_def scan_int_def)
qed

section \<open>Joining and splitting\<close>

fun strings_Join :: "string list \<Rightarrow> string \<Rightarrow> string" where
  "strings_Join [] sep = []"
| "strings_Join [x] sep = x"
| "strings_Join (x # y # ys) sep = x @ sep @ strings_Join (y # ys) sep"

definition strings_Repeat :: "string \<Rightarrow> nat \<Rightarrow> string" where
  "strings_Repeat s n = concat (replicate n s)"

lemma length_Repeat [simp]: "length (strings_Repeat s n) = n * length s"
  by (induction n) (simp_all add: strings_Repeat_def)

text \<open>\<open>strings.Split\<close> with a separator of one byte.\<close>

fun split_on :: "char \<Rightarrow> string \<Rightarrow> string list" where
  "split_on sep [] = [[]]"
| "split_on sep (c # cs) = (if c = sep then [] # split_on sep cs else
     (case split_on sep cs of [] \<Rightarrow> [[c]] | w # ws \<Rightarrow> (c # w) # ws))"

lemma split_on_nonempty [simp]: "split_on sep s \<noteq> []"
  by (induction s) (auto split: list.splits)

lemma Join_split_on: "strings_Join (split_on sep s) [sep] = s"
proof (induction s)
  case (Cons c cs)
  obtain w ws where w: "split_on sep cs = w # ws" by (cases "split_on sep cs") auto
  with Cons show ?case by (cases ws) auto
qed simp

lemma split_on_parts: "w \<in> set (split_on sep s) \<Longrightarrow> sep \<notin> set w"
proof (induction s arbitrary: w)
  case (Cons c cs)
  obtain v vs where "split_on sep cs = v # vs" by (cases "split_on sep cs") auto
  with Cons show ?case by (auto split: if_splits)
qed simp

end
