(* ===== verification/OTA_Metrics.thy ===== *)
theory OTA_Metrics
  imports OTA_Observe OTA_Text
begin

text \<open>
  The metrics page (\<open>WriteMetrics\<close> in \<open>internal/ota/metrics.go\<close>): the text that the API serves under \<open>/metrics\<close>, which a scraper reads
  back line by line. What \<open>%q\<close> and \<open>%g\<close> print is an argument.
\<close>

section \<open>The text\<close>

text \<open>
  \<open>fm_rate b n\<close> prints \<open>b\<close> bytes in \<open>n\<close> nanoseconds as bytes per second, \<open>fm_mean n k\<close> the mean of \<open>k\<close> durations in
  seconds, \<open>fm_seconds\<close> a duration in seconds; 0 and -1 are printed as such.
\<close>

record fmt =
  fm_q :: "string \<Rightarrow> string"
  fm_rate :: "int \<Rightarrow> int \<Rightarrow> string"
  fm_mean :: "int \<Rightarrow> int \<Rightarrow> string"
  fm_seconds :: "duration \<Rightarrow> string"

definition typed :: "string \<Rightarrow> string \<Rightarrow> string" where
  "typed name kind = ''# TYPE '' @ name @ '' '' @ kind"

definition gauge :: "string \<Rightarrow> string \<Rightarrow> string list" where
  "gauge name v = [typed name ''gauge'', name @ '' '' @ v]"

definition counter :: "string \<Rightarrow> string \<Rightarrow> string list" where
  "counter name v = [typed name ''counter'', name @ '' '' @ v]"

definition sample_line :: "string \<Rightarrow> string \<Rightarrow> string \<Rightarrow> string" where
  "sample_line name labels v = name @ ''{'' @ labels @ ''} '' @ v"

definition metric_lines :: "fmt \<Rightarrow> Stats \<Rightarrow> nat \<Rightarrow> u64 \<Rightarrow> int \<Rightarrow> time option \<Rightarrow> string list" where
  "metric_lines F st pending sequence cache now =
     gauge ''zyvor_ota_pending_events'' (FormatInt (int pending))
   @ gauge ''zyvor_ota_release_sequence'' (FormatUint sequence)
   @ [typed ''zyvor_ota_state_seconds_total'' ''counter'']
   @ map (\<lambda>(state, n). sample_line ''zyvor_ota_state_seconds_total'' (''state='' @ fm_q F state) (fm_seconds F n)) (sx_stateNanos st)
   @ counter ''zyvor_ota_download_bytes_total'' (FormatInt (sx_downloadBytes st))
   @ gauge ''zyvor_ota_download_bytes_per_second'' (if sx_downloadNanos st > 0 then fm_rate F (sx_downloadBytes st) (sx_downloadNanos st) else ''0'')
   @ counter ''zyvor_ota_download_resumes_total'' (FormatInt (sx_downloadResumes st))
   @ [typed ''zyvor_ota_health_failures_total'' ''counter'']
   @ map (\<lambda>(name, n). sample_line ''zyvor_ota_health_failures_total'' (''check='' @ fm_q F name) (FormatInt n)) (sx_healthFailures st)
   @ counter ''zyvor_ota_commits_total'' (FormatInt (sx_commits st))
   @ counter ''zyvor_ota_rollbacks_total'' (FormatInt (sx_rollbacks st))
   @ counter ''zyvor_ota_recoveries_total'' (FormatInt (sx_recoveries st))
   @ [typed ''zyvor_ota_fleet_sync_total'' ''counter'',
      sample_line ''zyvor_ota_fleet_sync_total'' (''result='' @ [CHR 0x22] @ ''ok'' @ [CHR 0x22]) (FormatInt (sx_fleetSyncOK st)),
      sample_line ''zyvor_ota_fleet_sync_total'' (''result='' @ [CHR 0x22] @ ''error'' @ [CHR 0x22]) (FormatInt (sx_fleetSyncFail st))]
   @ gauge ''zyvor_ota_fleet_sync_seconds''
       (if sx_fleetSyncOK st + sx_fleetSyncFail st > 0 then fm_mean F (sx_fleetSyncNanos st) (sx_fleetSyncOK st + sx_fleetSyncFail st) else ''0'')
   @ gauge ''zyvor_ota_cache_bytes'' (FormatInt cache)
   @ [typed ''zyvor_ota_current_slot'' ''info'',
      sample_line ''zyvor_ota_current_slot'' (''slot='' @ fm_q F (sx_slot st) @ '',release='' @ fm_q F (sx_release st)) ''1'']
   @ gauge ''zyvor_ota_seconds_since_success'' (case now of None \<Rightarrow> ''-1'' | Some t \<Rightarrow> fm_seconds F (time_sub t (sx_lastSuccess st)))"

definition metrics_text :: "fmt \<Rightarrow> Stats \<Rightarrow> nat \<Rightarrow> u64 \<Rightarrow> int \<Rightarrow> time option \<Rightarrow> bytes" where
  "metrics_text F st pending sequence cache now = concat (map (\<lambda>l. l @ [CHR 0x0A]) (metric_lines F st pending sequence cache now))"

section \<open>Reading it back\<close>

text \<open>A scraper: the first line that starts with the name and a blank, read as an integer.\<close>

fun find_metric :: "string \<Rightarrow> string list \<Rightarrow> int option" where
  "find_metric name [] = None"
| "find_metric name (l # ls) = (if starts_with (name @ '' '') l then scan_int (drop (length name + 1) l) else find_metric name ls)"

definition scrape :: "string \<Rightarrow> bytes \<Rightarrow> int option" where
  "scrape name text = find_metric name (split_on CHR 0x0A text)"

lemma find_metric_append:
  "(\<And>l. l \<in> set ls \<Longrightarrow> \<not> starts_with (name @ '' '') l) \<Longrightarrow> find_metric name (ls @ ks) = find_metric name ks"
  by (induction ls) auto

lemma find_metric_samples:
  "CHR ''{'' \<notin> set name \<Longrightarrow> CHR '' '' \<notin> set other \<Longrightarrow> l = sample_line other labels v \<Longrightarrow> \<not> starts_with (name @ '' '') l"
proof
  assume a: "CHR ''{'' \<notin> set name" "CHR '' '' \<notin> set other" "l = sample_line other labels v" "starts_with (name @ '' '') l"
  have "l = (name @ '' '') @ drop (length (name @ '' '')) l" using a(4) unfolding starts_with_def by (metis append_take_drop_id)
  then obtain rest where r: "other @ ''{'' @ labels @ ''} '' @ v = name @ '' '' @ rest"
    using a(3) by (metis append.assoc sample_line_def)
  consider us where "other = name @ us" "us @ ''{'' @ labels @ ''} '' @ v = '' '' @ rest"
    | us where "other @ us = name" "''{'' @ labels @ ''} '' @ v = us @ '' '' @ rest"
    using append_eq_append_conv2 [THEN iffD1, OF r] by auto
  then show False
  proof cases
    case 1
    with a(2) show ?thesis by (cases us) auto
  next
    case 2
    with a(1) show ?thesis by (cases us) auto
  qed
qed

lemma split_line: "sep \<notin> set l \<Longrightarrow> split_on sep (l @ sep # rest) = l # split_on sep rest"
  by (induction l) auto

lemma split_lines: "(\<And>l. l \<in> set ls \<Longrightarrow> sep \<notin> set l) \<Longrightarrow> split_on sep (concat (map (\<lambda>l. l @ [sep]) ls)) = ls @ [[]]"
  by (induction ls) (simp_all add: split_line)

lemma digits_no_newline: "CHR 0x0A \<notin> set (dec_digits n)"
proof
  assume "CHR 0x0A \<in> set (dec_digits n)"
  then have "is_digit CHR 0x0A" using dec_digits_value [of n] by (auto simp: list_all_iff)
  then show False by (simp add: is_digit_def)
qed

lemma numbers_no_newline: "CHR 0x0A \<notin> set (FormatInt i)" "CHR 0x0A \<notin> set (FormatUint n)"
  using digits_no_newline by (auto simp: FormatInt_def FormatUint_def)

lemma lines_no_newline:
  assumes "\<And>s. CHR 0x0A \<notin> set (fm_q F s)" "\<And>a b. CHR 0x0A \<notin> set (fm_rate F a b)" "\<And>a b. CHR 0x0A \<notin> set (fm_mean F a b)"
    "\<And>d. CHR 0x0A \<notin> set (fm_seconds F d)"
  shows "l \<in> set (metric_lines F st pending sequence cache now) \<Longrightarrow> CHR 0x0A \<notin> set l"
  using assms numbers_no_newline
  by (auto simp: metric_lines_def gauge_def counter_def typed_def sample_line_def split: if_splits option.splits)

definition metric_name :: "string \<Rightarrow> bool" where
  "metric_name s \<longleftrightarrow> s \<noteq> [] \<and> hd s \<noteq> CHR ''#'' \<and> CHR '' '' \<notin> set s \<and> CHR ''{'' \<notin> set s"

lemma find_typed [simp]: "metric_name name \<Longrightarrow> find_metric name (typed other kind # ls) = find_metric name ls"
  by (cases name) (auto simp: starts_with_def typed_def metric_name_def)

lemma find_sample [simp]: "metric_name name \<Longrightarrow> metric_name other \<Longrightarrow> find_metric name (sample_line other labels v # ls) = find_metric name ls"
  using find_metric_samples [of name other "sample_line other labels v" labels v] by (simp add: metric_name_def)

lemma starts_with_name:
  assumes "metric_name name" "metric_name other" "starts_with (name @ '' '') (other @ '' '' @ v)"
  shows "name = other"
proof -
  have "other @ '' '' @ v = (name @ '' '') @ drop (length (name @ '' '')) (other @ '' '' @ v)"
    using assms(3) unfolding starts_with_def by (metis append_take_drop_id)
  then obtain rest where r: "other @ '' '' @ v = name @ '' '' @ rest" by simp
  have "takeWhile (\<lambda>c. c \<noteq> CHR '' '') (s @ '' '' @ t) = s" if "metric_name s" for s t
    using that unfolding metric_name_def by (subst takeWhile_append2) auto
  from this [OF assms(1), of rest] this [OF assms(2), of v]
  r show ?thesis by simp
qed

lemma find_plain: "metric_name name \<Longrightarrow> metric_name other \<Longrightarrow>
    find_metric name ((other @ '' '' @ v) # ls) = (if name = other then scan_int v else find_metric name ls)"
  using starts_with_name [of name other v] by (auto simp: starts_with_def)

lemma find_gauge [simp]: "metric_name name \<Longrightarrow> metric_name other \<Longrightarrow>
    find_metric name (gauge other v @ ls) = (if name = other then scan_int v else find_metric name ls)"
  using find_plain [of name other v] by (simp add: gauge_def del: find_metric.simps)

lemma find_counter [simp]: "metric_name name \<Longrightarrow> metric_name other \<Longrightarrow>
    find_metric name (counter other v @ ls) = (if name = other then scan_int v else find_metric name ls)"
  using find_plain [of name other v] by (simp add: counter_def del: find_metric.simps)

lemma find_samples [simp]: "metric_name name \<Longrightarrow> metric_name other \<Longrightarrow>
    find_metric name (map (\<lambda>(k, n). sample_line other (g k) (h n)) xs @ ls) = find_metric name ls"
  by (induction xs) (auto simp del: find_metric.simps)

declare find_metric.simps [simp del]

text \<open>
  A scraper reads back what the agent counted: in the text of the metrics page the lines can be told apart, and each counter and gauge that the
  agent keeps as an integer is found under its name with its value, whatever the states, checks and labels in between are; provided
  quoted text and printed floats contain no line break.
\<close>

theorem metrics_read_back:
  assumes clean: "\<And>s. CHR 0x0A \<notin> set (fm_q F s)" "\<And>a b. CHR 0x0A \<notin> set (fm_rate F a b)" "\<And>a b. CHR 0x0A \<notin> set (fm_mean F a b)"
      "\<And>d. CHR 0x0A \<notin> set (fm_seconds F d)"
    and "(name, v) \<in> {(''zyvor_ota_pending_events'', int pending), (''zyvor_ota_download_bytes_total'', sx_downloadBytes st),
      (''zyvor_ota_download_resumes_total'', sx_downloadResumes st), (''zyvor_ota_commits_total'', sx_commits st),
      (''zyvor_ota_rollbacks_total'', sx_rollbacks st), (''zyvor_ota_recoveries_total'', sx_recoveries st), (''zyvor_ota_cache_bytes'', cache)}"
  shows "scrape name (metrics_text F st pending sequence cache now) = Some v"
proof -
  let ?ls = "metric_lines F st pending sequence cache now"
  have "split_on CHR 0x0A (metrics_text F st pending sequence cache now) = ?ls @ [[]]"
    unfolding metrics_text_def by (rule split_lines) (rule lines_no_newline [OF clean])
  moreover have "find_metric name (?ls @ [[]]) = Some v"
    using assms(5) by (elim insertE emptyE) (simp_all add: metric_lines_def metric_name_def scan_int_FormatInt)
  ultimately show ?thesis by (simp add: scrape_def)
qed

definition sample_fmt :: fmt where
  "sample_fmt = \<lparr>fm_q = (\<lambda>s. ''q''), fm_rate = (\<lambda>_ _. ''1.5''), fm_mean = (\<lambda>_ _. ''0.25''), fm_seconds = (\<lambda>_. ''3'')\<rparr>"

theorem metrics_read_back_witness:
  "scrape ''zyvor_ota_commits_total'' (metrics_text sample_fmt (zero_Stats\<lparr>sx_commits := 4, sx_stateNanos := [(''DOWNLOADING'', 9)]\<rparr>) 2 7 0 None) = Some 4"
  by (rule metrics_read_back) (simp_all add: sample_fmt_def)

end
