(* ===== verification/OTA_Api.thy ===== *)
theory OTA_Api
  imports OTA_Execution OTA_FleetRef OTA_Metrics
begin

text \<open>
  The local operator API (\<open>internal/ota/api.go\<close>) and its client (\<open>internal/otaclient/client.go\<close>),
  with \<open>Store.Backup\<close> and \<open>Store.ExportArchive\<close> behind it (\<open>internal/ota/store.go\<close>): decoding of requests, dispatch to
  the engine's handlers, status codes, and the client's retries while the engine is busy.
\<close>

section \<open>The code\<close>

text \<open>
  What the handlers answer, before it is encoded. \<open>api_lib\<close> holds the JSON encoders and decoders, the
  result of the archive query, SQLite's \<open>VACUUM INTO\<close> and the formats of the metrics page.
\<close>

datatype api_value =
    VStatus string string string "Job option" u64 u64 nat
  | VJob Job
  | VEvents "Event list"
  | VError string
  | VOk

record api_lib =
  ap_enc :: "api_value \<Rightarrow> bytes"
  ap_dec_ack :: "u64 decoder"
  ap_dec_path :: "string decoder"
  ap_Query :: "store \<Rightarrow> bytes list result"
  ap_enc_rows :: "bytes list \<Rightarrow> bytes result"
  ap_Exec :: "string \<Rightarrow> fs \<Rightarrow> error option \<times> fs"
  ap_fmt :: fmt

definition JSONResponse :: "api_lib \<Rightarrow> int \<Rightarrow> api_value \<Rightarrow> reply" where
  "JSONResponse P status v = Reply status (ap_enc P v @ [CHR 0x0A])"

definition decodeRequest :: "'a decoder \<Rightarrow> http_request \<Rightarrow> 'a result" where
  "decodeRequest dec r =
     (if int (length (hq_Body r)) > 262144 then Inl (Err ''http: request body too large'')
      else if hq_Broken r then Inl (Err ''unexpected EOF'')
      else StrictJSON dec (hq_Body r))"

definition apiAction :: "api_lib \<Rightarrow> error option \<Rightarrow> reply" where
  "apiAction P eo = (case eo of Some e \<Rightarrow> JSONResponse P 409 (VError (err_text e)) | None \<Rightarrow> JSONResponse P 200 VOk)"

definition path_text :: "path \<Rightarrow> string" where
  "path_text p = (if p = [] then ''/'' else concat (map (\<lambda>x. CHR ''/'' # x) p))"

fun ReplaceQuotes :: "string \<Rightarrow> string" where
  "ReplaceQuotes [] = []"
| "ReplaceQuotes (c # cs) = (if c = CHR 0x27 then [CHR 0x27, CHR 0x27] else [c]) @ ReplaceQuotes cs"

definition vacuum_stmt :: "string \<Rightarrow> string" where
  "vacuum_stmt dest = ''VACUUM INTO '' @ [CHR 0x27] @ ReplaceQuotes dest @ [CHR 0x27]"

definition Backup :: "api_lib \<Rightarrow> string \<Rightarrow> fs \<Rightarrow> error option \<times> fs" where
  "Backup P dest f =
     (if \<not> IsAbs dest then (Some (Err ''backup destination must be absolute''), f)
      else if os_Stat f (abs_path dest) = None then (Some (Err ''backup destination exists''), f)
      else ap_Exec P (vacuum_stmt (path_text (abs_path dest))) f)"

definition ExportArchive :: "api_lib \<Rightarrow> store \<Rightarrow> bytes result" where
  "ExportArchive P s = (case ap_Query P s of Inl e \<Rightarrow> Inl e | Inr rows \<Rightarrow> ap_enc_rows P rows)"

text \<open>\<open>WriteMetrics\<close> reads the clock only when an update has succeeded before.\<close>

definition WriteMetrics :: "'b agent \<Rightarrow> api_lib \<Rightarrow> nat \<Rightarrow> u64 \<Rightarrow> 'b engine \<Rightarrow> bytes \<times> 'b engine" where
  "WriteMetrics A P pending sequence en =
     (let cache = cacheBytes (sdir A) (en_fs en) in
      if sx_lastSuccess (en_stats en) = 0 then (metrics_text (ap_fmt P) (en_stats en) pending sequence cache None, en)
      else (case Now en of (now, en1) \<Rightarrow> (metrics_text (ap_fmt P) (en_stats en) pending sequence cache (Some now), en1)))"

definition get_status :: "'b agent \<Rightarrow> string \<Rightarrow> api_lib \<Rightarrow> 'b engine \<Rightarrow> reply" where
  "get_status A version P en =
     (let d = View (en_store en) in
      JSONResponse P 200 (VStatus version (cfg_DeviceID (ag_cfg A)) (cfg_Backend (ag_cfg A)) (map_of (db_Jobs d) (db_Active d))
        (db_HighSequence d) (db_EventSequence d) (length (db_Events d))))"

definition get_job :: "api_lib \<Rightarrow> string \<Rightarrow> 'b engine \<Rightarrow> reply" where
  "get_job P i en = (case map_of (db_Jobs (View (en_store en))) i of
       None \<Rightarrow> JSONResponse P 404 (VError ''job not found'')
     | Some j \<Rightarrow> JSONResponse P 200 (VJob j))"

definition post_assignment :: "'b agent \<Rightarrow> api_lib \<Rightarrow> bool \<Rightarrow> http_request \<Rightarrow> 'b engine \<Rightarrow> reply \<times> 'b engine" where
  "post_assignment A P busy r en =
     (case decodeRequest (lib_dec_Assignment (ag_lib A)) r of
        Inl e \<Rightarrow> (JSONResponse P 400 (VError ''invalid assignment JSON''), en)
      | Inr a \<Rightarrow> (case Submit A busy a en of
          (Inl e, en1) \<Rightarrow> (JSONResponse P 409 (VError (err_text e)), en1)
        | (Inr j, en1) \<Rightarrow> (JSONResponse P 202 (VJob j), en1)))"

definition post_ack :: "'b agent \<Rightarrow> api_lib \<Rightarrow> http_request \<Rightarrow> 'b engine \<Rightarrow> reply \<times> 'b engine" where
  "post_ack A P r en =
     (case decodeRequest (ap_dec_ack P) r of
        Inl e \<Rightarrow> (JSONResponse P 400 (VError ''invalid ack''), en)
      | Inr n \<Rightarrow> (case Ack A n en of (eo, en1) \<Rightarrow> (apiAction P eo, en1)))"

definition post_backup :: "api_lib \<Rightarrow> http_request \<Rightarrow> 'b engine \<Rightarrow> reply \<times> 'b engine" where
  "post_backup P r en =
     (case decodeRequest (ap_dec_path P) r of
        Inl e \<Rightarrow> (JSONResponse P 400 (VError (err_text e)), en)
      | Inr p \<Rightarrow>
          if \<not> IsAbs p then (JSONResponse P 400 (VError ''backup destination must be absolute''), en)
          else (case Backup P p (en_fs en) of (eo, f) \<Rightarrow> (apiAction P eo, en\<lparr>en_fs := f\<rparr>)))"

definition get_archive :: "api_lib \<Rightarrow> 'b engine \<Rightarrow> reply" where
  "get_archive P en = (case ExportArchive P (en_store en) of
       Inl e \<Rightarrow> JSONResponse P 409 (VError (err_text e)) | Inr b \<Rightarrow> Reply 200 b)"

definition get_metrics :: "'b agent \<Rightarrow> api_lib \<Rightarrow> 'b engine \<Rightarrow> reply \<times> 'b engine" where
  "get_metrics A P en =
     (let d = View (en_store en) in
      case WriteMetrics A P (length (db_Events d)) (db_HighSequence d) en of (b, en1) \<Rightarrow> (Reply 200 b, en1))"

text \<open>
  Routing as for the fleet server: clean paths, \<open>HEAD\<close> as \<open>GET\<close> without a body.
\<close>

definition only_get :: "http_request \<Rightarrow> (reply \<times> 'e) \<Rightarrow> 'e \<Rightarrow> reply \<times> 'e" where
  "only_get r res en = (if hq_Method r = ''GET'' \<or> hq_Method r = ''HEAD'' then (HandleGet r (fst res), snd res)
     else (http_Error 405 ''Method Not Allowed'', en))"

definition only_post :: "http_request \<Rightarrow> (reply \<times> 'e) \<Rightarrow> 'e \<Rightarrow> reply \<times> 'e" where
  "only_post r res en = (if hq_Method r = ''POST'' then res else (http_Error 405 ''Method Not Allowed'', en))"

definition api_Handler :: "'b agent \<Rightarrow> string \<Rightarrow> api_lib \<Rightarrow> bool \<Rightarrow> http_request \<Rightarrow> 'b engine \<Rightarrow> reply \<times> 'b engine" where
  "api_Handler A version P busy r en =
     (let p = split_slash (hq_Path r) in
      if p = [[], ''v1'', ''status''] then only_get r (get_status A version P en, en) en
      else if length p = 4 \<and> take 3 p = [[], ''v1'', ''jobs''] then only_get r (get_job P (p ! 3) en, en) en
      else if p = [[], ''v1'', ''assignments''] then only_post r (post_assignment A P busy r en) en
      else if p = [[], ''v1'', ''events''] then only_get r (JSONResponse P 200 (VEvents (db_Events (View (en_store en)))), en) en
      else if p = [[], ''v1'', ''events'', ''ack''] then only_post r (post_ack A P r en) en
      else if p = [[], ''v1'', ''reboot''] then only_post r (case RequestReboot A busy en of (eo, en1) \<Rightarrow> (apiAction P eo, en1)) en
      else if p = [[], ''v1'', ''recover-abort''] then only_post r (case RecoverAbort A busy en of (eo, en1) \<Rightarrow> (apiAction P eo, en1)) en
      else if p = [[], ''v1'', ''gc''] then only_post r (case GC A busy en of (eo, en1) \<Rightarrow> (apiAction P eo, en1)) en
      else if p = [[], ''v1'', ''backup''] then only_post r (post_backup P r en) en
      else if p = [[], ''v1'', ''archive''] then only_get r (get_archive P en, en) en
      else if p = [[], ''metrics''] then only_get r (get_metrics A P en) en
      else (http_Error 404 ''404 page not found'', en))"

section \<open>Every request is a step of the agent\<close>

lemma WriteMetrics_store: "WriteMetrics A P n q en = (b, en1) \<Longrightarrow> en_store en1 = en_store en"
  by (auto simp: WriteMetrics_def Now_def Let_def split: if_splits)

lemma api_Handler_steps:
  assumes "api_Handler A version P busy r en = (rep, en1)"
  shows "agent_step A en en1"
proof -
  consider "en_store en1 = en_store en" | a x where "Submit A busy a en = (x, en1)" | n eo where "Ack A n en = (eo, en1)"
    | eo where "RequestReboot A busy en = (eo, en1)" | eo where "RecoverAbort A busy en = (eo, en1)" | eo where "GC A busy en = (eo, en1)"
    using assms
    by (auto simp: api_Handler_def only_get_def only_post_def post_assignment_def post_ack_def post_backup_def get_metrics_def Let_def
      dest: WriteMetrics_store split: if_splits sum.splits prod.splits)
  then show ?thesis by cases (auto intro: agent_step.intros)
qed

section \<open>The client\<close>

text \<open>
  \<open>otaclient.Client.do\<close>: a \<open>client_transport\<close> is one exchange over the socket, \<open>None\<close> when it fails.
  The loop over 25 attempts counts down; it goes on only after a reply 409 that mentions a busy
  engine, when attempts are left.
\<close>

type_synonym 's client_transport = "http_request \<Rightarrow> 's \<Rightarrow> (int \<times> bytes \<times> bool) option \<times> 's"

datatype client_result = Done bytes | Transport | APIError int bytes

fun bytes_Contains :: "bytes \<Rightarrow> bytes \<Rightarrow> bool" where
  "bytes_Contains [] w = (w = [])"
| "bytes_Contains (c # cs) w = (starts_with w (c # cs) \<or> bytes_Contains cs w)"

fun do_attempts :: "'s client_transport \<Rightarrow> http_request \<Rightarrow> int \<Rightarrow> nat \<Rightarrow> int \<times> bytes \<Rightarrow> 's \<Rightarrow> client_result \<times> 's" where
  "do_attempts T r want 0 (status, b) w = (APIError status b, w)"
| "do_attempts T r want (Suc n) prev w = (case T r w of
      (None, w1) \<Rightarrow> (Transport, w1)
    | (Some (status, body, broken), w1) \<Rightarrow> (case ReadAll_limit 1048576 body broken of
        Inl e \<Rightarrow> (Transport, w1)
      | Inr b \<Rightarrow>
          if status = want then (Done b, w1)
          else if status = 409 \<and> bytes_Contains b ''engine busy'' \<and> n > 0 then do_attempts T r want n (status, b) w1
          else (APIError status b, w1)))"

definition client_do ::
  "'s client_transport \<Rightarrow> string \<Rightarrow> string \<Rightarrow> bytes result option \<Rightarrow> int \<Rightarrow> (bytes \<Rightarrow> 'a result) \<Rightarrow> 's \<Rightarrow> (client_result + 'a) result \<times> 's" where
  "client_do T method p body want dec w =
     (case (case body of None \<Rightarrow> Inr [] | Some x \<Rightarrow> x) of
        Inl e \<Rightarrow> (Inl e, w)
      | Inr payload \<Rightarrow>
          (case do_attempts T \<lparr>hq_Method = method, hq_Path = p, hq_Authorization = [], hq_Body = payload, hq_Broken = False\<rparr> want 25 (0, []) w of
             (Done b, w1) \<Rightarrow> (case dec b of Inl e \<Rightarrow> (Inl e, w1) | Inr x \<Rightarrow> (Inr (Inr x), w1))
           | (failed, w1) \<Rightarrow> (Inr (Inl failed), w1)))"

text \<open>
  The operations of the client. \<open>client_lib\<close> holds the JSON encoders of requests and decoders of
  replies; an operation without a result ignores the body.
\<close>

record client_lib =
  cl_dec_Status :: "bytes \<Rightarrow> api_value result"
  cl_dec_Job :: "bytes \<Rightarrow> Job result"
  cl_dec_Events :: "bytes \<Rightarrow> Event list result"
  cl_dec_raw :: "bytes \<Rightarrow> bytes result"
  cl_enc_Assignment :: "Assignment \<Rightarrow> bytes result"
  cl_enc_ack :: "u64 \<Rightarrow> bytes result"
  cl_enc_path :: "string \<Rightarrow> bytes result"

definition no_dest :: "bytes \<Rightarrow> unit result" where
  "no_dest b = Inr ()"

definition client_Status :: "client_lib \<Rightarrow> 's client_transport \<Rightarrow> 's \<Rightarrow> (client_result + api_value) result \<times> 's" where
  "client_Status C T = client_do T ''GET'' ''/v1/status'' None 200 (cl_dec_Status C)"

definition client_Job :: "client_lib \<Rightarrow> string \<Rightarrow> 's client_transport \<Rightarrow> 's \<Rightarrow> (client_result + Job) result \<times> 's" where
  "client_Job C i T = client_do T ''GET'' (''/v1/jobs/'' @ i) None 200 (cl_dec_Job C)"

definition client_Submit :: "client_lib \<Rightarrow> Assignment \<Rightarrow> 's client_transport \<Rightarrow> 's \<Rightarrow> (client_result + Job) result \<times> 's" where
  "client_Submit C a T = client_do T ''POST'' ''/v1/assignments'' (Some (cl_enc_Assignment C a)) 202 (cl_dec_Job C)"

definition client_Events :: "client_lib \<Rightarrow> 's client_transport \<Rightarrow> 's \<Rightarrow> (client_result + Event list) result \<times> 's" where
  "client_Events C T = client_do T ''GET'' ''/v1/events'' None 200 (cl_dec_Events C)"

definition client_Ack :: "client_lib \<Rightarrow> u64 \<Rightarrow> 's client_transport \<Rightarrow> 's \<Rightarrow> (client_result + unit) result \<times> 's" where
  "client_Ack C n T = client_do T ''POST'' ''/v1/events/ack'' (Some (cl_enc_ack C n)) 200 no_dest"

definition client_Reboot :: "'s client_transport \<Rightarrow> 's \<Rightarrow> (client_result + unit) result \<times> 's" where
  "client_Reboot T = client_do T ''POST'' ''/v1/reboot'' None 200 no_dest"

definition client_RecoverAbort :: "'s client_transport \<Rightarrow> 's \<Rightarrow> (client_result + unit) result \<times> 's" where
  "client_RecoverAbort T = client_do T ''POST'' ''/v1/recover-abort'' None 200 no_dest"

definition client_GC :: "'s client_transport \<Rightarrow> 's \<Rightarrow> (client_result + unit) result \<times> 's" where
  "client_GC T = client_do T ''POST'' ''/v1/gc'' None 200 no_dest"

definition client_Backup :: "client_lib \<Rightarrow> string \<Rightarrow> 's client_transport \<Rightarrow> 's \<Rightarrow> (client_result + unit) result \<times> 's" where
  "client_Backup C p T = client_do T ''POST'' ''/v1/backup'' (Some (cl_enc_path C p)) 200 no_dest"

definition client_Archive :: "client_lib \<Rightarrow> 's client_transport \<Rightarrow> 's \<Rightarrow> (client_result + bytes) result \<times> 's" where
  "client_Archive C T = client_do T ''GET'' ''/v1/archive'' None 200 (cl_dec_raw C)"

definition client_Metrics :: "'s client_transport \<Rightarrow> 's \<Rightarrow> (client_result + bytes) result \<times> 's" where
  "client_Metrics T w =
     (case T \<lparr>hq_Method = ''GET'', hq_Path = ''/metrics'', hq_Authorization = [], hq_Body = [], hq_Broken = False\<rparr> w of
        (None, w1) \<Rightarrow> (Inr (Inl Transport), w1)
      | (Some (status, body, broken), w1) \<Rightarrow> (case ReadAll_limit 1048576 body broken of
          Inl e \<Rightarrow> (Inl e, w1)
        | Inr b \<Rightarrow> if status \<noteq> 200 then (Inr (Inl (APIError status b)), w1) else (Inr (Inr b), w1)))"

text \<open>
  The address of a request, and the text of an error reply: \<open>dec\<close> reads the member \<open>error\<close> of a JSON object, which is empty when absent.
\<close>

definition TrimRight :: "char \<Rightarrow> string \<Rightarrow> string" where
  "TrimRight c s = rev (dropWhile (\<lambda>x. x = c) (rev s))"

definition client_url :: "string \<Rightarrow> string \<Rightarrow> string" where
  "client_url base p = TrimRight CHR ''/'' (if base = [] then ''http://unix'' else base) @ p"

definition APIError_text :: "(bytes \<Rightarrow> string result) \<Rightarrow> int \<Rightarrow> bytes \<Rightarrow> string" where
  "APIError_text dec status body = ''ota api '' @ FormatInt status @ '': '' @
     (case dec body of Inr e \<Rightarrow> if e \<noteq> [] then e else body | Inl _ \<Rightarrow> body)"

lemma TrimRight_end: "TrimRight c s = [] \<or> last (TrimRight c s) \<noteq> c"
proof (cases "dropWhile (\<lambda>x. x = c) (rev s)")
  case (Cons x xs)
  then have "x \<noteq> c" using hd_dropWhile [of "\<lambda>x. x = c" "rev s"] by simp
  with Cons show ?thesis by (simp add: TrimRight_def)
qed (simp add: TrimRight_def)

text \<open>However many slashes end the configured origin, the address has exactly one between the origin and the path.\<close>

lemma client_url_slashes:
  assumes "base \<noteq> []" "last base \<noteq> CHR ''/''"
  shows "client_url (base @ replicate n CHR ''/'') p = base @ p"
proof -
  have "dropWhile (\<lambda>x. x = CHR ''/'') (replicate n CHR ''/'' @ rev base) = rev base"
    using assms by (induction n) (auto simp: hd_rev dropWhile_eq_self_iff)
  with assms(1) show ?thesis by (simp add: client_url_def TrimRight_def)
qed

text \<open>The words of the engine's error reach the operator.\<close>

lemma APIError_text_says: "dec body = Inr e \<Longrightarrow> e \<noteq> [] \<Longrightarrow> APIError_text dec 409 body = ''ota api 409: '' @ e"
  by (simp add: APIError_text_def) code_simp

text \<open>
  Client and agent together: attempt \<open>k\<close> finds the engine's mutex taken when \<open>busy k\<close>, and
  \<open>during k\<close> is what the holder of the mutex and other handlers did before it.
\<close>

definition api_link ::
  "'b agent \<Rightarrow> string \<Rightarrow> api_lib \<Rightarrow> (nat \<Rightarrow> bool) \<Rightarrow> (nat \<Rightarrow> 'b engine \<Rightarrow> 'b engine) \<Rightarrow> ('b engine \<times> nat) client_transport" where
  "api_link A version P busy during r w = (case w of (en, k) \<Rightarrow>
     (case api_Handler A version P (busy k) r (during k en) of (Reply code b, en1) \<Rightarrow> (Some (code, b, False), (en1, Suc k))))"

fun meanwhile :: "(nat \<Rightarrow> 'e \<Rightarrow> 'e) \<Rightarrow> nat \<Rightarrow> nat \<Rightarrow> 'e \<Rightarrow> 'e" where
  "meanwhile during k 0 en = en"
| "meanwhile during k (Suc n) en = meanwhile during (Suc k) n (during k en)"

definition says_busy :: "api_lib \<Rightarrow> string \<Rightarrow> bool" where
  "says_busy P msg \<longleftrightarrow> bytes_Contains (ap_enc P (VError msg) @ [CHR 0x0A]) ''engine busy''
     \<and> length (ap_enc P (VError msg)) < 1000000"

lemma split_paths:
  "split_slash ''/v1/reboot'' = [[], ''v1'', ''reboot'']" "split_slash ''/v1/recover-abort'' = [[], ''v1'', ''recover-abort'']"
  "split_slash ''/v1/gc'' = [[], ''v1'', ''gc'']" "split_slash ''/v1/assignments'' = [[], ''v1'', ''assignments'']"
  by simp_all

lemma busy_reply:
  assumes "hq_Method r = ''POST''" "hq_Path r \<in> {''/v1/reboot'', ''/v1/recover-abort'', ''/v1/gc''}"
  shows "api_Handler A version P True r en = (JSONResponse P 409 (VError ''engine busy''), en)"
  using assms split_paths
  by (auto simp: api_Handler_def only_post_def apiAction_def RequestReboot_def RecoverAbort_def GC_def Let_def)

lemma free_reply:
  assumes "hq_Method r = ''POST''"
    and "(hq_Path r, h) \<in> {(''/v1/reboot'', RequestReboot A False), (''/v1/recover-abort'', RecoverAbort A False), (''/v1/gc'', GC A False)}"
    and "h en = (eo, en1)"
  shows "api_Handler A version P False r en = (apiAction P eo, en1)"
  using assms split_paths by (auto simp: api_Handler_def only_post_def Let_def)

lemma busy_attempt:
  assumes "hq_Method r = ''POST''" "hq_Path r \<in> {''/v1/reboot'', ''/v1/recover-abort'', ''/v1/gc''}"
    and "says_busy P ''engine busy''" "busy k" "want \<noteq> 409" "n > 0"
  shows "do_attempts (api_link A version P busy during) r want (Suc n) prev (en, k)
    = do_attempts (api_link A version P busy during) r want n (409, ap_enc P (VError ''engine busy'') @ [CHR 0x0A]) (during k en, Suc k)"
  using assms(3-6) by (simp add: busy_reply [OF assms(1,2)] api_link_def JSONResponse_def says_busy_def ReadAll_limit_def)

lemma busy_attempts:
  assumes "hq_Method r = ''POST''" "hq_Path r \<in> {''/v1/reboot'', ''/v1/recover-abort'', ''/v1/gc''}"
    and "says_busy P ''engine busy''" "want \<noteq> 409"
  shows "(\<And>i. i < m \<Longrightarrow> busy (k + i)) \<Longrightarrow> m < n \<Longrightarrow> \<exists>prev1. do_attempts (api_link A version P busy during) r want n prev (en, k)
    = do_attempts (api_link A version P busy during) r want (n - m) prev1 (meanwhile during k m en, k + m)"
proof (induction m arbitrary: k n prev en)
  case 0
  show ?case by (intro exI [of _ prev]) simp
next
  case (Suc m)
  obtain n1 where n: "n = Suc n1" "n1 > 0" using Suc.prems(2) by (cases n) auto
  have "busy k" using Suc.prems(1) [of 0] by simp
  note step = busy_attempt [where busy = busy, OF assms(1-3) this assms(4) n(2), of A version during prev en]
  have b: "busy (Suc k + i)" if "i < m" for i using Suc.prems(1) [of "Suc i"] that by simp
  have "m < n1" using Suc.prems(2) n by simp
  from Suc.IH [OF b this, of "(409, ap_enc P (VError ''engine busy'') @ [CHR 0x0A])" "during k en"] step n show ?case by simp
qed

definition answer :: "error option \<Rightarrow> api_value" where
  "answer eo = (case eo of None \<Rightarrow> VOk | Some e \<Rightarrow> VError (err_text e))"

lemma free_attempt:
  assumes "hq_Method r = ''POST''"
    and "(hq_Path r, h) \<in> {(''/v1/reboot'', RequestReboot A False), (''/v1/recover-abort'', RecoverAbort A False), (''/v1/gc'', GC A False)}"
    and "\<not> busy k" "h (during k en) = (eo, en1)" "length (ap_enc P (answer eo)) < 1000000" "n > 0"
    and "eo \<noteq> None \<Longrightarrow> \<not> bytes_Contains (ap_enc P (answer eo) @ [CHR 0x0A]) ''engine busy''"
  shows "do_attempts (api_link A version P busy during) r 200 n prev (en, k)
    = (case eo of None \<Rightarrow> Done (ap_enc P (answer eo) @ [CHR 0x0A]) | Some _ \<Rightarrow> APIError 409 (ap_enc P (answer eo) @ [CHR 0x0A]), (en1, Suc k))"
  using assms(3,5-7) free_reply [OF assms(1,2,4)]
  by (cases n; cases eo) (auto simp: api_link_def apiAction_def JSONResponse_def ReadAll_limit_def answer_def)

lemma command_runs_once:
  assumes "(p, h) \<in> {(''/v1/reboot'', RequestReboot A False), (''/v1/recover-abort'', RecoverAbort A False), (''/v1/gc'', GC A False)}"
    and "m < 25" "\<And>i. i < m \<Longrightarrow> busy i" "\<not> busy m" "says_busy P ''engine busy''"
    and "h (during m (meanwhile during 0 m en)) = (eo, en1)" "length (ap_enc P (answer eo)) < 1000000"
    and "eo \<noteq> None \<Longrightarrow> \<not> bytes_Contains (ap_enc P (answer eo) @ [CHR 0x0A]) ''engine busy''"
  shows "client_do (api_link A version P busy during) ''POST'' p None 200 no_dest (en, 0)
    = (Inr (case eo of None \<Rightarrow> Inr () | Some _ \<Rightarrow> Inl (APIError 409 (ap_enc P (answer eo) @ [CHR 0x0A]))), (en1, Suc m))"
proof -
  let ?r = "\<lparr>hq_Method = ''POST'', hq_Path = p, hq_Authorization = [], hq_Body = [], hq_Broken = False\<rparr>"
  let ?T = "api_link A version P busy during"
  have path: "hq_Path ?r \<in> {''/v1/reboot'', ''/v1/recover-abort'', ''/v1/gc''}" using assms(1) by auto
  have "\<exists>prev. do_attempts ?T ?r 200 25 (0, []) (en, 0) = do_attempts ?T ?r 200 (25 - m) prev (meanwhile during 0 m en, 0 + m)"
    by (rule busy_attempts [OF _ path assms(5)]) (simp_all add: assms(2,3))
  then obtain prev where busy: "do_attempts ?T ?r 200 25 (0, []) (en, 0) = do_attempts ?T ?r 200 (25 - m) prev (meanwhile during 0 m en, m)"
    by auto
  have "(hq_Path ?r, h) \<in> {(''/v1/reboot'', RequestReboot A False), (''/v1/recover-abort'', RecoverAbort A False), (''/v1/gc'', GC A False)}"
    using assms(1) by simp
  note free = free_attempt [where busy = busy and n = "25 - m" and during = during and en = "meanwhile during 0 m en" and k = m, OF _ this assms(4,6,7) _ assms(8)]
  have "do_attempts ?T ?r 200 (25 - m) prev (meanwhile during 0 m en, m)
      = (case eo of None \<Rightarrow> Done (ap_enc P (answer eo) @ [CHR 0x0A]) | Some _ \<Rightarrow> APIError 409 (ap_enc P (answer eo) @ [CHR 0x0A]), (en1, Suc m))"
    by (rule free) (use assms(2) in simp_all)
  with busy show ?thesis by (auto simp: client_do_def no_dest_def split: option.splits)
qed

text \<open>
  An operator command runs exactly once: as long as the engine is busy the client tries again without
  any effect of its own; on the first attempt that finds it free (among 25) the command runs on the state the other
  handlers left, and the client reports its outcome. Assumed of the JSON encoder: it keeps the words
  \<open>engine busy\<close> of an error text, and does not make them up.
\<close>

theorem client_command_runs_once:
  assumes "(command, h) \<in> {(client_Reboot, RequestReboot A False), (client_RecoverAbort, RecoverAbort A False), (client_GC, GC A False)}"
    and "m < 25" "\<And>i. i < m \<Longrightarrow> busy i" "\<not> busy m" "says_busy P ''engine busy''"
    and "h (during m (meanwhile during 0 m en)) = (eo, en1)" "length (ap_enc P (answer eo)) < 1000000"
    and "eo \<noteq> None \<Longrightarrow> \<not> bytes_Contains (ap_enc P (answer eo) @ [CHR 0x0A]) ''engine busy''"
  shows "command (api_link A version P busy during) (en, 0)
    = (Inr (case eo of None \<Rightarrow> Inr () | Some _ \<Rightarrow> Inl (APIError 409 (ap_enc P (answer eo) @ [CHR 0x0A]))), (en1, Suc m))"
proof -
  note run = command_runs_once [where h = h and busy = busy and during = during and m = m and en = en, OF _ assms(2-8)]
  consider "command = client_Reboot" "h = RequestReboot A False" | "command = client_RecoverAbort" "h = RecoverAbort A False"
    | "command = client_GC" "h = GC A False" using assms(1) by auto
  then show ?thesis
    by cases (simp_all add: client_Reboot_def client_RecoverAbort_def client_GC_def run)
qed

section \<open>Properties and samples\<close>

text \<open>
  The local API only drives the engine: whatever request arrives, the agent is afterwards in a
  reachable state, so every invariant of its executions holds; and a request that is not a \<open>POST\<close>
  leaves the journal, the files and the device alone.
\<close>

theorem api_stays_reachable:
  assumes "reachable A en" "api_Handler A version P busy r en = (rep, en1)"
  shows "reachable A en1 \<and> (hq_Method r \<noteq> ''POST'' \<longrightarrow> en_store en1 = en_store en \<and> en_fs en1 = en_fs en \<and> en_dev en1 = en_dev en)"
proof
  show "reachable A en1" by (rule onward [OF assms(1) api_Handler_steps [OF assms(2)]])
  show "hq_Method r \<noteq> ''POST'' \<longrightarrow> en_store en1 = en_store en \<and> en_fs en1 = en_fs en \<and> en_dev en1 = en_dev en"
    using assms(2) by (auto simp: api_Handler_def only_get_def only_post_def get_metrics_def WriteMetrics_def Now_def Let_def split: if_splits)
qed

text \<open>
  How SQLite reads a string literal after its opening quote: a doubled quote stands for one, a
  single one ends the literal.
\<close>

fun sql_literal :: "string \<Rightarrow> (string \<times> string) option" where
  "sql_literal [] = None"
| "sql_literal (c # cs) =
     (if c \<noteq> CHR 0x27 then map_option (\<lambda>(x, rest). (c # x, rest)) (sql_literal cs)
      else case cs of
        d # ds \<Rightarrow> if d = CHR 0x27 then map_option (\<lambda>(x, rest). (c # x, rest)) (sql_literal ds) else Some ([], cs)
      | [] \<Rightarrow> Some ([], []))"

text \<open>
  A backup path cannot break out of its SQL statement: the statement that \<open>Backup\<close> executes is
  \<open>VACUUM INTO\<close> followed by one string literal that reads back as exactly the path, with nothing after it,
  whatever characters the path has.
\<close>

theorem backup_path_quoted:
  "\<exists>lit. vacuum_stmt dest = ''VACUUM INTO '' @ CHR 0x27 # lit \<and> sql_literal lit = Some (dest, [])"
proof -
  have "sql_literal (ReplaceQuotes dest @ [CHR 0x27]) = Some (dest, [])"
    by (induction dest) auto
  then show ?thesis by (simp add: vacuum_stmt_def)
qed

definition sample_enc :: "api_value \<Rightarrow> bytes" where
  "sample_enc v = (case v of VError m \<Rightarrow> m | _ \<Rightarrow> ''ok'')"

definition sample_api :: api_lib where
  "sample_api = \<lparr>ap_enc = sample_enc, ap_dec_ack = (\<lambda>_. Inl (Err ''dec'')), ap_dec_path = (\<lambda>_. Inl (Err ''dec'')),
     ap_Query = (\<lambda>_. Inr []), ap_enc_rows = (\<lambda>_. Inr []), ap_Exec = (\<lambda>_ f. (None, f)), ap_fmt = sample_fmt\<rparr>"

definition busy_twice :: "nat \<Rightarrow> bool" where
  "busy_twice k \<longleftrightarrow> k < 2"

theorem client_command_runs_once_witness:
  "client_Reboot (api_link sample_agent ''v'' sample_api busy_twice (\<lambda>_. id)) (sample_engine, 0)
    = (Inr (Inl (APIError 409 ''no update awaiting reboot\<newline>'')), (sample_engine, 3))"
proof -
  have i: "meanwhile (\<lambda>_. id) 0 2 sample_engine = sample_engine" by (simp add: numeral_2_eq_2)
  have "current sample_engine = None" by code_simp
  then have h: "RequestReboot sample_agent False (id (meanwhile (\<lambda>_. id) 0 2 sample_engine)) = (Some (Err ''no update awaiting reboot''), sample_engine)"
    by (simp add: RequestReboot_def i)
  have b: "says_busy sample_api ''engine busy''" by (simp add: says_busy_def sample_api_def sample_enc_def starts_with_def)
  have a: "ap_enc sample_api (answer (Some (Err ''no update awaiting reboot''))) = ''no update awaiting reboot''"
    by (simp add: sample_api_def sample_enc_def answer_def)
  have n: "\<not> bytes_Contains (''no update awaiting reboot'' @ [CHR 0x0A]) ''engine busy''" by code_simp
  show ?thesis
    using client_command_runs_once [where command = client_Reboot and h = "RequestReboot sample_agent False" and m = 2 and busy = busy_twice
        and during = "\<lambda>_. id" and en = sample_engine and version = "''v''" and P = sample_api and A = sample_agent
        and eo = "Some (Err ''no update awaiting reboot'')" and ?en1.0 = sample_engine] a n b h
    by (simp add: busy_twice_def)
qed

theorem api_stays_reachable_witness:
  "reachable sample_agent (snd (api_Handler sample_agent ''v'' sample_api False (sample_post []) sample_engine))"
proof -
  obtain rep en1 where h: "api_Handler sample_agent ''v'' sample_api False (sample_post []) sample_engine = (rep, en1)"
    by fastforce
  from api_stays_reachable [OF sample_reachable h] h show ?thesis by simp
qed

end
