(* ===== verification/OTA_Status.thy ===== *)
theory OTA_Status
  imports OTA_Text
begin

text \<open>
  The status page of the operator's tool (\<open>cmd/zyvor-ota/statusview.go\<close> and \<open>formatOTAStatus\<close> in \<open>cmd/zyvor-ota/main.go\<close>): colours, the
  banner, and rows aligned in three columns by their length without colour sequences. Text is bytes, with the symbols of the
  source in UTF-8.
\<close>

section \<open>Colours and summaries\<close>

definition ESC :: char where
  "ESC = CHR 0x1B"

definition ansi :: "string \<Rightarrow> string" where
  "ansi code = ESC # CHR ''['' # code @ ''m''"

definition ansiRed :: string where "ansiRed = ansi ''31''"
definition ansiYellow :: string where "ansiYellow = ansi ''33''"
definition ansiBlue :: string where "ansiBlue = ansi ''34''"
definition ansiGreen :: string where "ansiGreen = ansi ''32''"
definition ansiMagenta :: string where "ansiMagenta = ansi ''35''"
definition ansiCyan :: string where "ansiCyan = ansi ''36''"
definition ansiReset :: string where "ansiReset = ansi ''0''"

lemmas ansi_defs = ansiRed_def ansiYellow_def ansiBlue_def ansiGreen_def ansiMagenta_def ansiCyan_def ansiReset_def ansi_def

record Component =
  cp_Errors :: int
  cp_Warnings :: int
  cp_Disabled :: bool

definition zero_Component :: Component where
  "zero_Component = \<lparr>cp_Errors = 0, cp_Warnings = 0, cp_Disabled = False\<rparr>"

definition summary_parts :: "Component \<Rightarrow> string list" where
  "summary_parts c =
     (if cp_Errors c > 0 then [[CHR 0xE2, CHR 0x9D, CHR 0x8C] @ '' '' @ ansiRed @ FormatInt (cp_Errors c) @ '' errors'' @ ansiReset] else [])
   @ (if cp_Warnings c > 0 then [[CHR 0xE2, CHR 0x9A, CHR 0xA0, CHR 0xEF, CHR 0xB8, CHR 0x8F] @ ''  '' @ ansiYellow
        @ FormatInt (cp_Warnings c) @ '' warnings'' @ ansiReset] else [])
   @ (if cp_Disabled c then [[CHR 0xE2, CHR 0x84, CHR 0xB9, CHR 0xEF, CHR 0xB8, CHR 0x8F] @ ''  '' @ ansiCyan @ ''disabled'' @ ansiReset] else [])"

definition Summary :: "Component \<Rightarrow> string" where
  "Summary c = (if summary_parts c = [] then [CHR 0xE2, CHR 0x9C, CHR 0x85] @ '' '' @ ansiGreen @ ''OK'' @ ansiReset
     else strings_Join (summary_parts c) '', '')"

section \<open>Removing colours, aligning rows\<close>

text \<open>The letters that end a colour sequence.\<close>

definition final_byte :: "char \<Rightarrow> bool" where
  "final_byte c \<longleftrightarrow> \<not> (of_char c < (65 :: nat) \<or> (of_char c > (90 :: nat) \<and> of_char c < (97 :: nat)) \<or> of_char c > (122 :: nat))"

definition opens_escape :: "char \<Rightarrow> string \<Rightarrow> bool" where
  "opens_escape c cs \<longleftrightarrow> c = ESC \<and> cs \<noteq> [] \<and> hd cs = CHR ''[''"

function stripANSI :: "string \<Rightarrow> string" where
  "stripANSI [] = []"
| "stripANSI (c # cs) = (if opens_escape c cs then stripANSI (tl (dropWhile (\<lambda>x. \<not> final_byte x) (tl cs))) else c # stripANSI cs)"
  by pat_completeness auto
termination
proof (relation "measure length")
  fix c :: char and cs assume "opens_escape c cs"
  have "length (dropWhile (\<lambda>x. \<not> final_byte x) (tl cs)) \<le> length (tl cs)" by (rule length_dropWhile_le)
  then show "(tl (dropWhile (\<lambda>x. \<not> final_byte x) (tl cs)), c # cs) \<in> measure length" by simp
qed simp_all

text \<open>A row is an array of three cells.\<close>

type_synonym row = "string list"

definition col_widths :: "row list \<Rightarrow> nat list" where
  "col_widths rows = foldl (\<lambda>w r. map2 max w (map (\<lambda>s. length (stripANSI s)) r)) [0, 0, 0] rows"

definition pad_cell :: "nat \<Rightarrow> string \<Rightarrow> string" where
  "pad_cell w s = (let pad = int w - int (length (stripANSI s)) + 4 in strings_Repeat '' '' (nat (if pad < 4 then 4 else pad)))"

definition row_line :: "nat list \<Rightarrow> row \<Rightarrow> string" where
  "row_line ws r = r ! 0 @ pad_cell (ws ! 0) (r ! 0) @ r ! 1 @ pad_cell (ws ! 1) (r ! 1) @ r ! 2 @ [CHR 0x0A]"

definition alignRows :: "row list \<Rightarrow> string" where
  "alignRows rows = (if rows = [] then [] else concat (map (row_line (col_widths rows)) rows))"

section \<open>The page\<close>

record Feature =
  ft_Name :: string
  ft_State :: Component

definition okFeature :: "string \<Rightarrow> bool \<Rightarrow> Feature" where
  "okFeature name on = \<lparr>ft_Name = name, ft_State = zero_Component\<lparr>cp_Disabled := \<not> on\<rparr>\<rparr>"

text \<open>\<open>Labels\<close> and \<open>Components\<close> are arrays of five.\<close>

record StatusView =
  sv_Labels :: "string list"
  sv_Components :: "Component list"
  sv_Body :: "row list"
  sv_Features :: "Feature list"
  sv_Collection :: "string list"

text \<open>Only the first row of a group carries the header.\<close>

fun headed :: "string \<Rightarrow> (string \<times> string) list \<Rightarrow> row list" where
  "headed header [] = []"
| "headed header ((a, b) # rest) = [header, a, b] # headed [] rest"

definition view_rows :: "StatusView \<Rightarrow> row list" where
  "view_rows v = sv_Body v
     @ headed ([CHR 0xE2, CHR 0x9C, CHR 0xA8] @ '' Features'') (map (\<lambda>f. (ft_Name f, Summary (ft_State f))) (sv_Features v))
     @ headed ([CHR 0xF0, CHR 0x9F, CHR 0x94, CHR 0x8C] @ '' Collection:'') (map (\<lambda>e. ([], e)) (sv_Collection v))"

text \<open>\<open>over\<close> and \<open>under\<close> are the two halves of the logo's hexagons.\<close>

definition over :: string where
  "over = [CHR 0xC2, CHR 0xAF, CHR 0xC2, CHR 0xAF]"

definition labelled :: "StatusView \<Rightarrow> nat \<Rightarrow> string" where
  "labelled v i = ansiReset @ [CHR 0x09] @ sv_Labels v ! i @ '':'' @ [CHR 0x09] @ Summary (sv_Components v ! i) @ [CHR 0x0A]"

definition view_Format :: "StatusView \<Rightarrow> string" where
  "view_Format v =
     ansiYellow @ '' /'' @ over @ [CHR 0x5C, CHR 0x0A]
   @ ansiCyan @ '' /'' @ over @ ansiYellow @ [CHR 0x5C] @ ''__/'' @ ansiGreen @ over @ [CHR 0x5C] @ labelled v 0
   @ ansiCyan @ '' '' @ [CHR 0x5C] @ ''__'' @ ansiRed @ ''/'' @ over @ [CHR 0x5C] @ ansiGreen @ ''__/'' @ labelled v 1
   @ ansiGreen @ '' /'' @ over @ ansiRed @ [CHR 0x5C] @ ''__/'' @ ansiMagenta @ over @ [CHR 0x5C] @ labelled v 2
   @ ansiGreen @ '' '' @ [CHR 0x5C] @ ''__'' @ ansiBlue @ ''/'' @ over @ [CHR 0x5C] @ ansiMagenta @ ''__/'' @ labelled v 3
   @ ansiBlue @ ansiBlue @ ansiBlue @ '' '' @ [CHR 0x5C] @ ''__/'' @ labelled v 4 @ [CHR 0x0A]
   @ alignRows (view_rows v)"

text \<open>
  What \<open>json.Unmarshal\<close> leaves in the local struct of \<open>formatOTAStatus\<close>, also when it fails part of the way; \<open>Active\<close> is the raw text.
\<close>

record status_fields =
  sf_Version :: string
  sf_DeviceID :: string
  sf_Backend :: string
  sf_Active :: bytes
  sf_HighSequence :: u64
  sf_PendingEvents :: int

definition status_labels :: "string list" where
  "status_labels = [''Agent'', ''Backend'', ''Active job'', ''Events'', ''Sequence'']"

definition status_body :: "status_fields \<Rightarrow> row list" where
  "status_body st =
     [[[CHR 0xF0, CHR 0x9F, CHR 0x96, CHR 0xA5, CHR 0xEF, CHR 0xB8, CHR 0x8F] @ ''  Device:'', sf_DeviceID st, []],
      [[CHR 0xF0, CHR 0x9F, CHR 0x93, CHR 0xA6] @ '' Backend:'', sf_Backend st, []],
      [[CHR 0xF0, CHR 0x9F, CHR 0x9A, CHR 0x80] @ '' Version:'', sf_Version st, []],
      [[CHR 0xF0, CHR 0x9F, CHR 0x94, CHR 0x8C] @ '' Pending events:'', FormatInt (sf_PendingEvents st), []],
      [[CHR 0xF0, CHR 0x9F, CHR 0x96, CHR 0xBC, CHR 0xEF, CHR 0xB8, CHR 0x8F] @ ''  Sequence:'', FormatUint (sf_HighSequence st), []]]"

definition status_components :: "status_fields \<Rightarrow> Component list" where
  "status_components st =
     [zero_Component, zero_Component\<lparr>cp_Disabled := (sf_Backend st = [])\<rparr>,
      zero_Component\<lparr>cp_Disabled := (sf_Active st = [] \<or> sf_Active st = ''null'')\<rparr>,
      zero_Component\<lparr>cp_Warnings := (if sf_PendingEvents st > 0 then sf_PendingEvents st else 0)\<rparr>, zero_Component]"

definition status_features :: "status_fields \<Rightarrow> Feature list" where
  "status_features st = map (\<lambda>name. okFeature name (\<not> (name = ''RAUC'' \<and> sf_Backend st \<noteq> [] \<and> sf_Backend st \<noteq> ''rauc'')))
     [''Sign'', ''Submit'', ''Ack'', ''Reboot'', ''Recover'', ''GC'', ''Events'', ''RAUC'']"

definition status_view :: "(bytes \<Rightarrow> status_fields) \<Rightarrow> bytes \<Rightarrow> string \<Rightarrow> StatusView" where
  "status_view dec b collection =
     (if collection \<noteq> [] \<and> b = [] then
        \<lparr>sv_Labels = status_labels, sv_Components = replicate 5 (zero_Component\<lparr>cp_Disabled := True\<rparr>), sv_Body = [], sv_Features = [],
          sv_Collection = [collection]\<rparr>
      else \<lparr>sv_Labels = status_labels, sv_Components = status_components (dec b), sv_Body = status_body (dec b),
          sv_Features = status_features (dec b), sv_Collection = (if collection \<noteq> [] then [collection] else [])\<rparr>)"

definition formatOTAStatus :: "(bytes \<Rightarrow> status_fields) \<Rightarrow> bytes \<Rightarrow> string \<Rightarrow> string" where
  "formatOTAStatus dec b collection = view_Format (status_view dec b collection)"

section \<open>Visible text\<close>

text \<open>Every colour sequence of the text is complete.\<close>

function ansi_closed :: "string \<Rightarrow> bool" where
  "ansi_closed [] = True"
| "ansi_closed (c # cs) =
     (if opens_escape c cs then (let r = dropWhile (\<lambda>x. \<not> final_byte x) (tl cs) in r \<noteq> [] \<and> ansi_closed (tl r)) else ansi_closed cs)"
  by pat_completeness auto
termination
proof (relation "measure length")
  fix c :: char and cs r assume "r = dropWhile (\<lambda>x. \<not> final_byte x) (tl cs)"
  then have "length r \<le> length (tl cs)" using length_dropWhile_le by blast
  then show "(tl r, c # cs) \<in> measure length" by simp
qed simp_all

lemma dropWhile_append_found: "dropWhile P xs \<noteq> [] \<Longrightarrow> dropWhile P (xs @ ys) = dropWhile P xs @ ys"
  by (induction xs) auto

text \<open>
  Visible text is compositional: a complete text followed by anything that does not continue an escape.
\<close>

lemma stripANSI_append:
  "ansi_closed s \<Longrightarrow> t = [] \<or> hd t \<noteq> CHR ''['' \<Longrightarrow> stripANSI (s @ t) = stripANSI s @ stripANSI t"
proof (induction s rule: ansi_closed.induct)
  case (2 c cs)
  let ?r = "dropWhile (\<lambda>x. \<not> final_byte x) (tl cs)"
  show ?case
  proof (cases "opens_escape c cs")
    case True
    then have r: "?r \<noteq> []" "ansi_closed (tl ?r)" "cs \<noteq> []" using 2(3) by (auto simp: Let_def opens_escape_def)
    then have "opens_escape c (cs @ t)" using True by (simp add: opens_escape_def)
    moreover have "tl (dropWhile (\<lambda>x. \<not> final_byte x) (tl (cs @ t))) = tl ?r @ t"
      using r dropWhile_append_found [OF r(1), of t] by simp
    ultimately show ?thesis using 2(1) [OF True refl r(2) 2(4)] True by simp
  next
    case False
    then have "\<not> opens_escape c (cs @ t)" using 2(4) by (cases cs) (auto simp: opens_escape_def)
    then show ?thesis using 2(2) [OF False _ 2(4)] 2(3) False by simp
  qed
qed simp

lemma ansi_closed_append: "ansi_closed s \<Longrightarrow> ansi_closed t \<Longrightarrow> t = [] \<or> hd t \<noteq> CHR ''['' \<Longrightarrow> ansi_closed (s @ t)"
proof (induction s rule: ansi_closed.induct)
  case (2 c cs)
  let ?r = "dropWhile (\<lambda>x. \<not> final_byte x) (tl cs)"
  show ?case
  proof (cases "opens_escape c cs")
    case True
    then have r: "?r \<noteq> []" "ansi_closed (tl ?r)" "cs \<noteq> []" using 2(3) by (auto simp: Let_def opens_escape_def)
    then have "opens_escape c (cs @ t)" using True by (simp add: opens_escape_def)
    moreover have "dropWhile (\<lambda>x. \<not> final_byte x) (tl (cs @ t)) = ?r @ t"
      using r dropWhile_append_found [OF r(1), of t] by simp
    ultimately show ?thesis using 2(1) [OF True refl r(2) 2(4,5)] r(1) by (simp add: Let_def)
  next
    case False
    then have "\<not> opens_escape c (cs @ t)" using 2(5) by (cases cs) (auto simp: opens_escape_def)
    then show ?thesis using 2(2) [OF False _ 2(4,5)] 2(3) False by simp
  qed
qed simp

lemma strip_plain: "ESC \<notin> set s \<Longrightarrow> stripANSI s = s \<and> ansi_closed s"
  by (induction s) (auto simp: opens_escape_def)

lemma strip_plain_append: "ESC \<notin> set s \<Longrightarrow> stripANSI (s @ t) = s @ stripANSI t"
  by (induction s) (auto simp: opens_escape_def)

lemma ansi_strip:
  assumes "\<And>c. c \<in> set code \<Longrightarrow> \<not> final_byte c"
  shows "stripANSI (ansi code @ t) = stripANSI t \<and> (ansi_closed (ansi code @ t) \<longleftrightarrow> ansi_closed t)"
proof -
  have "final_byte CHR ''m''" by (simp add: final_byte_def)
  then have "dropWhile (\<lambda>x. \<not> final_byte x) (code @ ''m'' @ t) = ''m'' @ t" using assms by (induction code) auto
  then show ?thesis by (simp add: ansi_def opens_escape_def Let_def)
qed

lemma colours_strip:
  "c \<in> {ansiRed, ansiYellow, ansiBlue, ansiGreen, ansiMagenta, ansiCyan, ansiReset} \<Longrightarrow>
     stripANSI (c @ t) = stripANSI t \<and> (ansi_closed (c @ t) \<longleftrightarrow> ansi_closed t)"
proof -
  assume "c \<in> {ansiRed, ansiYellow, ansiBlue, ansiGreen, ansiMagenta, ansiCyan, ansiReset}"
  then obtain code where "c = ansi code" "code \<in> {''31'', ''33'', ''34'', ''32'', ''35'', ''36'', ''0''}"
    by (auto simp: ansiRed_def ansiYellow_def ansiBlue_def ansiGreen_def ansiMagenta_def ansiCyan_def ansiReset_def)
  moreover from this(2) have "\<not> final_byte x" if "x \<in> set code" for x using that by (auto simp: final_byte_def)
  ultimately show ?thesis using ansi_strip [of code t] by simp
qed

lemma ansi_closed_plain_append: "ESC \<notin> set s \<Longrightarrow> ansi_closed (s @ t) \<longleftrightarrow> ansi_closed t"
  by (induction s) (auto simp: opens_escape_def)

lemma dec_digits_no_escape: "ESC \<notin> set (dec_digits n)"
proof
  assume "ESC \<in> set (dec_digits n)"
  then have "is_digit ESC" using dec_digits_value [of n] by (auto simp: list_all_iff)
  then show False by (simp add: is_digit_def ESC_def)
qed

lemma numbers_no_escape: "ESC \<notin> set (FormatInt i)" "ESC \<notin> set (FormatUint n)"
  using dec_digits_no_escape by (auto simp: FormatInt_def FormatUint_def ESC_def)

lemma ansi_closed_Join:
  "(\<And>x. x \<in> set xs \<Longrightarrow> ansi_closed x \<and> x \<noteq> [] \<and> hd x \<noteq> CHR ''['') \<Longrightarrow> ansi_closed (strings_Join xs '', '')"
proof (induction xs "'', ''" rule: strings_Join.induct)
  case (3 x y ys)
  have "ansi_closed ('', '' @ strings_Join (y # ys) '', '')"
    using 3 by (subst ansi_closed_plain_append) (auto simp: ESC_def)
  then show ?case using ansi_closed_append [of x] 3(2) [of x] by simp
qed auto

lemma coloured_closed:
  assumes "ESC \<notin> set p" "c \<in> {ansiRed, ansiYellow, ansiBlue, ansiGreen, ansiMagenta, ansiCyan, ansiReset}" "ESC \<notin> set t"
  shows "ansi_closed (p @ c @ t @ ansiReset)"
proof -
  have "ansi_closed (ansiReset @ [])" using colours_strip [of ansiReset "[]"] by simp
  then have "ansi_closed (c @ t @ ansiReset)" using assms(2,3) colours_strip [of c "t @ ansiReset"] by (simp add: ansi_closed_plain_append)
  then show ?thesis using assms(1) by (simp add: ansi_closed_plain_append)
qed

lemma Summary_closed: "ansi_closed (Summary c)"
proof -
  have e: "ansi_closed ([CHR 0xE2, CHR 0x9D, CHR 0x8C, CHR '' ''] @ ansiRed @ (FormatInt (cp_Errors c) @ '' errors'') @ ansiReset)"
    by (rule coloured_closed) (simp_all add: ESC_def numbers_no_escape [unfolded ESC_def])
  have w: "ansi_closed ([CHR 0xE2, CHR 0x9A, CHR 0xA0, CHR 0xEF, CHR 0xB8, CHR 0x8F, CHR '' '', CHR '' ''] @ ansiYellow
      @ (FormatInt (cp_Warnings c) @ '' warnings'') @ ansiReset)"
    by (rule coloured_closed) (simp_all add: ESC_def numbers_no_escape [unfolded ESC_def])
  have d: "ansi_closed ([CHR 0xE2, CHR 0x84, CHR 0xB9, CHR 0xEF, CHR 0xB8, CHR 0x8F, CHR '' '', CHR '' ''] @ ansiCyan @ ''disabled'' @ ansiReset)"
    by (rule coloured_closed) (simp_all add: ESC_def)
  have ok: "ansi_closed ([CHR 0xE2, CHR 0x9C, CHR 0x85, CHR '' ''] @ ansiGreen @ ''OK'' @ ansiReset)"
    by (rule coloured_closed) (simp_all add: ESC_def)
  have "ansi_closed x \<and> x \<noteq> [] \<and> hd x \<noteq> CHR ''[''" if "x \<in> set (summary_parts c)" for x
    using that e w d by (auto simp: summary_parts_def simp del: ansi_closed.simps split: if_splits)
  then have "ansi_closed (strings_Join (summary_parts c) '', '')" by (rule ansi_closed_Join)
  then show ?thesis using ok by (simp add: Summary_def del: ansi_closed.simps)
qed

section \<open>The columns\<close>

text \<open>Text filled up with blanks to a width.\<close>

definition fit :: "nat \<Rightarrow> string \<Rightarrow> string" where
  "fit w s = s @ replicate (w - length s) CHR '' ''"

lemma length_fit: "length s \<le> w \<Longrightarrow> length (fit w s) = w"
  by (simp add: fit_def)

lemma widths_fold:
  assumes "length w = 3" "\<forall>r \<in> set rows. length r = 3"
  defines "f \<equiv> \<lambda>w r. map2 max w (map (\<lambda>s. length (stripANSI s)) r)"
  shows "length (foldl f w rows) = 3 \<and> (\<forall>i < 3. w ! i \<le> foldl f w rows ! i)
    \<and> (\<forall>r \<in> set rows. \<forall>i < 3. length (stripANSI (r ! i)) \<le> foldl f w rows ! i)"
  using assms(1,2)
proof (induction rows arbitrary: w)
  case (Cons r rows)
  let ?w = "f w r"
  have w: "length ?w = 3" "\<forall>i < 3. w ! i \<le> ?w ! i \<and> length (stripANSI (r ! i)) \<le> ?w ! i"
    using Cons.prems by (auto simp: f_def)
  have IH: "length (foldl f ?w rows) = 3" "\<forall>i < 3. ?w ! i \<le> foldl f ?w rows ! i"
    "\<forall>q \<in> set rows. \<forall>i < 3. length (stripANSI (q ! i)) \<le> foldl f ?w rows ! i"
    using Cons.IH [OF w(1)] Cons.prems(2) by auto
  have "w ! i \<le> foldl f ?w rows ! i \<and> length (stripANSI (r ! i)) \<le> foldl f ?w rows ! i" if "i < 3" for i
    using w(2) IH(2) that order_trans by blast
  with IH show ?case by simp
qed simp

lemma col_widths_cover:
  assumes "\<forall>r \<in> set rows. length r = 3" "r \<in> set rows" "i < 3"
  shows "length (stripANSI (r ! i)) \<le> col_widths rows ! i"
  using widths_fold [of "[0, 0, 0]" rows] assms by (simp add: col_widths_def)

lemma pad_cell_blanks: "length (stripANSI s) \<le> w \<Longrightarrow> pad_cell w s = replicate (w + 4 - length (stripANSI s)) CHR '' ''"
proof -
  assume l: "length (stripANSI s) \<le> w"
  have "concat (replicate n '' '') = replicate n CHR '' ''" for n by (induction n) auto
  moreover have "nat (int w - int (length (stripANSI s)) + 4) = w + 4 - length (stripANSI s)" using l by linarith
  ultimately show ?thesis using l by (simp add: pad_cell_def strings_Repeat_def Let_def del: replicate_Suc)
qed

lemma stripANSI_pad:
  assumes "ansi_closed s" "length (stripANSI s) \<le> w"
  shows "stripANSI (s @ pad_cell w s @ t) = fit (w + 4) (stripANSI s) @ stripANSI t"
proof -
  have p: "pad_cell w s = replicate (w + 4 - length (stripANSI s)) CHR '' ''" by (rule pad_cell_blanks [OF assms(2)])
  then have "hd (pad_cell w s @ t) \<noteq> CHR ''[''" using assms(2) by (cases "w + 4 - length (stripANSI s)") auto
  then have "stripANSI (s @ pad_cell w s @ t) = stripANSI s @ stripANSI (pad_cell w s @ t)" using assms(1) by (simp add: stripANSI_append)
  also have "stripANSI (pad_cell w s @ t) = pad_cell w s @ stripANSI t" by (rule strip_plain_append) (simp add: p ESC_def)
  finally show ?thesis by (simp add: fit_def p)
qed

lemma row_line_columns:
  assumes "\<forall>r \<in> set rows. length r = 3" "r \<in> set rows" "list_all ansi_closed r"
  shows "stripANSI (row_line (col_widths rows) r)
    = fit (col_widths rows ! 0 + 4) (stripANSI (r ! 0)) @ fit (col_widths rows ! 1 + 4) (stripANSI (r ! 1)) @ stripANSI (r ! 2) @ [CHR 0x0A]"
proof -
  have c: "ansi_closed (r ! i)" if "i < 3" for i using assms that by (simp add: list_all_length)
  have "stripANSI (r ! 2 @ [CHR 0x0A]) = stripANSI (r ! 2) @ [CHR 0x0A]"
    using stripANSI_append [OF c [of 2], of "[CHR 0x0A]"] by (simp add: opens_escape_def ESC_def)
  then show ?thesis
    using stripANSI_pad [OF c [of 0] col_widths_cover [OF assms(1,2), of 0]] stripANSI_pad [OF c [of 1] col_widths_cover [OF assms(1,2), of 1]]
    by (simp add: row_line_def)
qed

lemma headed_rows:
  assumes "ESC \<notin> set header" "\<forall>(a, b) \<in> set xs. ansi_closed a \<and> ansi_closed b"
  shows "\<forall>r \<in> set (headed header xs). length r = 3 \<and> list_all ansi_closed r"
  using assms by (induction header xs rule: headed.induct) (auto simp: strip_plain)

lemma status_rows_closed:
  assumes "\<forall>s \<in> {sf_DeviceID (dec b), sf_Backend (dec b), sf_Version (dec b), collection}. ESC \<notin> set s"
  shows "\<forall>r \<in> set (view_rows (status_view dec b collection)). length r = 3 \<and> list_all ansi_closed r"
proof -
  let ?v = "status_view dec b collection"
  have "\<forall>r \<in> set (sv_Body ?v). length r = 3 \<and> list_all ansi_closed r"
    using assms strip_plain numbers_no_escape
    by (auto simp: status_view_def status_body_def ESC_def opens_escape_def)
  moreover have "\<forall>r \<in> set (headed ([CHR 0xE2, CHR 0x9C, CHR 0xA8] @ '' Features'') (map (\<lambda>f. (ft_Name f, Summary (ft_State f))) (sv_Features ?v))).
      length r = 3 \<and> list_all ansi_closed r"
    by (rule headed_rows) (auto simp: ESC_def Summary_closed status_view_def status_features_def okFeature_def opens_escape_def)
  moreover have "\<forall>r \<in> set (headed ([CHR 0xF0, CHR 0x9F, CHR 0x94, CHR 0x8C] @ '' Collection:'') (map (\<lambda>e. ([], e)) (sv_Collection ?v))).
      length r = 3 \<and> list_all ansi_closed r"
    by (rule headed_rows) (use assms strip_plain in \<open>auto simp: ESC_def status_view_def\<close>)
  ultimately show ?thesis unfolding view_rows_def by auto
qed

text \<open>
  The status page is a table: below the banner every row shows, once its colours are taken away, its first cell filled up to one
  common width, its second to another, and then its third, so that the bytes of a column start at the same offset in every row;
  provided the agent's reply and the error text hold no escape characters of their own.
\<close>

theorem status_page_aligned:
  assumes "\<forall>s \<in> {sf_DeviceID (dec b), sf_Backend (dec b), sf_Version (dec b), collection}. ESC \<notin> set s"
  shows "\<exists>banner line w0 w1. formatOTAStatus dec b collection = banner @ concat (map line (view_rows (status_view dec b collection)))
    \<and> (\<forall>r \<in> set (view_rows (status_view dec b collection)).
         stripANSI (line r) = fit w0 (stripANSI (r ! 0)) @ fit w1 (stripANSI (r ! 1)) @ stripANSI (r ! 2) @ [CHR 0x0A]
         \<and> length (fit w0 (stripANSI (r ! 0))) = w0 \<and> length (fit w1 (stripANSI (r ! 1))) = w1)"
proof -
  let ?rows = "view_rows (status_view dec b collection)"
  let ?w = "\<lambda>i. col_widths ?rows ! i + 4"
  have "\<exists>banner. formatOTAStatus dec b collection = banner @ alignRows ?rows"
    unfolding formatOTAStatus_def view_Format_def by (simp only: append_assoc [symmetric]) blast
  moreover have "alignRows ?rows = concat (map (row_line (col_widths ?rows)) ?rows)" by (simp add: alignRows_def)
  moreover have "stripANSI (row_line (col_widths ?rows) r) = fit (?w 0) (stripANSI (r ! 0)) @ fit (?w 1) (stripANSI (r ! 1)) @ stripANSI (r ! 2) @ [CHR 0x0A]
      \<and> length (fit (?w 0) (stripANSI (r ! 0))) = ?w 0 \<and> length (fit (?w 1) (stripANSI (r ! 1))) = ?w 1" if "r \<in> set ?rows" for r
    using row_line_columns [OF _ that] status_rows_closed [of dec b collection, OF assms] that col_widths_cover [OF _ that, of 0] col_widths_cover [OF _ that, of 1]
    by (simp add: length_fit)
  ultimately show ?thesis by metis
qed

definition sample_status :: status_fields where
  "sample_status = \<lparr>sf_Version = ''1.2'', sf_DeviceID = ''device-1'', sf_Backend = ''simulator'', sf_Active = ''null'', sf_HighSequence = 7, sf_PendingEvents = 3\<rparr>"

theorem status_page_aligned_witness:
  "length (view_rows (status_view (\<lambda>_. sample_status) ''{}'' [])) = 13
   \<and> (\<exists>banner line w0 w1. formatOTAStatus (\<lambda>_. sample_status) ''{}'' [] = banner @ concat (map line (view_rows (status_view (\<lambda>_. sample_status) ''{}'' [])))
      \<and> (\<forall>r \<in> set (view_rows (status_view (\<lambda>_. sample_status) ''{}'' [])).
           stripANSI (line r) = fit w0 (stripANSI (r ! 0)) @ fit w1 (stripANSI (r ! 1)) @ stripANSI (r ! 2) @ [CHR 0x0A]))"
proof -
  have n: "length (view_rows (status_view (\<lambda>_. sample_status) ''{}'' [])) = 13"
    by (simp add: view_rows_def status_view_def status_body_def status_features_def)
  have "\<forall>s \<in> {sf_DeviceID sample_status, sf_Backend sample_status, sf_Version sample_status, []}. ESC \<notin> set s"
    by (simp add: sample_status_def ESC_def)
  from status_page_aligned [of "\<lambda>_. sample_status" "''{}''" "[]", OF this] n show ?thesis by meson
qed

text \<open>
  The offsets are in bytes. Counted in code points the second column of the page is not straight: the symbols of the first two rows take
  a different number of bytes.
\<close>

definition code_points :: "string \<Rightarrow> nat" where
  "code_points s = length (filter (\<lambda>c. of_char c div (64 :: nat) \<noteq> 2) s)"

lemma status_columns_bent:
  "let rows = view_rows (status_view (\<lambda>_. sample_status) ''{}'' []); w0 = col_widths rows ! 0 + 4
   in code_points (fit w0 (rows ! 0 ! 0)) \<noteq> code_points (fit w0 (rows ! 1 ! 0))"
  by code_simp

end
