(* ===== verification/OTA_Cli.thy ===== *)
theory OTA_Cli
  imports OTA_Campaign OTA_Api OTA_Status
begin

text \<open>
  The command-line tool (\<open>cmd/zyvor-ota/main.go\<close>): making keys, signing releases, exporting and
  importing campaigns, and the requests of the commands that ask the agent. File arguments are taken
  relative to the root directory. The status page is in \<open>OTA_Status\<close>.
\<close>

section \<open>Numbers on the command line\<close>

definition ackBody :: "string \<Rightarrow> bytes result" where
  "ackBody arg = (case ParseUint arg of
       None \<Rightarrow> Inl (Err ''ack SEQUENCE must be an unsigned integer'')
     | Some seq \<Rightarrow> Inr ([CHR ''{'', CHR 0x22] @ ''sequence'' @ [CHR 0x22, CHR '':''] @ FormatUint seq @ [CHR ''}'']))"

section \<open>Commands that work on files\<close>

text \<open>
  \<open>gen\<close> is the pair that \<open>ed25519.GenerateKey\<close> returns (public key first), \<open>enc64\<close> the base64 encoder, \<open>indent\<close>
  the indented JSON encoder of envelopes or assignments.
\<close>

definition os_Mkdir :: "path \<Rightarrow> fs \<Rightarrow> error option \<times> fs" where
  "os_Mkdir p f = (case fault f (IoMkdir p) of Some e \<Rightarrow> (Some e, f)
     | None \<Rightarrow> if node_at f p \<noteq> None then (Some (Err ''file exists''), f)
         else if \<not> parent_ok f p then (Some ErrNotExist, f)
         else (None, put_node p Directory f))"

definition cli_keygen :: "(bytes \<times> bytes) result \<Rightarrow> (bytes \<Rightarrow> string) \<Rightarrow> string list \<Rightarrow> fs \<Rightarrow> error option \<times> fs" where
  "cli_keygen gen enc64 a f = (case a of
       [_, dir] \<Rightarrow> (case os_Mkdir (abs_path dir) f of (Some e, f1) \<Rightarrow> (Some e, f1)
         | (None, f1) \<Rightarrow> (case gen of Inl e \<Rightarrow> (Some e, f1)
           | Inr (pub, priv) \<Rightarrow> (case AtomicWrite (Join (abs_path dir) ''release.key'') (enc64 priv @ [CHR 0x0A]) f1 of
               (Some e, f2) \<Rightarrow> (Some e, f2)
             | (None, f2) \<Rightarrow> AtomicWrite (Join (abs_path dir) ''release.pub'') (enc64 pub @ [CHR 0x0A]) f2)))
     | _ \<Rightarrow> (Some (Err ''keygen DIR''), f))"

definition cli_sign :: "lib \<Rightarrow> (Envelope \<Rightarrow> bytes result) \<Rightarrow> string list \<Rightarrow> fs \<Rightarrow> error option \<times> fs" where
  "cli_sign L indent a f = (case a of
       [_, rel_file, key_file, keyID, out] \<Rightarrow>
         (case os_ReadFile f (abs_path rel_file) of Inl e \<Rightarrow> (Some e, f)
          | Inr b \<Rightarrow> (case StrictJSON (lib_dec_Release L) b of Inl e \<Rightarrow> (Some e, f)
          | Inr release \<Rightarrow> (case os_ReadFile f (abs_path key_file) of Inl e \<Rightarrow> (Some e, f)
          | Inr kb \<Rightarrow> (case lib_base64 L (TrimSpace kb) of None \<Rightarrow> (Some (Err ''illegal base64 data''), f)
          | Some key \<Rightarrow> (case SignRelease L release keyID key of Inl e \<Rightarrow> (Some e, f)
          | Inr env \<Rightarrow> (case indent env of Inl e \<Rightarrow> (Some e, f)
          | Inr eb \<Rightarrow> AtomicWrite (abs_path out) eb f))))))
     | _ \<Rightarrow> (Some (Err ''sign RELEASE_JSON PRIVATE_KEY KEY_ID OUTPUT_JSON''), f))"

definition cli_campaign_export :: "lib \<Rightarrow> (Assignment \<Rightarrow> bytes result) \<Rightarrow> string list \<Rightarrow> fs \<Rightarrow> error option \<times> fs" where
  "cli_campaign_export L indent a f = (case a of
       [_, asg_file, artifactDir, outDir] \<Rightarrow>
         (case os_ReadFile f (abs_path asg_file) of Inl e \<Rightarrow> (Some e, f)
          | Inr b \<Rightarrow> (case StrictJSON (lib_dec_Assignment L) b of Inl e \<Rightarrow> (Some e, f)
            | Inr asg \<Rightarrow> ExportCampaign L indent outDir asg artifactDir f))
     | _ \<Rightarrow> (Some (Err ''campaign-export ASSIGNMENT_JSON ARTIFACT_DIR OUT_DIR''), f))"

definition cli_campaign_import :: "lib \<Rightarrow> string list \<Rightarrow> fs \<Rightarrow> error option \<times> fs" where
  "cli_campaign_import L a f = (case a of
       [_, campaignDir, mediaDir] \<Rightarrow>
         (case ImportCampaign L campaignDir f of Inl e \<Rightarrow> (Some e, f)
          | Inr asg \<Rightarrow> InstallCampaign L mediaDir campaignDir asg f)
     | _ \<Rightarrow> (Some (Err ''campaign-import CAMPAIGN_DIR MEDIA_DIR''), f))"

section \<open>Commands that ask the agent\<close>

text \<open>The request of a command: method, path and body.\<close>

definition cli_request :: "(string \<Rightarrow> bytes result) \<Rightarrow> string list \<Rightarrow> fs \<Rightarrow> (string \<times> string \<times> bytes) result" where
  "cli_request enc_path a f = (case a of
       [] \<Rightarrow> Inl (Err ''unknown command'')
     | c # args \<Rightarrow>
         if c = ''status'' then Inr (''GET'', ''/v1/status'', [])
         else if c = ''events'' then Inr (''GET'', ''/v1/events'', [])
         else if c = ''job'' then
           (if length a \<noteq> 2 \<or> list_ex (\<lambda>x. x \<in> set ''/?#'') (args ! 0) then Inl (Err ''job ID'')
            else Inr (''GET'', ''/v1/jobs/'' @ args ! 0, []))
         else if c = ''submit'' then
           (if length a \<noteq> 2 then Inl (Err ''submit ASSIGNMENT_JSON'')
            else case os_ReadFile f (abs_path (args ! 0)) of Inl e \<Rightarrow> Inl e | Inr b \<Rightarrow> Inr (''POST'', ''/v1/assignments'', b))
         else if c = ''ack'' then
           (if length a \<noteq> 2 then Inl (Err ''ack SEQUENCE'')
            else case ackBody (args ! 0) of Inl e \<Rightarrow> Inl e | Inr b \<Rightarrow> Inr (''POST'', ''/v1/events/ack'', b))
         else if c = ''reboot'' \<or> c = ''recover-abort'' \<or> c = ''gc'' then Inr (''POST'', ''/v1/'' @ c, [])
         else if c = ''backup'' then
           (if length a \<noteq> 2 \<or> \<not> IsAbs (args ! 0) then Inl (Err ''backup DEST must be an absolute path'')
            else case enc_path (args ! 0) of Inl e \<Rightarrow> Inl e | Inr b \<Rightarrow> Inr (''POST'', ''/v1/backup'', b))
         else if c = ''archive'' then Inr (''GET'', ''/v1/archive'', [])
         else Inl (Err ''unknown command''))"

text \<open>
  The exchange with the agent: up to 25 attempts while the engine is busy. \<open>NoReply\<close> is a failed \<open>Do\<close>, \<open>Unread\<close> a body
  that could not be read.
\<close>

datatype cli_outcome = NoReply error | Unread error | Answered int bytes

fun cli_attempts :: "'s client_transport \<Rightarrow> http_request \<Rightarrow> nat \<Rightarrow> 's \<Rightarrow> cli_outcome \<times> 's" where
  "cli_attempts T r 0 w = (NoReply (Err ''no attempt''), w)"
| "cli_attempts T r (Suc n) w = (case T r w of
      (None, w1) \<Rightarrow> (NoReply (Err ''request failed''), w1)
    | (Some (status, body, broken), w1) \<Rightarrow> (case ReadAll_limit 8388608 body broken of
        Inl e \<Rightarrow> (Unread e, w1)
      | Inr b \<Rightarrow> if status = 409 \<and> bytes_Contains b ''engine busy'' \<and> n > 0 then cli_attempts T r n w1
                else (Answered status b, w1)))"

definition simulation_url_ok :: "url_parser \<Rightarrow> string \<Rightarrow> bool" where
  "simulation_url_ok parse u = (case parse u of None \<Rightarrow> False
     | Some v \<Rightarrow> url_Scheme v = ''http'' \<and> url_Hostname v = ''127.0.0.1'' \<and> \<not> url_HasUser v \<and> url_Path v = []
         \<and> url_RawQuery v = [] \<and> url_Fragment v = [])"

text \<open>The status page is printed unless JSON is asked for.\<close>

definition wants_page :: "string list \<Rightarrow> bool" where
  "wants_page a \<longleftrightarrow> a ! 0 = ''status'' \<and> (length a < 2 \<or> a ! 1 \<noteq> ''json'')"

definition agent_HTTP :: "int \<Rightarrow> string" where
  "agent_HTTP status = ''agent HTTP '' @ FormatInt status"

definition cli_show :: "(bytes \<Rightarrow> status_fields) \<Rightarrow> string list \<Rightarrow> cli_outcome \<Rightarrow> error option \<times> string" where
  "cli_show dec a out = (case out of
       NoReply e \<Rightarrow> (Some e, if wants_page a then formatOTAStatus dec [] (err_text e) else [])
     | Unread e \<Rightarrow> (Some e, [])
     | Answered status b \<Rightarrow>
         (if status \<ge> 300 then Some (Err (agent_HTTP status)) else None,
          if wants_page a then formatOTAStatus dec b (if status \<ge> 300 then agent_HTTP status else []) else b @ [CHR 0x0A]))"

text \<open>
  The whole of \<open>run\<close> after the flags are parsed. \<open>cli_env\<close> holds key generation, encoders, decoders, the URL parser and the
  version; \<open>T base\<close> is the client for an address, \<open>http://unix\<close> standing for the socket. The result is the error, what was printed, the files and the agent's side.
\<close>

record cli_env =
  ce_lib :: lib
  ce_version :: string
  ce_GenerateKey :: "(bytes \<times> bytes) result"
  ce_enc64 :: "bytes \<Rightarrow> string"
  ce_indent_env :: "Envelope \<Rightarrow> bytes result"
  ce_indent_asg :: "Assignment \<Rightarrow> bytes result"
  ce_enc_path :: "string \<Rightarrow> bytes result"
  ce_parse :: url_parser
  ce_dec_status :: "bytes \<Rightarrow> status_fields"

definition cli_ask ::
  "cli_env \<Rightarrow> (string \<Rightarrow> 's client_transport) \<Rightarrow> string \<Rightarrow> string list \<Rightarrow> fs \<Rightarrow> 's \<Rightarrow> (error option \<times> string) \<times> 's" where
  "cli_ask V T simulationURL a f w =
     (case cli_request (ce_enc_path V) a f of Inl e \<Rightarrow> ((Some e, []), w)
      | Inr (method, p, body) \<Rightarrow>
          if simulationURL \<noteq> [] \<and> \<not> simulation_url_ok (ce_parse V) simulationURL
          then ((Some (Err ''simulation-url must be http://127.0.0.1:PORT''), []), w)
          else (let base = (if simulationURL \<noteq> [] then simulationURL else ''http://unix'') in
            if ce_parse V (base @ p) = None then ((Some (Err ''parse URL''), []), w)
            else (case cli_attempts (T base) \<lparr>hq_Method = method, hq_Path = p, hq_Authorization = [], hq_Body = body, hq_Broken = False\<rparr> 25 w of
                (out, w1) \<Rightarrow> (cli_show (ce_dec_status V) a out, w1))))"

definition usage :: string where
  "usage = ''usage: otactl [-socket PATH] version|keygen DIR|sign RELEASE KEY KEY_ID OUT|campaign-export ASSIGNMENT ARTIFACT_DIR OUT_DIR|campaign-import CAMPAIGN_DIR MEDIA_DIR|status [json]|job ID|submit ASSIGNMENT|events|ack SEQUENCE|reboot|recover-abort|gc|backup DEST|archive  (zyvor-ota is the same binary)''"

definition cli_run ::
  "cli_env \<Rightarrow> (string \<Rightarrow> 's client_transport) \<Rightarrow> string \<Rightarrow> string list \<Rightarrow> fs \<Rightarrow> 's \<Rightarrow> (error option \<times> string) \<times> fs \<times> 's" where
  "cli_run V T simulationURL a f w = (case a of
       [] \<Rightarrow> ((Some (Err usage), []), f, w)
     | c # _ \<Rightarrow>
         if c = ''version'' then ((None, ce_version V @ [CHR 0x0A]), f, w)
         else if c = ''keygen'' then (case cli_keygen (ce_GenerateKey V) (ce_enc64 V) a f of (eo, f1) \<Rightarrow> ((eo, []), f1, w))
         else if c = ''sign'' then (case cli_sign (ce_lib V) (ce_indent_env V) a f of (eo, f1) \<Rightarrow> ((eo, []), f1, w))
         else if c = ''campaign-export'' then (case cli_campaign_export (ce_lib V) (ce_indent_asg V) a f of (eo, f1) \<Rightarrow> ((eo, []), f1, w))
         else if c = ''campaign-import'' then (case cli_campaign_import (ce_lib V) a f of
             (Some e, f1) \<Rightarrow> ((Some e, []), f1, w)
           | (None, f1) \<Rightarrow> ((None, path_text (Join (abs_path (a ! 1)) ''assignment.json'') @ [CHR 0x0A]), f1, w))
         else (case cli_ask V T simulationURL a f w of (res, w1) \<Rightarrow> (res, f, w1)))"

text \<open>A \<open>job\<close> command reaches the handler for that job: the identifier cannot name another route.\<close>

lemma cli_job_route:
  assumes "cli_request enc_path [''job'', i] f = Inr (method, p, body)"
  shows "method = ''GET'' \<and> split_slash p = [[], ''v1'', ''jobs'', i]"
proof -
  have "CHR ''/'' \<notin> set i" "method = ''GET''" "p = ''/v1/jobs/'' @ i"
    using assms by (auto simp: cli_request_def list_ex_iff split: if_splits)
  then show ?thesis using split_slash_plain [of i] by simp
qed

section \<open>From the shell to the engine\<close>

lemma split_ack: "split_slash ''/v1/events/ack'' = [[], ''v1'', ''events'', ''ack'']"
  by simp

lemma ack_handled:
  assumes "ParseUint arg = Some n" "ackBody arg = Inr body" "StrictJSON (ap_dec_ack P) body = Inr n" "length body \<le> 262144" "Ack A n en = (eo, en1)"
  shows "api_Handler A version P busy \<lparr>hq_Method = ''POST'', hq_Path = ''/v1/events/ack'', hq_Authorization = [], hq_Body = body, hq_Broken = False\<rparr> en
    = (apiAction P eo, en1)"
  using assms(3-5) split_ack by (simp add: api_Handler_def only_post_def post_ack_def decodeRequest_def)

lemma ackBody_length:
  assumes "ackBody arg = Inr body"
  shows "length body \<le> 262144"
proof -
  obtain n where "body = [CHR ''{'', CHR 0x22] @ ''sequence'' @ [CHR 0x22, CHR '':''] @ FormatUint n @ [CHR ''}'']"
    using assms by (auto simp: ackBody_def split: option.splits)
  with FormatUint_length [of n] show ?thesis by simp
qed

lemma cli_busy_attempts:
  assumes "hq_Method r = ''POST''" "hq_Path r \<in> {''/v1/reboot'', ''/v1/recover-abort'', ''/v1/gc''}" "says_busy P ''engine busy''"
  shows "(\<And>i. i < m \<Longrightarrow> busy (k + i)) \<Longrightarrow> m < n \<Longrightarrow> cli_attempts (api_link A version P busy during) r n (en, k)
    = cli_attempts (api_link A version P busy during) r (n - m) (meanwhile during k m en, k + m)"
proof (induction m arbitrary: k n en)
  case (Suc m)
  obtain n1 where n: "n = Suc n1" "n1 > 0" "m < n1" using Suc.prems(2) by (cases n) auto
  have "busy k" using Suc.prems(1) [of 0] by simp
  then have step: "cli_attempts (api_link A version P busy during) r n (en, k) = cli_attempts (api_link A version P busy during) r n1 (during k en, Suc k)"
    using n assms(3) by (simp add: busy_reply [OF assms(1,2)] api_link_def JSONResponse_def says_busy_def ReadAll_limit_def)
  have "busy (Suc k + i)" if "i < m" for i using Suc.prems(1) [of "Suc i"] that by simp
  from Suc.IH [OF this n(3)] step n show ?case by simp
qed simp

lemma cli_free_attempt:
  assumes "api_Handler A version P (busy k) r (during k en) = (apiAction P eo, en1)" "length (ap_enc P (answer eo)) < 1000000" "n > 0"
    and "eo \<noteq> None \<Longrightarrow> \<not> bytes_Contains (ap_enc P (answer eo) @ [CHR 0x0A]) ''engine busy''"
  shows "cli_attempts (api_link A version P busy during) r n (en, k)
    = (Answered (if eo = None then 200 else 409) (ap_enc P (answer eo) @ [CHR 0x0A]), (en1, Suc k))"
  using assms by (cases n; cases eo) (auto simp: api_link_def apiAction_def JSONResponse_def ReadAll_limit_def answer_def)

lemma cli_action_attempts:
  assumes "(p, h) \<in> {(''/v1/reboot'', RequestReboot A False), (''/v1/recover-abort'', RecoverAbort A False), (''/v1/gc'', GC A False)}"
    and "m < 25" "\<And>i. i < m \<Longrightarrow> busy i" "\<not> busy m" "says_busy P ''engine busy''"
    and "h (during m (meanwhile during 0 m en)) = (eo, en1)" "length (ap_enc P (answer eo)) < 1000000"
    and "eo \<noteq> None \<Longrightarrow> \<not> bytes_Contains (ap_enc P (answer eo) @ [CHR 0x0A]) ''engine busy''"
  shows "cli_attempts (api_link A version P busy during) \<lparr>hq_Method = ''POST'', hq_Path = p, hq_Authorization = [], hq_Body = [], hq_Broken = False\<rparr> 25 (en, 0)
    = (Answered (if eo = None then 200 else 409) (ap_enc P (answer eo) @ [CHR 0x0A]), (en1, Suc m))"
proof -
  let ?r = "\<lparr>hq_Method = ''POST'', hq_Path = p, hq_Authorization = [], hq_Body = [], hq_Broken = False\<rparr>"
  have "cli_attempts (api_link A version P busy during) ?r 25 (en, 0) = cli_attempts (api_link A version P busy during) ?r (25 - m) (meanwhile during 0 m en, 0 + m)"
    by (rule cli_busy_attempts) (use assms in auto)
  moreover have "api_Handler A version P (busy m) ?r (during m (meanwhile during 0 m en)) = (apiAction P eo, en1)"
    using free_reply [of ?r h A _ eo en1] assms(1,4,6) by simp
  note cli_free_attempt [where busy = busy and n = "25 - m" and during = during and en = "meanwhile during 0 m en" and k = m, OF this assms(7) _ assms(8)]
  ultimately show ?thesis using assms(2) by simp
qed

lemma cli_ask_action:
  assumes "cli_request (ce_enc_path V) a f = Inr (''POST'', p, body)" "ce_parse V (''http://unix'' @ p) \<noteq> None" "\<not> wants_page a"
    and "cli_attempts (api_link A version P busy during) \<lparr>hq_Method = ''POST'', hq_Path = p, hq_Authorization = [], hq_Body = body, hq_Broken = False\<rparr> 25 (en, 0)
      = (Answered (if eo = None then 200 else 409) reply, w1)"
  shows "cli_ask V (\<lambda>_. api_link A version P busy during) [] a f (en, 0)
    = ((map_option (\<lambda>_. Err ''agent HTTP 409'') eo, reply @ [CHR 0x0A]), w1)"
proof -
  have "agent_HTTP 409 = ''agent HTTP 409''" by code_simp
  then show ?thesis using assms by (cases eo) (auto simp: cli_ask_def cli_show_def Let_def)
qed


definition sample_cli_parse :: url_parser where
  "sample_cli_parse u = Some \<lparr>url_Scheme = ''http'', url_HasUser = False, url_Host = ''unix'', url_Hostname = ''unix'', url_Path = [],
     url_RawQuery = [], url_Fragment = []\<rparr>"

definition sample_cli :: cli_env where
  "sample_cli = \<lparr>ce_lib = sample_lib, ce_version = ''1.2'', ce_GenerateKey = Inl (Err ''entropy''), ce_enc64 = (\<lambda>b. b),
     ce_indent_env = (\<lambda>_. Inl (Err ''encode'')), ce_indent_asg = (\<lambda>_. Inl (Err ''encode'')), ce_enc_path = (\<lambda>p. Inr p),
     ce_parse = sample_cli_parse, ce_dec_status = (\<lambda>_. sample_status)\<rparr>"

definition sample_ack_api :: api_lib where
  "sample_ack_api = sample_api\<lparr>ap_dec_ack := (\<lambda>b. Inr (7, []))\<rparr>"


section \<open>What signing produces\<close>

text \<open>
  C19. What the \<open>sign\<close> command writes, devices accept: for a key file that holds the private key of a
  pinned public key, a signature scheme that verifies its own signatures and decoders that invert the
  encoders, the output file holds an envelope that a device with the key pinned verifies as the
  release of the input file (with the artifact of the OS target filled in) if and only if that release meets the contract.
\<close>

theorem signed_file_verifies:
  assumes "cli_sign L indent [cmd, rel_file, key_file, i, out] f = (None, f1)"
    and input: "os_ReadFile f (abs_path rel_file) = Inr rb" "StrictJSON (lib_dec_Release L) rb = Inr r"
      "os_ReadFile f (abs_path key_file) = Inr kb" "lib_base64 L (TrimSpace kb) = Some priv"
    and key: "map_of (cfg_TrustKeys c) i = Some encoded" "lib_base64 L encoded = Some pub" "length pub = 32"
    and scheme: "\<And>b. lib_ed25519_verify L pub b (lib_ed25519_sign L priv b)"
    and codec: "lib_enc_Release L r = Inr b" "lib_dec_Release L b = Inr (r, [])" "length b \<le> 65536"
      "\<And>env eb. indent env = Inr eb \<Longrightarrow> dec_env eb = Inr (env, [])"
  shows "\<exists>eb env. node_at f1 (abs_path out) = Some (RegFile eb) \<and> StrictJSON dec_env eb = Inr env
    \<and> (VerifyEnvelope L env c now = Inr (effective_release r) \<longleftrightarrow> release_ok c now r)"
proof -
  obtain env eb where s: "SignRelease L r i priv = Inr env" "indent env = Inr eb" "AtomicWrite (abs_path out) eb f = (None, f1)"
    using assms(1) input by (auto simp: cli_sign_def split: sum.splits)
  have "abs_path out \<noteq> []" using s(3) by (auto simp: AtomicWrite_def split: if_splits option.splits)
  then have "node_at f1 (abs_path out) = Some (RegFile eb)"
    using AtomicWrite_ok [of "abs_path out" eb f] s(3) by (simp add: node_at_put)
  moreover have "StrictJSON dec_env eb = Inr env" using codec(4) [OF s(2)] by (simp add: StrictJSON_def)
  ultimately show ?thesis using SignRelease_roundtrip [OF key scheme codec(1-3) s(1)] by blast
qed

definition sample_indent_env :: "Envelope \<Rightarrow> bytes result" where
  "sample_indent_env env = (if env = sample_envelope then Inr ''env'' else Inl (Err ''encode''))"

definition sample_dec_env :: "Envelope decoder" where
  "sample_dec_env b = Inr (sample_envelope, [])"

definition sample_sign_lib :: lib where
  "sample_sign_lib = sample_lib\<lparr>lib_base64 := (\<lambda>s. if s = ''priv'' then Some (replicate 64 CHR 0x01) else lib_base64 sample_lib s)\<rparr>"

definition sample_sign_fs :: fs where
  "sample_sign_fs = sample_empty_fs\<lparr>fs_nodes := [([''r''], RegFile ''1''), ([''k''], RegFile ''priv'')]\<rparr>"

theorem signed_file_verifies_witness:
  "\<exists>f1 eb env. cli_sign sample_sign_lib sample_indent_env [''sign'', ''/r'', ''/k'', ''key'', ''/o''] sample_sign_fs = (None, f1)
     \<and> node_at f1 [''o''] = Some (RegFile eb) \<and> StrictJSON sample_dec_env eb = Inr env
     \<and> (VerifyEnvelope sample_sign_lib env sample_config 5 = Inr (effective_release sample_release1) \<longleftrightarrow> release_ok sample_config 5 sample_release1)"
proof -
  let ?s = "cli_sign sample_sign_lib sample_indent_env [''sign'', ''/r'', ''/k'', ''key'', ''/o''] sample_sign_fs"
  have "fst ?s = None" by code_simp
  then have s: "?s = (None, snd ?s)" by (metis prod.collapse)
  have paths: "abs_path ''/r'' = [''r'']" "abs_path ''/k'' = [''k'']" "abs_path ''/o'' = [''o'']" by code_simp+
  have reads: "os_ReadFile sample_sign_fs (abs_path ''/r'') = Inr ''1''" "os_ReadFile sample_sign_fs (abs_path ''/k'') = Inr ''priv''" by code_simp+
  have trim: "TrimSpace ''priv'' = ''priv''" by code_simp
  have "\<exists>eb env. node_at (snd ?s) (abs_path ''/o'') = Some (RegFile eb) \<and> StrictJSON sample_dec_env eb = Inr env
      \<and> (VerifyEnvelope sample_sign_lib env sample_config 5 = Inr (effective_release sample_release1) \<longleftrightarrow> release_ok sample_config 5 sample_release1)"
    by (rule signed_file_verifies [OF s reads(1) _ reads(2), where encoded = "''pub''" and b = "''1''"
          and pub = "replicate 32 CHR 0x01" and priv = "replicate 64 CHR 0x01"])
      (simp_all add: trim sample_sign_lib_def sample_defs StrictJSON_def sample_indent_env_def sample_dec_env_def split: if_splits)
  with s paths show ?thesis by auto
qed

end
