(* ===== verification/OTA_Relay.thy ===== *)
theory OTA_Relay
  imports OTA_Download "HOL-Library.Char_ord"
begin

text \<open>
  The artifact relay (\<open>internal/relay/relay.go\<close>): a directory of artifacts named by their digest,
  filled from an upstream function or from an allowed origin, and served to clients with a token.
\<close>

section \<open>The code\<close>

text \<open>
  A stream delivers its bytes and may then break off. \<open>sv_Upstream\<close> is the optional upstream
  function; \<open>sv_Parse\<close>, \<open>sv_EqualFold\<close> and \<open>sv_Get\<close> are \<open>url.Parse\<close>, \<open>strings.EqualFold\<close> and one HTTP request
  without redirects (\<open>None\<close> when it fails).
\<close>

type_synonym stream = "bytes \<times> bool"

record Server =
  sv_Dir :: string
  sv_Token :: string
  sv_Upstream :: "(string \<Rightarrow> stream result) option"
  sv_OriginHosts :: "string list"
  sv_fetches :: int
  sv_Parse :: url_parser
  sv_EqualFold :: "string \<Rightarrow> string \<Rightarrow> bool"
  sv_Get :: "string \<Rightarrow> (int \<times> stream) option"

record request =
  rq_Authorization :: string
  rq_sha256 :: string
  rq_ArtifactUrl :: string

definition CutPrefix :: "string \<Rightarrow> string \<Rightarrow> string option" where
  "CutPrefix p s = (if starts_with p s then Some (drop (length p) s) else None)"

definition authorize :: "Server \<Rightarrow> request \<Rightarrow> bool" where
  "authorize s r \<longleftrightarrow> (if sv_Token s = [] then False
     else case CutPrefix ''Bearer '' (rq_Authorization r) of None \<Rightarrow> False | Some got \<Rightarrow> got = sv_Token s)"

definition validDigest :: "string \<Rightarrow> bool" where
  "validDigest s \<longleftrightarrow> length s = 64 \<and> list_all (\<lambda>c. \<not> ((c < CHR ''0'' \<or> c > CHR ''9'') \<and> (c < CHR ''a'' \<or> c > CHR ''f''))) s"

definition hostAllowed :: "Server \<Rightarrow> string \<Rightarrow> bool" where
  "hostAllowed s host = list_ex (\<lambda>h. sv_EqualFold s (TrimSpace h) host) (sv_OriginHosts s)"

definition ErrNoUpstream :: error where
  "ErrNoUpstream = Err ''upstream disabled''"

definition origin :: "Server \<Rightarrow> request \<Rightarrow> stream result" where
  "origin s r =
     (let raw = TrimSpace (rq_ArtifactUrl r) in
      if raw = [] \<or> sv_OriginHosts s = [] then Inl ErrNoUpstream
      else case sv_Parse s raw of
        None \<Rightarrow> Inl ErrNoUpstream
      | Some u \<Rightarrow>
          if url_HasUser u \<or> url_Host u = [] \<or> url_RawQuery u \<noteq> [] \<or> url_Fragment u \<noteq> [] then Inl ErrNoUpstream
          else if url_Scheme u \<noteq> ''https'' \<and> \<not> (url_Scheme u = ''http'' \<and> is_loopback u) then Inl ErrNoUpstream
          else if \<not> hostAllowed s (url_Host u) then Inl ErrNoUpstream
          else case sv_Get s raw of
            None \<Rightarrow> Inl (Err ''origin request'')
          | Some (status, body) \<Rightarrow> if status \<noteq> 200 then Inl (Err ''origin status'') else Inr body)"

text \<open>
  \<open>io.Copy\<close> of a stream into a truncated file: a write error keeps a prefix; a stream that breaks
  off is an error after its bytes were written.
\<close>

definition copy_stream :: "path \<Rightarrow> stream \<Rightarrow> fs \<Rightarrow> error option \<times> fs" where
  "copy_stream d body f =
     (case fault f (IoWrite d) of
        Some e \<Rightarrow> if fst body = [] then (if snd body then Some (Err ''unexpected EOF'') else None, put_node d (RegFile []) f)
          else (Some e, put_node d (RegFile (take (fs_partial f d) (fst body))) f)
      | None \<Rightarrow> (if snd body then Some (Err ''unexpected EOF'') else None, put_node d (RegFile (fst body)) f))"

definition tmp_path :: "path \<Rightarrow> path" where
  "tmp_path p = butlast p @ [last p @ ''.part'']"

definition store_body :: "lib \<Rightarrow> path \<Rightarrow> string \<Rightarrow> stream \<Rightarrow> fs \<Rightarrow> error option \<times> fs" where
  "store_body L p digest body f =
     (let tmp = tmp_path p in
      case open_trunc tmp f of Inl e \<Rightarrow> (Some e, f)
      | Inr d \<Rightarrow> (case copy_stream d body f of
          (Some e, f1) \<Rightarrow> (Some e, snd (os_Remove tmp f1))
        | (None, f1) \<Rightarrow> (case fault f (IoClose tmp) of
            Some e \<Rightarrow> (Some e, snd (os_Remove tmp f1))
          | None \<Rightarrow>
              if lib_sha256 L (fst body) \<noteq> digest then (Some (Err ''digest''), snd (os_Remove tmp f1))
              else os_Rename tmp p f1)))"

text \<open>\<open>http.ServeFile\<close> for a request without conditions or ranges.\<close>

definition ServeFile :: "fs \<Rightarrow> path \<Rightarrow> reply" where
  "ServeFile f p = (case os_ReadFile f p of
       Inr b \<Rightarrow> Reply 200 b
     | Inl e \<Rightarrow> if IsNotExist e then Reply 404 [] else if node_at f p = Some Directory then Reply 301 [] else Reply 500 [])"

definition noteFetch :: "Server \<Rightarrow> Server" where
  "noteFetch s = s\<lparr>sv_fetches := sv_fetches s + 1\<rparr>"

definition fill_upstream :: "lib \<Rightarrow> (string \<Rightarrow> stream result) \<Rightarrow> Server \<Rightarrow> path \<Rightarrow> string \<Rightarrow> fs \<Rightarrow> reply \<times> Server \<times> fs" where
  "fill_upstream L up s p digest f =
     (case up digest of Inl e \<Rightarrow> (http_Error 502 ''upstream'', s, f)
      | Inr body \<Rightarrow>
          (let s1 = noteFetch s; tmp = tmp_path p in
           case open_trunc tmp f of Inl e \<Rightarrow> (http_Error 500 ''cache'', s1, f)
           | Inr d \<Rightarrow> (case copy_stream d body f of
               (Some e, f1) \<Rightarrow> (http_Error 502 ''cache'', s1, snd (os_Remove tmp f1))
             | (None, f1) \<Rightarrow>
                 if lib_sha256 L (fst body) \<noteq> digest then (http_Error 502 ''digest'', s1, snd (os_Remove tmp f1))
                 else (case os_Rename tmp p f1 of
                   (Some e, f2) \<Rightarrow> (http_Error 500 ''cache'', s1, f2)
                 | (None, f2) \<Rightarrow> (ServeFile f2 p, s1, f2)))))"

definition fill_origin :: "lib \<Rightarrow> Server \<Rightarrow> request \<Rightarrow> path \<Rightarrow> string \<Rightarrow> fs \<Rightarrow> reply \<times> Server \<times> fs" where
  "fill_origin L s r p digest f =
     (case origin s r of Inl e \<Rightarrow> (http_Error 404 ''missing'', s, f)
      | Inr body \<Rightarrow> (case store_body L p digest body f of
          (Some e, f1) \<Rightarrow> (http_Error 502 ''upstream'', noteFetch s, f1)
        | (None, f1) \<Rightarrow> (ServeFile f1 p, noteFetch s, f1)))"

text \<open>
  \<open>between\<close> is what other requests did to the directory before this one obtained the fill lock; the
  second \<open>Stat\<close> looks for their result.
\<close>

definition get :: "lib \<Rightarrow> Server \<Rightarrow> request \<Rightarrow> (fs \<Rightarrow> fs) \<Rightarrow> fs \<Rightarrow> reply \<times> Server \<times> fs" where
  "get L s r between f =
     (if \<not> authorize s r then (http_Error 401 ''unauthorized'', s, f)
      else if \<not> validDigest (rq_sha256 r) then (http_Error 400 ''bad digest'', s, f)
      else let p = Join (abs_path (sv_Dir s)) (rq_sha256 r) in
        if os_Stat f p = None then (ServeFile f p, s, f)
        else let f1 = between f in
          if os_Stat f1 p = None then (ServeFile f1 p, s, f1)
          else case sv_Upstream s of
            None \<Rightarrow> fill_origin L s r p (rq_sha256 r) f1
          | Some up \<Rightarrow> fill_upstream L up s p (rq_sha256 r) f1)"
section \<open>The cache holds what its names say\<close>

definition cache_ok :: "lib \<Rightarrow> Server \<Rightarrow> fs \<Rightarrow> bool" where
  "cache_ok L s f \<longleftrightarrow> (\<forall>d. validDigest d \<longrightarrow>
     reg_or_none f (abs_path (sv_Dir s) @ [d]) \<and> reg_or_none f (abs_path (sv_Dir s) @ [d @ ''.part''])
     \<and> (\<forall>b. node_at f (abs_path (sv_Dir s) @ [d]) = Some (RegFile b) \<longrightarrow> lib_sha256 L b = d))"

lemma validDigest_plain: "validDigest d \<Longrightarrow> plain d"
  by (rule plainI) (auto simp: validDigest_def list_all_iff less_char_def)

lemma part_not_digest: "validDigest d \<Longrightarrow> validDigest e \<Longrightarrow> e @ ''.part'' \<noteq> d"
  by (auto simp: validDigest_def)

lemma cache_file_read:
  assumes "cache_ok L s f" "validDigest d" "ServeFile f (abs_path (sv_Dir s) @ [d]) = Reply 200 b"
  shows "lib_sha256 L b = d"
proof -
  have rn: "reg_or_none f (abs_path (sv_Dir s) @ [d])" using assms(1,2) by (simp add: cache_ok_def)
  have "node_at f (abs_path (sv_Dir s) @ [d]) = Some (RegFile b)"
    using assms(3) reg_follow [OF rn]
    by (auto simp: ServeFile_def os_ReadFile_def split: sum.splits option.splits node.splits if_splits)
  with assms(1,2) show ?thesis by (simp add: cache_ok_def)
qed

text \<open>Writing only below the temporary name keeps the cache; so does moving verified bytes into place.\<close>

lemma cache_ok_part:
  assumes "cache_ok L s f" "validDigest d"
    and "\<And>q. q \<noteq> abs_path (sv_Dir s) @ [d @ ''.part''] \<Longrightarrow> node_at f1 q = node_at f q"
    and "reg_or_none f1 (abs_path (sv_Dir s) @ [d @ ''.part''])"
  shows "cache_ok L s f1"
  unfolding cache_ok_def
proof (intro allI impI conjI)
  fix e assume e: "validDigest e"
  have same: "node_at f1 (abs_path (sv_Dir s) @ [e]) = node_at f (abs_path (sv_Dir s) @ [e])"
    using assms(3) part_not_digest [OF e assms(2)] by auto
  then show "reg_or_none f1 (abs_path (sv_Dir s) @ [e])" using assms(1) e by (simp add: cache_ok_def reg_or_none_def)
  show "lib_sha256 L b = e" if "node_at f1 (abs_path (sv_Dir s) @ [e]) = Some (RegFile b)" for b
    using that same assms(1) e by (simp add: cache_ok_def)
  show "reg_or_none f1 (abs_path (sv_Dir s) @ [e @ ''.part''])"
    using assms(1,3,4) e by (cases "e = d") (auto simp: cache_ok_def reg_or_none_def)
qed

lemma copy_stream_node:
  assumes "copy_stream d body f = (eo, f1)" "d \<noteq> []"
  shows "q \<noteq> d \<Longrightarrow> node_at f1 q = node_at f q" "reg_or_none f1 d"
    "eo = None \<Longrightarrow> node_at f1 d = Some (RegFile (fst body))"
  using assms by (auto simp: copy_stream_def node_at_put reg_or_none_def split: option.splits if_splits)

lemma remove_part:
  assumes "cache_ok L s f" "validDigest d"
  shows "cache_ok L s (snd (os_Remove (abs_path (sv_Dir s) @ [d @ ''.part'']) f))"
proof (rule cache_ok_part [OF assms])
  show "q \<noteq> abs_path (sv_Dir s) @ [d @ ''.part''] \<Longrightarrow>
      node_at (snd (os_Remove (abs_path (sv_Dir s) @ [d @ ''.part'']) f)) q = node_at f q" for q
    by (simp add: os_Remove_node)
  show "reg_or_none (snd (os_Remove (abs_path (sv_Dir s) @ [d @ ''.part'']) f)) (abs_path (sv_Dir s) @ [d @ ''.part''])"
    using assms by (simp add: reg_or_none_def os_Remove_node cache_ok_def)
qed

lemma rename_part:
  assumes "cache_ok L s f" "validDigest d" "node_at f (abs_path (sv_Dir s) @ [d @ ''.part'']) = Some (RegFile b)"
    and "lib_sha256 L b = d" "os_Rename (abs_path (sv_Dir s) @ [d @ ''.part'']) (abs_path (sv_Dir s) @ [d]) f = (eo, f1)"
  shows "cache_ok L s f1"
proof (cases eo)
  case (Some e)
  with assms have "f1 = f" by (auto simp: os_Rename_def split: option.splits node.splits if_splits)
  with assms(1) show ?thesis by simp
next
  case None
  with assms(3,5) have f1: "f1 = put_node (abs_path (sv_Dir s) @ [d]) (RegFile b) (del_node (abs_path (sv_Dir s) @ [d @ ''.part'']) f)"
    by (auto simp: os_Rename_def split: option.splits node.splits if_splits)
  show ?thesis
    unfolding cache_ok_def
    using assms(1,2,4) part_not_digest by (auto simp: f1 node_at_put node_at_del reg_or_none_def cache_ok_def split: if_splits)
qed
lemma tmp_path_file [simp]: "tmp_path (p @ [x]) = p @ [x @ ''.part'']"
  by (simp add: tmp_path_def)

lemma stream_into_part:
  assumes "cache_ok L s f" "validDigest d" "open_trunc (abs_path (sv_Dir s) @ [d @ ''.part'']) f = Inr q"
    and "copy_stream q body f = (eo, f1)"
  shows "cache_ok L s f1" "eo = None \<Longrightarrow> node_at f1 (abs_path (sv_Dir s) @ [d @ ''.part'']) = Some (RegFile (fst body))"
proof -
  have q: "q = abs_path (sv_Dir s) @ [d @ ''.part'']"
    using open_trunc_reg [OF _ assms(3)] assms(1,2) by (simp add: cache_ok_def)
  note c = copy_stream_node [OF assms(4) [unfolded q]]
  from c(1,2) show "cache_ok L s f1" by (intro cache_ok_part [OF assms(1,2)]) simp_all
  from c(3) show "eo = None \<Longrightarrow> node_at f1 (abs_path (sv_Dir s) @ [d @ ''.part'']) = Some (RegFile (fst body))" by simp
qed

lemma store_body_cache:
  assumes "cache_ok L s f" "validDigest d" "store_body L (abs_path (sv_Dir s) @ [d]) d body f = (eo, f1)"
  shows "cache_ok L s f1"
proof (cases "open_trunc (abs_path (sv_Dir s) @ [d @ ''.part'']) f")
  case (Inl e)
  with assms show ?thesis by (simp add: store_body_def)
next
  case (Inr q)
  obtain e2 f2 where c: "copy_stream q body f = (e2, f2)" by fastforce
  note st = stream_into_part [OF assms(1,2) Inr c]
  from assms(3) Inr c st remove_part [OF st(1) assms(2)] rename_part [OF st(1) assms(2) st(2)] show ?thesis
    by (auto simp: store_body_def Let_def split: option.splits if_splits)
qed

lemma fill_upstream_cache:
  assumes "cache_ok L s f" "validDigest d" "fill_upstream L up s (abs_path (sv_Dir s) @ [d]) d f = (rep, s1, f1)"
  shows "cache_ok L s f1 \<and> (\<forall>b. rep = Reply 200 b \<longrightarrow> rep = ServeFile f1 (abs_path (sv_Dir s) @ [d]))"
proof (cases "up d")
  case (Inl e)
  with assms show ?thesis by (auto simp: fill_upstream_def http_Error_def)
next
  case up: (Inr body)
  show ?thesis
  proof (cases "open_trunc (abs_path (sv_Dir s) @ [d @ ''.part'']) f")
    case (Inl e)
    with assms up show ?thesis by (auto simp: fill_upstream_def http_Error_def)
  next
    case (Inr q)
    obtain e2 f2 where c: "copy_stream q body f = (e2, f2)" by fastforce
    note st = stream_into_part [OF assms(1,2) Inr c]
    from assms(3) up Inr c st remove_part [OF st(1) assms(2)] rename_part [OF st(1) assms(2) st(2)] show ?thesis
      by (auto simp: fill_upstream_def http_Error_def Let_def split: option.splits if_splits prod.splits)
  qed
qed

lemma fill_origin_cache:
  assumes "cache_ok L s f" "validDigest d" "fill_origin L s r (abs_path (sv_Dir s) @ [d]) d f = (rep, s1, f1)"
  shows "cache_ok L s f1 \<and> (\<forall>b. rep = Reply 200 b \<longrightarrow> rep = ServeFile f1 (abs_path (sv_Dir s) @ [d]))"
proof (cases "origin s r")
  case (Inl e)
  with assms show ?thesis by (auto simp: fill_origin_def http_Error_def split: if_splits)
next
  case (Inr body)
  obtain e2 f2 where c: "store_body L (abs_path (sv_Dir s) @ [d]) d body f = (e2, f2)" by fastforce
  from assms(3) Inr c store_body_cache [OF assms(1,2) c] show ?thesis
    by (auto simp: fill_origin_def http_Error_def split: option.splits)
qed

lemma fill_upstream_server: "fill_upstream L up s p d f = (rep, s1, f1) \<Longrightarrow> sv_Dir s1 = sv_Dir s \<and> sv_Token s1 = sv_Token s"
  by (auto simp: fill_upstream_def http_Error_def noteFetch_def Let_def split: sum.splits prod.splits option.splits if_splits)

lemma fill_origin_server: "fill_origin L s r p d f = (rep, s1, f1) \<Longrightarrow> sv_Dir s1 = sv_Dir s \<and> sv_Token s1 = sv_Token s"
  by (auto simp: fill_origin_def http_Error_def noteFetch_def split: sum.splits prod.splits option.splits)

lemma fill_upstream_served: "fill_upstream L up s p d f = (Reply 200 b, s1, f1) \<Longrightarrow> ServeFile f1 p = Reply 200 b"
  by (auto simp: fill_upstream_def http_Error_def Let_def split: sum.splits prod.splits option.splits if_splits)

lemma fill_origin_served: "fill_origin L s r p d f = (Reply 200 b, s1, f1) \<Longrightarrow> ServeFile f1 p = Reply 200 b"
  by (auto simp: fill_origin_def http_Error_def split: sum.splits prod.splits option.splits)

text \<open>
  C29. The relay only hands out verified bytes: from a cache whose files match their names, whatever
  upstream, origin, disk faults and concurrent fills do, the cache stays that way, and every
  successful reply goes to a client with the token and has exactly the digest that was asked for.
\<close>

theorem relay_serves_verified:
  assumes "cache_ok L s f" "\<And>g. cache_ok L s g \<Longrightarrow> cache_ok L s (between g)" "get L s r between f = (rep, s1, f1)"
  shows "cache_ok L s f1 \<and> (\<forall>b. rep = Reply 200 b \<longrightarrow> authorize s r \<and> validDigest (rq_sha256 r) \<and> lib_sha256 L b = rq_sha256 r)"
proof (cases "authorize s r \<and> validDigest (rq_sha256 r)")
  case False
  with assms(1,3) show ?thesis by (auto simp: get_def http_Error_def split: if_splits)
next
  case True
  let ?d = "rq_sha256 r" and ?p = "abs_path (sv_Dir s) @ [rq_sha256 r]"
  have v: "validDigest ?d" using True by simp
  have p: "Join (abs_path (sv_Dir s)) ?d = ?p" using validDigest_plain [OF v] by simp
  note b = assms(2) [OF assms(1)]
  have "cache_ok L s f1 \<and> (\<forall>b. rep = Reply 200 b \<longrightarrow> rep = ServeFile f1 ?p)"
    using assms(1,3) True b fill_origin_cache [OF b v] fill_upstream_cache [OF b v]
    by (auto simp: get_def http_Error_def p Let_def split: if_splits option.splits)
  with True cache_file_read [OF _ v] show ?thesis by metis
qed

definition sample_relay_stream :: "string \<Rightarrow> stream result" where
  "sample_relay_stream d = Inr (''new'', False)"

definition sample_relay_parse :: url_parser where
  "sample_relay_parse u = None"

definition sample_relay :: Server where
  "sample_relay = \<lparr>sv_Dir = ''/c'', sv_Token = ''t'', sv_Upstream = Some sample_relay_stream, sv_OriginHosts = [], sv_fetches = 0,
     sv_Parse = sample_relay_parse, sv_EqualFold = (=), sv_Get = (\<lambda>_. None)\<rparr>"

definition sample_relay_request :: request where
  "sample_relay_request = \<lparr>rq_Authorization = ''Bearer t'', rq_sha256 = sample_digest, rq_ArtifactUrl = []\<rparr>"

definition sample_relay_fs :: fs where
  "sample_relay_fs = \<lparr>fs_nodes = [([''c''], Directory)], fs_fault = (\<lambda>_. None), fs_partial = (\<lambda>_. 0),
     fs_bavail = (\<lambda>_. 100), fs_bsize = 1\<rparr>"

theorem relay_serves_verified_witness:
  "\<exists>s1 f1. get sample_lib sample_relay sample_relay_request id sample_relay_fs = (Reply 200 ''new'', s1, f1)
     \<and> lib_sha256 sample_lib ''new'' = rq_sha256 sample_relay_request"
proof -
  let ?g = "get sample_lib sample_relay sample_relay_request id sample_relay_fs"
  have "fst ?g = Reply 200 ''new''" by code_simp
  then obtain s1 f1 where g: "?g = (Reply 200 ''new'', s1, f1)" by (metis prod.collapse)
  have "abs_path ''/c'' = [''c'']" by code_simp
  then have "cache_ok sample_lib sample_relay sample_relay_fs"
    by (auto simp: cache_ok_def sample_relay_def sample_relay_fs_def node_at_def reg_or_none_def)
  from relay_serves_verified [OF this _ g] g show ?thesis by auto
qed

text \<open>
  A digest is fetched once: after a successful reply, every later request for the same digest
  by a client with the token is answered from the directory with the same bytes, without another
  request upstream and without touching the directory.
\<close>

theorem relay_fetches_once:
  assumes "get L s r between f = (Reply 200 b, s1, f1)" "fault f1 (IoStat (Join (abs_path (sv_Dir s)) (rq_sha256 r))) = None"
    and "authorize s r2" "rq_sha256 r2 = rq_sha256 r"
  shows "get L s1 r2 between2 f1 = (Reply 200 b, s1, f1)"
proof -
  let ?p = "Join (abs_path (sv_Dir s)) (rq_sha256 r)"
  have s1: "sv_Dir s1 = sv_Dir s" "sv_Token s1 = sv_Token s"
    using assms(1) by (auto simp: get_def http_Error_def Let_def split: if_splits option.splits dest: fill_origin_server fill_upstream_server)
  have served: "ServeFile f1 ?p = Reply 200 b" "validDigest (rq_sha256 r)"
    using assms(1) by (auto simp: get_def http_Error_def Let_def split: if_splits option.splits dest: fill_origin_served fill_upstream_served)
  have "os_Stat f1 ?p = None" using assms(2) served(1)
    by (auto simp: ServeFile_def os_ReadFile_def os_Stat_def split: sum.splits option.splits node.splits if_splits)
  moreover have "authorize s1 r2" using assms(3) by (simp only: authorize_def s1)
  ultimately show ?thesis using assms(4) served s1 by (simp add: get_def)
qed

theorem relay_fetches_once_witness:
  "\<exists>s1 f1. get sample_lib sample_relay sample_relay_request id sample_relay_fs = (Reply 200 ''new'', s1, f1)
     \<and> get sample_lib s1 sample_relay_request id f1 = (Reply 200 ''new'', s1, f1)"
proof -
  let ?g = "get sample_lib sample_relay sample_relay_request id sample_relay_fs"
  have "fst ?g = Reply 200 ''new''" by code_simp
  then obtain s1 f1 where g: "?g = (Reply 200 ''new'', s1, f1)" by (metis prod.collapse)
  have "fault (snd (snd ?g)) (IoStat (Join (abs_path (sv_Dir sample_relay)) (rq_sha256 sample_relay_request))) = None"
    by code_simp
  moreover have "authorize sample_relay sample_relay_request" by code_simp
  ultimately show ?thesis using relay_fetches_once [OF g] g by auto
qed

end
