(* ===== verification/OTA_Servers.thy ===== *)
theory OTA_Servers
  imports OTA_FleetRef OTA_Relay OTA_Text
begin

text \<open>
  The two server programs: \<open>cmd/zyvor-fleet-ref/main.go\<close> (registering devices, handing out an assignment, the certificate) and
  \<open>cmd/zyvor-relay/main.go\<close>. Their handlers are in \<open>OTA_FleetRef\<close> and \<open>OTA_Relay\<close>; a program that calls \<open>log.Fatal\<close> is an error
  value here. Parsing of flags is left out, so a flag is an argument.
\<close>

section \<open>Comma-separated lists\<close>

text \<open>Both programs split at commas, trim every part and skip empty ones.\<close>

definition comma_list :: "string \<Rightarrow> string list" where
  "comma_list s = filter (\<lambda>x. x \<noteq> []) (map TrimSpace (split_on CHR '','' s))"

section \<open>The certificate of the reference server\<close>

text \<open>
  What \<open>crypto/ecdsa\<close>, \<open>crypto/x509\<close>, \<open>crypto/tls\<close> and \<open>encoding/pem\<close> answer. A certificate is opaque; the template is the one of
  the source.
\<close>

record cert_template =
  ct_SerialNumber :: int
  ct_CommonName :: string
  ct_NotBefore :: time
  ct_NotAfter :: time
  ct_KeyUsage :: "string list"
  ct_ExtKeyUsage :: "string list"
  ct_IPAddresses :: "string list"
  ct_DNSNames :: "string list"

record ('k, 'c) cert_env =
  ct_LoadX509KeyPair :: "string \<Rightarrow> string \<Rightarrow> 'c result"
  ct_GenerateKey :: "'k result"
  ct_CreateCertificate :: "cert_template \<Rightarrow> 'k \<Rightarrow> bytes result"
  ct_MarshalECPrivateKey :: "'k \<Rightarrow> bytes result"
  ct_pem :: "string \<Rightarrow> bytes \<Rightarrow> bytes"
  ct_X509KeyPair :: "bytes \<Rightarrow> bytes \<Rightarrow> 'c result"

definition lab_template :: "time \<Rightarrow> cert_template" where
  "lab_template now = \<lparr>ct_SerialNumber = 1, ct_CommonName = ''zyvor-fleet-ref-lab'', ct_NotBefore = now - seconds 3600, ct_NotAfter = now + seconds 86400,
     ct_KeyUsage = [''DigitalSignature'', ''KeyEncipherment''], ct_ExtKeyUsage = [''ServerAuth''],
     ct_IPAddresses = [''127.0.0.1'', ''::1''], ct_DNSNames = [''localhost'']\<rparr>"

definition loadOrEphemeralCert :: "('k, 'c) cert_env \<Rightarrow> time \<Rightarrow> string \<Rightarrow> string \<Rightarrow> fs \<Rightarrow> ('c \<times> bytes) result" where
  "loadOrEphemeralCert X now certFile keyFile f =
     (if certFile \<noteq> [] \<or> keyFile \<noteq> [] then
        (if certFile = [] \<or> keyFile = [] then Inl (Err ''both -cert and -key are required together'')
         else case ct_LoadX509KeyPair X certFile keyFile of Inl e \<Rightarrow> Inl e
           | Inr cert \<Rightarrow> (case os_ReadFile f (abs_path certFile) of Inl e \<Rightarrow> Inl e | Inr pemBytes \<Rightarrow> Inr (cert, pemBytes)))
      else (case ct_GenerateKey X of Inl e \<Rightarrow> Inl e
        | Inr key \<Rightarrow> (case ct_CreateCertificate X (lab_template now) key of Inl e \<Rightarrow> Inl e
        | Inr der \<Rightarrow> (let certPEM = ct_pem X ''CERTIFICATE'' der in
            case ct_MarshalECPrivateKey X key of Inl e \<Rightarrow> Inl e
            | Inr keyDER \<Rightarrow> (case ct_X509KeyPair X certPEM (ct_pem X ''EC PRIVATE KEY'' keyDER) of Inl e \<Rightarrow> Inl e
              | Inr cert \<Rightarrow> Inr (cert, certPEM))))))"

section \<open>The reference server's start\<close>

record ref_flags =
  rf_token :: string
  rf_devices :: string
  rf_assignment :: string
  rf_cert :: string
  rf_key :: string
  rf_writeCA :: string

fun register_all :: "string list \<Rightarrow> string \<Rightarrow> FleetServer \<Rightarrow> FleetServer result" where
  "register_all [] token s = Inr s"
| "register_all (i # is) token s = (case RegisterDevice i token s of (Some e, _) \<Rightarrow> Inl e | (None, s1) \<Rightarrow> register_all is token s1)"

definition assign_all :: "string list \<Rightarrow> Assignment \<Rightarrow> FleetServer \<Rightarrow> FleetServer" where
  "assign_all ids a s = foldl (\<lambda>s i. SetAssignment i (Some (a\<lparr>asg_DeviceID := i\<rparr>)) s) s ids"

definition load_assignment :: "lib \<Rightarrow> ref_flags \<Rightarrow> fs \<Rightarrow> FleetServer \<Rightarrow> FleetServer result" where
  "load_assignment L F f s =
     (if rf_assignment F = [] then Inr s
      else case os_ReadFile f (abs_path (rf_assignment F)) of Inl e \<Rightarrow> Inl e
        | Inr b \<Rightarrow> (case StrictJSON (lib_dec_Assignment L) b of Inl e \<Rightarrow> Inl e
          | Inr a \<Rightarrow> Inr (assign_all (comma_list (rf_devices F)) a s)))"

text \<open>\<open>os.WriteFile\<close>: a failed write leaves a part of the bytes.\<close>

definition os_WriteFile :: "path \<Rightarrow> bytes \<Rightarrow> fs \<Rightarrow> error option \<times> fs" where
  "os_WriteFile p b f = (case open_trunc p f of Inl e \<Rightarrow> (Some e, f)
     | Inr d \<Rightarrow> (case fault f (IoWrite d) of
         Some e \<Rightarrow> (Some e, put_node d (RegFile (take (fs_partial f d) b)) f)
       | None \<Rightarrow> (fault f (IoClose d), put_node d (RegFile b) f)))"

text \<open>\<open>listening\<close> is the outcome of \<open>net.Listen\<close>. The result is the server, its certificate and the files.\<close>

definition fleet_ref_main ::
  "lib \<Rightarrow> ('k, 'c) cert_env \<Rightarrow> time \<Rightarrow> error option \<Rightarrow> ref_flags \<Rightarrow> fs \<Rightarrow> (FleetServer \<times> 'c \<times> fs) result" where
  "fleet_ref_main L X now listening F f =
     (if rf_token F = [] \<or> rf_devices F = [] then Inl (Err ''usage: zyvor-fleet-ref -token SECRET -devices id1,id2 [-assignment file.json] [-listen addr]'')
      else case register_all (comma_list (rf_devices F)) (rf_token F) new_FleetServer of Inl e \<Rightarrow> Inl e
      | Inr s \<Rightarrow> (case load_assignment L F f s of Inl e \<Rightarrow> Inl e
      | Inr s1 \<Rightarrow> (case loadOrEphemeralCert X now (rf_cert F) (rf_key F) f of Inl e \<Rightarrow> Inl e
      | Inr (cert, certPEM) \<Rightarrow>
          (case (if rf_writeCA F = [] then (None, f) else os_WriteFile (abs_path (rf_writeCA F)) certPEM f) of
             (Some e, _) \<Rightarrow> Inl e
           | (None, f1) \<Rightarrow> (case listening of Some e \<Rightarrow> Inl e | None \<Rightarrow> Inr (s1, cert, f1))))))"

lemma register_all_ok:
  assumes "register_all ids token s = Inr s1"
  shows "map_of (fsv_tokens s1) i = (if i \<in> set ids then Some token else map_of (fsv_tokens s) i) \<and> fsv_assignments s1 = fsv_assignments s"
  using assms
proof (induction ids token s rule: register_all.induct)
  case (2 j ids token s)
  obtain s2 where r: "RegisterDevice j token s = (None, s2)" "register_all ids token s2 = Inr s1"
    using 2(2) by (auto split: prod.splits option.splits)
  have "map_of (fsv_tokens s2) i = (if i = j then Some token else map_of (fsv_tokens s) i) \<and> fsv_assignments s2 = fsv_assignments s"
    using r(1) by (auto simp: RegisterDevice_def Let_def split: if_splits)
  with 2(1) [OF r(1) [symmetric] refl r(2)] show ?case by auto
qed simp

lemma assign_all_maps:
  "map_of (fsv_assignments (assign_all ids a s)) i = (if i \<in> set ids then Some (a\<lparr>asg_DeviceID := i\<rparr>) else map_of (fsv_assignments s) i)
   \<and> fsv_tokens (assign_all ids a s) = fsv_tokens s"
  unfolding assign_all_def by (induction ids arbitrary: s) (auto simp: SetAssignment_def)

text \<open>
  The reference server serves exactly the devices it was started for: a request for a device is authorised if and only if the
  device is in the list and the request carries the token; a listed device is offered the assignment of the file under its own
  device ID, or none when no file is given; nobody else is offered anything.
\<close>

theorem fleet_ref_serves_listed:
  assumes "fleet_ref_main L X now listening F f = Inr (s, cert, f1)"
  shows "(fleet_authorize s r i \<longleftrightarrow> i \<in> set (comma_list (rf_devices F)) \<and> TrimSpace (TrimPrefix ''Bearer '' (hq_Authorization r)) = rf_token F)
    \<and> (rf_assignment F = [] \<longrightarrow> map_of (fsv_assignments s) i = None)
    \<and> (rf_assignment F \<noteq> [] \<longrightarrow> (\<exists>b a. os_ReadFile f (abs_path (rf_assignment F)) = Inr b \<and> StrictJSON (lib_dec_Assignment L) b = Inr a
         \<and> map_of (fsv_assignments s) i = (if i \<in> set (comma_list (rf_devices F)) then Some (a\<lparr>asg_DeviceID := i\<rparr>) else None)))"
proof -
  obtain s0 where r: "register_all (comma_list (rf_devices F)) (rf_token F) new_FleetServer = Inr s0" and l: "load_assignment L F f s0 = Inr s"
    using assms by (auto simp: fleet_ref_main_def split: if_splits sum.splits prod.splits option.splits)
  have t: "map_of (fsv_tokens s0) i = (if i \<in> set (comma_list (rf_devices F)) then Some (rf_token F) else None)" "map_of (fsv_assignments s0) i = None"
    using register_all_ok [OF r, of i] by (simp_all add: new_FleetServer_def)
  consider "rf_assignment F = []" "s = s0"
    | c a where "rf_assignment F \<noteq> []" "os_ReadFile f (abs_path (rf_assignment F)) = Inr c" "StrictJSON (lib_dec_Assignment L) c = Inr a"
        "s = assign_all (comma_list (rf_devices F)) a s0"
    using l by (auto simp: load_assignment_def split: if_splits sum.splits)
  then show ?thesis
  proof cases
    case 1
    then show ?thesis using t by (simp add: fleet_authorize_def)
  next
    case (2 c a)
    then show ?thesis using t assign_all_maps [of "comma_list (rf_devices F)" a s0 i] by (simp add: fleet_authorize_def)
  qed
qed

section \<open>The relay's start\<close>

text \<open>\<open>env\<close> gives the relay its URL parser, host comparison and HTTP client.\<close>

definition relay_main :: "Server \<Rightarrow> string \<Rightarrow> string \<Rightarrow> string \<Rightarrow> fs \<Rightarrow> (Server \<times> fs) result" where
  "relay_main env dir token origins f =
     (if token = [] then Inl (Err ''token required; peers are authenticated'')
      else case os_MkdirAll (abs_path dir) f of (Some e, _) \<Rightarrow> Inl e
      | (None, f1) \<Rightarrow> Inr (env\<lparr>sv_Dir := dir, sv_Token := token, sv_Upstream := None, sv_OriginHosts := comma_list origins, sv_fetches := 0\<rparr>, f1))"

text \<open>
  A relay started without origin hosts fetches nothing: a request changes neither its counter nor its files.
\<close>

lemma closed_relay_fetches_nothing:
  assumes "relay_main env dir token origins f = Inr (s, f1)" "comma_list origins = []" "get L s r id f1 = (rep, s1, f2)"
  shows "s1 = s \<and> f2 = f1"
proof -
  have "sv_Upstream s = None" "sv_OriginHosts s = []"
    using assms(1,2) by (auto simp: relay_main_def split: if_splits prod.splits option.splits)
  then show ?thesis using assms(3) by (auto simp: get_def fill_origin_def origin_def Let_def split: if_splits)
qed

definition sample_ref_flags :: ref_flags where
  "sample_ref_flags = \<lparr>rf_token = ''tok'', rf_devices = ''d1, ,d2'', rf_assignment = ''/a'', rf_cert = [], rf_key = [], rf_writeCA = ''/ca''\<rparr>"

definition sample_cert_env :: "(nat, nat) cert_env" where
  "sample_cert_env = \<lparr>ct_LoadX509KeyPair = (\<lambda>_ _. Inl (Err ''open'')), ct_GenerateKey = Inr 1, ct_CreateCertificate = (\<lambda>_ _. Inr ''der''),
     ct_MarshalECPrivateKey = (\<lambda>_. Inr ''key''), ct_pem = (\<lambda>t b. t @ b), ct_X509KeyPair = (\<lambda>_ _. Inr 2)\<rparr>"

definition sample_ref_fs :: fs where
  "sample_ref_fs = sample_relay_fs\<lparr>fs_nodes := [([''a''], RegFile ''asg'')]\<rparr>"

definition sample_ref_lib :: lib where
  "sample_ref_lib = sample_lib\<lparr>lib_dec_Assignment := (\<lambda>b. Inr (sample_assignment, []))\<rparr>"

theorem fleet_ref_serves_listed_witness:
  "\<exists>s cert f1. fleet_ref_main sample_ref_lib sample_cert_env 5 None sample_ref_flags sample_ref_fs = Inr (s, cert, f1)
     \<and> map_of (fsv_assignments s) ''d2'' = Some (sample_assignment\<lparr>asg_DeviceID := ''d2''\<rparr>) \<and> map_of (fsv_assignments s) ''d3'' = None"
proof -
  let ?m = "fleet_ref_main sample_ref_lib sample_cert_env 5 None sample_ref_flags sample_ref_fs"
  have "is_ok ?m" by code_simp
  then obtain s cert f1 where m: "?m = Inr (s, cert, f1)" by (auto simp: is_ok_iff)
  have d: "comma_list (rf_devices sample_ref_flags) = [''d1'', ''d2'']" by code_simp
  have a: "rf_assignment sample_ref_flags \<noteq> []" by (simp add: sample_ref_flags_def)
  have j: "StrictJSON (lib_dec_Assignment sample_ref_lib) b = Inr sample_assignment" for b by (simp add: sample_ref_lib_def StrictJSON_def)
  from fleet_ref_serves_listed [OF m, of _ "''d2''"] fleet_ref_serves_listed [OF m, of _ "''d3''"] m a show ?thesis by (simp add: d j)
qed

end
