(* ===== verification/OTA_Fleet.thy ===== *)
theory OTA_Fleet
  imports OTA_Execution OTA_FleetRef
begin

text \<open>
  The agent's side of the fleet contract (\<open>internal/ota/fleet.go\<close>): sending the outbox, taking the
  acknowledgement, fetching the next assignment. \<open>fleet_endpoint\<close> is what the agent expects of a server; the
  reference server of \<open>OTA_FleetRef\<close>, reached over a link that loses requests and responses, provides
  it.
\<close>

section \<open>The code\<close>

text \<open>
  \<open>tls\<close> is what \<open>crypto/tls\<close> and \<open>crypto/x509\<close> say about certificate files. A \<open>transport\<close> is one
  exchange of \<open>http.Client.Do\<close> with the server behind it, whose state it threads; \<open>None\<close> is a failed
  exchange (lost, timed out, cancelled, bad certificate). A reply that asks for a redirect makes
  \<open>Do\<close> fail, because \<open>CheckRedirect\<close> does.
\<close>

record tls =
  tls_SystemPool :: bool
  tls_AppendPEM :: "bytes \<Rightarrow> bool"
  tls_LoadKeyPair :: "string \<Rightarrow> string \<Rightarrow> bytes result"

record Fleet =
  fl_Config :: Config
  fl_RootCAs :: "(bool \<times> bytes) option"
  fl_Certificates :: "bytes list"
  fl_token :: string

record client_request =
  cr_Method :: string
  cr_URL :: string
  cr_Authorization :: string
  cr_Body :: bytes

record fleet_reply =
  fr_Redirect :: bool
  fr_Status :: int
  fr_Body :: bytes
  fr_Broken :: bool

type_synonym 's transport = "client_request \<Rightarrow> 's \<Rightarrow> fleet_reply option \<times> 's"

definition NewFleet :: "tls \<Rightarrow> Config \<Rightarrow> fs \<Rightarrow> Fleet result" where
  "NewFleet T c f =
     (case (if cfg_FleetCA c \<noteq> [] then
              (case os_ReadFile f (abs_path (cfg_FleetCA c)) of Inl e \<Rightarrow> Inl e
               | Inr b \<Rightarrow> if \<not> tls_AppendPEM T b then Inl (Err ''invalid Fleet CA'') else Inr (Some (tls_SystemPool T, b)))
            else Inr None) of
        Inl e \<Rightarrow> Inl e
      | Inr roots \<Rightarrow>
          (case (if cfg_FleetCert c \<noteq> [] \<or> cfg_FleetKey c \<noteq> [] then
                   (case tls_LoadKeyPair T (cfg_FleetCert c) (cfg_FleetKey c) of Inl e \<Rightarrow> Inl e | Inr cert \<Rightarrow> Inr [cert])
                 else Inr []) of
             Inl e \<Rightarrow> Inl e
           | Inr certs \<Rightarrow>
               (let fl = \<lparr>fl_Config = c, fl_RootCAs = roots, fl_Certificates = certs, fl_token = []\<rparr> in
                if cfg_FleetTokenFile c = [] then Inr fl
                else case os_ReadFile f (abs_path (cfg_FleetTokenFile c)) of
                  Inl e \<Rightarrow> Inl e
                | Inr b \<Rightarrow> if TrimSpace b = [] then Inl (Err ''empty Fleet token'')
                    else Inr (fl\<lparr>fl_token := TrimSpace b\<rparr>))))"

definition fleet_url :: "Fleet \<Rightarrow> string \<Rightarrow> string" where
  "fleet_url F ending = trim_right_slash (cfg_FleetURL (fl_Config F)) @ ''/v1/devices/'' @ cfg_DeviceID (fl_Config F) @ ending"

definition Fleet_request ::
  "url_parser \<Rightarrow> 's transport \<Rightarrow> Fleet \<Rightarrow> string \<Rightarrow> string \<Rightarrow> bytes result option \<Rightarrow> 's \<Rightarrow> (bytes \<times> int) result \<times> 's" where
  "Fleet_request P T F method ending body w =
     (case (case body of None \<Rightarrow> Inr [] | Some r \<Rightarrow> r) of
        Inl e \<Rightarrow> (Inl e, w)
      | Inr b \<Rightarrow>
          if P (fleet_url F ending) = None then (Inl (Err ''parse URL''), w)
          else (case T \<lparr>cr_Method = method, cr_URL = fleet_url F ending,
                        cr_Authorization = (if fl_token F \<noteq> [] then ''Bearer '' @ fl_token F else []), cr_Body = b\<rparr> w of
              (None, w1) \<Rightarrow> (Inl (Err ''Fleet request failed''), w1)
            | (Some p, w1) \<Rightarrow>
                if fr_Redirect p then (Inl (Err ''Fleet request failed''), w1)
                else (case ReadAll_limit (524288 + 1) (fr_Body p) (fr_Broken p) of
                    Inl e \<Rightarrow> (Inl e, w1)
                  | Inr data \<Rightarrow> if int (length data) > 524288 then (Inl (Err ''Fleet response too large''), w1)
                      else (Inr (data, fr_Status p), w1))))"

text \<open>
  \<open>Sync\<close> runs without the engine's mutex. \<open>during i\<close> is what other handlers do to the engine while
  request \<open>i\<close> is under way.
\<close>

definition sync_events ::
  "'b agent \<Rightarrow> wire \<Rightarrow> url_parser \<Rightarrow> 's transport \<Rightarrow> Fleet \<Rightarrow> ('b engine \<Rightarrow> 'b engine) \<Rightarrow> 'b engine \<Rightarrow> 's
    \<Rightarrow> error option \<times> 'b engine \<times> 's" where
  "sync_events A W P T F during en w =
     (let events = take 100 (db_Events (View (en_store en))) in
      if events = [] then (None, en, w)
      else (case Fleet_request P T F ''POST'' ''/events'' (Some (wi_enc_events W events)) w of
          (Inl e, w1) \<Rightarrow> (Some e, during en, w1)
        | (Inr (b, status), w1) \<Rightarrow>
            if status \<noteq> 200 then (Some (Err ''Fleet event HTTP''), during en, w1)
            else (case StrictJSON (wi_dec_ack W) b of
                Inl e \<Rightarrow> (Some e, during en, w1)
              | Inr n \<Rightarrow>
                  if n > ev_Sequence (last events) then (Some (Err ''Fleet acknowledged unsent events''), during en, w1)
                  else (case Ack A n (during en) of (eo, en1) \<Rightarrow> (eo, en1, w1)))))"

definition sync_assignment ::
  "'b agent \<Rightarrow> url_parser \<Rightarrow> 's transport \<Rightarrow> Fleet \<Rightarrow> bool \<Rightarrow> ('b engine \<Rightarrow> 'b engine) \<Rightarrow> 'b engine \<Rightarrow> 's
    \<Rightarrow> error option \<times> 'b engine \<times> 's" where
  "sync_assignment A P T F busy during en w =
     (case Fleet_request P T F ''GET'' ''/assignment'' None w of
        (Inl e, w1) \<Rightarrow> (Some e, during en, w1)
      | (Inr (b, status), w1) \<Rightarrow>
          if status = 204 then (None, during en, w1)
          else if status \<noteq> 200 then (Some (Err ''Fleet assignment HTTP''), during en, w1)
          else (case StrictJSON (lib_dec_Assignment (ag_lib A)) b of
              Inl e \<Rightarrow> (Some e, during en, w1)
            | Inr a \<Rightarrow> (case Submit A busy a (during en) of
                (Inl e, en1) \<Rightarrow> (Some e, en1, w1)
              | (Inr j, en1) \<Rightarrow> (None, en1, w1))))"

definition fleet_sync ::
  "'b agent \<Rightarrow> wire \<Rightarrow> url_parser \<Rightarrow> 's transport \<Rightarrow> Fleet \<Rightarrow> bool \<Rightarrow> (nat \<Rightarrow> 'b engine \<Rightarrow> 'b engine) \<Rightarrow> 'b engine \<Rightarrow> 's
    \<Rightarrow> error option \<times> 'b engine \<times> 's" where
  "fleet_sync A W P T F busy during en w =
     (case sync_events A W P T F (during 0) en w of
        (Some e, en1, w1) \<Rightarrow> (Some e, en1, w1)
      | (None, en1, w1) \<Rightarrow> sync_assignment A P T F busy (during 1) en1 w1)"

text \<open>\<open>started\<close> and \<open>finished\<close> are the two readings of the clock for the span.\<close>

definition Sync ::
  "'b agent \<Rightarrow> wire \<Rightarrow> url_parser \<Rightarrow> 's transport \<Rightarrow> Fleet \<Rightarrow> bool \<Rightarrow> (nat \<Rightarrow> 'b engine \<Rightarrow> 'b engine) \<Rightarrow> time \<Rightarrow> time
    \<Rightarrow> 'b engine \<Rightarrow> 's \<Rightarrow> error option \<times> 'b engine \<times> 's" where
  "Sync A W P T F busy during started finished en w =
     (case fleet_sync A W P T F busy during en w of (eo, en1, w1) \<Rightarrow>
        (let en2 = en1\<lparr>en_stats := fleetSync (eo = None) (en_elapsed en1) (en_stats en1)\<rparr> in
         if \<not> ag_spans A then (eo, en2, w1)
         else (case fleetSpan (en_rng en2) (en_draws en2) (cfg_DeviceID (ag_cfg A)) started finished eo of
             (span, d) \<Rightarrow> (eo, en2\<lparr>en_draws := d, en_queue := Export span (en_queue en2)\<rparr>, w1))))"

section \<open>Sync is made of the engine's handlers\<close>

lemma compact_loop_events: "compact_loop lim d sp = Inr (sp1, d1) \<Longrightarrow> db_Events d1 = db_Events d"
proof (induction lim d sp rule: compact_loop.induct)
  case (1 lim d sp)
  then show ?case
    by (subst (asm) compact_loop.simps) (auto simp: Let_def split: if_splits option.splits prod.splits)
qed

lemma compactHot_events: "compactHot d = Inr (sp, d1) \<Longrightarrow> db_Events d1 = db_Events d"
  by (auto simp: compactHot_def split: sum.splits if_splits dest: compact_loop_events)

lemma Ack_keeps:
  assumes "Ack A n en = (eo, en1)" "e \<in> set (db_Events (data_of en))" "e \<notin> set (db_Events (data_of en1))"
  shows "ev_Sequence e \<le> n"
proof -
  obtain s where u: "Update (ag_lib A) (pure_fn (ack_fn n)) () (en_store en) = (eo, (), s)" "en_store en1 = s"
    using assms(1) by (auto simp: Ack_def update_Update [symmetric] split: prod.splits)
  from u(1) show ?thesis
  proof (cases rule: Update_cases)
    case (written next' spilled d)
    have "db_Events d = db_Events next'" using written(4) by (rule compactHot_events)
    moreover have "db_Events next' = dropWhile (\<lambda>e. ev_Sequence e \<le> n) (db_Events (data_of en))"
      using written(3) by (auto simp: pure_fn_def ack_fn_def split: if_splits)
    moreover have "data_of en1 = d" using written(6) u(2) by simp
    ultimately have "e \<notin> set (dropWhile (\<lambda>e. ev_Sequence e \<le> n) (db_Events (data_of en)))" using assms(3) by simp
    with assms(2) show ?thesis by (metis Un_iff set_append set_takeWhileD takeWhile_dropWhile_id)
  qed (use assms(2,3) u(2) in auto)
qed

lemma Submit_keeps:
  assumes "Submit A busy a en = (r, en1)" "e \<in> set (db_Events (data_of en))"
  shows "e \<in> set (db_Events (data_of en1))"
proof -
  obtain now en0 where n: "Now en = (now, en0)" by fastforce
  consider "en_store en1 = en_store en" | j dec eo f s where
      "Update (ag_lib A) (submit_fn A j dec now) (en_fs en0) (en_store en) = (eo, f, s)" "en_store en1 = s"
    using assms(1) n Now_frame [OF n]
    by (auto simp: Submit_def View_def split: if_splits option.splits sum.splits prod.splits)
  then show ?thesis
  proof cases
    case 1
    with assms(2) show ?thesis by simp
  next
    case (2 j dec eo f s)
    from 2(1) show ?thesis
    proof (cases rule: Update_cases)
      case (written next' spilled d)
      have "db_Events d = db_Events next'" using written(4) by (rule compactHot_events)
      moreover have "e \<in> set (db_Events next')"
        using written(3) assms(2)
        by (auto simp: submit_fn_def addEvent_def applySupplyChain_def Let_def split: if_splits sum.splits prod.splits option.splits)
      ultimately show ?thesis using written(6) 2(2) by simp
    qed (use assms(2) 2(2) in auto)
  qed
qed

lemma sync_events_runs:
  assumes "sync_events A W P T F during en w = (eo, en1, w1)"
  obtains "en1 = en" | "en1 = during en" | n where "Ack A n (during en) = (eo, en1)"
  using assms by (auto simp: sync_events_def Let_def split: if_splits sum.splits prod.splits)

lemma sync_assignment_runs:
  assumes "sync_assignment A P T F busy during en w = (eo, en1, w1)"
  obtains "en1 = during en" | a r where "Submit A busy a (during en) = (r, en1)"
  using assms by (auto simp: sync_assignment_def split: if_splits sum.splits prod.splits)

lemma fleet_sync_runs:
  assumes "fleet_sync A W P T F busy during en w = (eo, en1, w1)"
  obtains en0 eo0 w0 where "sync_events A W P T F (during 0) en w = (eo0, en0, w0)"
    "en1 = en0 \<or> (\<exists>eo2 w2. sync_assignment A P T F busy (during 1) en0 w0 = (eo2, en1, w2))"
  using assms by (auto simp: fleet_sync_def split: prod.splits option.splits)

lemma Sync_sync:
  assumes "Sync A W P T F busy during started finished en w = (eo, en1, w1)"
  obtains en0 where "fleet_sync A W P T F busy during en w = (eo, en0, w1)" "en_store en1 = en_store en0"
  using assms by (auto simp: Sync_def Let_def split: prod.splits if_splits)

section \<open>Any server: agent and server stay within their contract\<close>

definition sample_fleet :: Fleet where
  "sample_fleet = \<lparr>fl_Config = (ag_cfg sample_agent)\<lparr>cfg_DeviceID := ''d1'', cfg_FleetURL := ''https://f/''\<rparr>,
     fl_RootCAs = None, fl_Certificates = [], fl_token = ''tok''\<rparr>"

definition sample_fleet_url :: url_parser where
  "sample_fleet_url u = Some \<lparr>url_Scheme = ''https'', url_HasUser = False, url_Host = ''f'', url_Hostname = ''f'', url_Path = [],
     url_RawQuery = [], url_Fragment = []\<rparr>"

definition sample_busy_engine :: "simulator engine" where
  "sample_busy_engine = snd (Submit sample_agent False sample_assignment sample_engine)"

lemma sample_busy_reachable: "reachable sample_agent sample_busy_engine"
  unfolding sample_busy_engine_def by (rule onward [OF sample_reachable submitted [OF surjective_pairing]])

text \<open>
  A synchronisation is an interleaving of the engine's own handlers, so every invariant and every
  bound on histories proved of executions holds.
\<close>

lemma sync_steps:
  assumes "\<And>i x. (agent_step A)\<^sup>*\<^sup>* x (during i x)"
    and "Sync A W P T F busy during started finished en w = (eo, en1, w1)"
  shows "(agent_step A)\<^sup>*\<^sup>* en en1"
proof -
  obtain en2 where f: "fleet_sync A W P T F busy during en w = (eo, en2, w1)" and st: "en_store en1 = en_store en2"
    using assms(2) by (rule Sync_sync)
  obtain en0 eo0 w0 where e: "sync_events A W P T F (during 0) en w = (eo0, en0, w0)"
    and a: "en2 = en0 \<or> (\<exists>eo2 w2. sync_assignment A P T F busy (during 1) en0 w0 = (eo2, en2, w2))"
    using f by (rule fleet_sync_runs)
  have "(agent_step A)\<^sup>*\<^sup>* en en0"
    using e by (rule sync_events_runs) (auto intro: assms(1) rtranclp.rtrancl_into_rtrancl acknowledged)
  also have "(agent_step A)\<^sup>*\<^sup>* en0 en2"
  proof (cases "en2 = en0")
    case False
    with a obtain eo2 w2 where "sync_assignment A P T F busy (during 1) en0 w0 = (eo2, en2, w2)" by blast
    then show ?thesis by (rule sync_assignment_runs) (auto intro: assms(1) rtranclp.rtrancl_into_rtrancl submitted)
  qed simp
  also have "agent_step A en2 en1" using st by (rule world)
  finally show ?thesis .
qed

section \<open>The contract of a fleet server\<close>

text \<open>
  What the agent relies on: a batch that is answered with 200 is stored, and what is stored stays. \<open>base\<close>
  is the address of the server without trailing slashes.
\<close>

locale fleet_endpoint =
  fixes T :: "'s transport" and W :: wire and base :: string and stored :: "'s \<Rightarrow> string \<Rightarrow> Event \<Rightarrow> bool"
  assumes keeps: "T r w = (p, w1) \<Longrightarrow> stored w d e \<Longrightarrow> stored w1 d e"
    and posted: "T r w = (Some q, w1) \<Longrightarrow> cr_Method r = ''POST'' \<Longrightarrow> fr_Status q = 200 \<Longrightarrow> CHR ''/'' \<notin> set d \<Longrightarrow>
      cr_URL r = base @ ''/v1/devices/'' @ d @ ''/events'' \<Longrightarrow>
      \<exists>n es. StrictJSON (wi_dec_events W) (take n (cr_Body r)) = Inr es \<and> (\<forall>e \<in> set es. stored w1 d e)"

text \<open>
  The wire format: no prefix of an encoded batch, nor the batch itself, decodes to a different one.
\<close>

definition wire_ok :: "wire \<Rightarrow> bool" where
  "wire_ok W \<longleftrightarrow> (\<forall>es b n es'. wi_enc_events W es = Inr b \<longrightarrow> StrictJSON (wi_dec_events W) (take n b) = Inr es' \<longrightarrow> es' = es)"

lemma take_sorted:
  fixes f :: "'a \<Rightarrow> 'b :: linorder"
  assumes "sorted_wrt (<) (map f xs)" "x \<in> set xs" "f x \<le> f (last (take n xs))" "take n xs \<noteq> []"
  shows "x \<in> set (take n xs)"
proof (rule ccontr)
  assume "x \<notin> set (take n xs)"
  with assms(2) have "x \<in> set (drop n xs)" by (metis Un_iff append_take_drop_id set_append)
  moreover have "sorted_wrt (<) (map f (take n xs) @ map f (drop n xs))" using assms(1) by (metis append_take_drop_id map_append)
  ultimately have "f (last (take n xs)) < f x" using assms(4) by (auto simp: sorted_wrt_append)
  with assms(3) show False by simp
qed

context fleet_endpoint
begin

lemma request_keeps:
  assumes "Fleet_request P T F method ending body w = (r, w1)" "stored w d e"
  shows "stored w1 d e"
  using assms keeps by (fastforce simp: Fleet_request_def split: option.splits sum.splits prod.splits if_splits)

lemma request_posted:
  assumes "Fleet_request P T F ''POST'' ''/events'' (Some (wi_enc_events W es)) w = (Inr (b, 200), w1)"
    and "wire_ok W" "base = trim_right_slash (cfg_FleetURL (fl_Config F))" "CHR ''/'' \<notin> set (cfg_DeviceID (fl_Config F))" "e \<in> set es"
  shows "stored w1 (cfg_DeviceID (fl_Config F)) e"
proof -
  obtain body q where enc: "wi_enc_events W es = Inr body" and st: "fr_Status q = 200"
    and T: "T \<lparr>cr_Method = ''POST'', cr_URL = fleet_url F ''/events'',
       cr_Authorization = (if fl_token F \<noteq> [] then ''Bearer '' @ fl_token F else []), cr_Body = body\<rparr> w = (Some q, w1)"
    using assms(1) by (auto simp: Fleet_request_def split: option.splits sum.splits prod.splits if_splits)
  obtain n es' where dec: "StrictJSON (wi_dec_events W) (take n body) = Inr es'"
    and all: "\<forall>e \<in> set es'. stored w1 (cfg_DeviceID (fl_Config F)) e"
    using posted [OF T _ st assms(4)] by (auto simp: fleet_url_def assms(3))
  have "es' = es" using assms(2) enc dec unfolding wire_ok_def by blast
  with all assms(5) show ?thesis by blast
qed

lemma sync_events_loses_nothing:
  assumes "sync_events A W P T F during en w = (eo, en1, w1)"
    and "sorted_wrt (<) (map ev_Sequence (db_Events (data_of en)))"
    and "wire_ok W" "base = trim_right_slash (cfg_FleetURL (fl_Config F))" "CHR ''/'' \<notin> set (cfg_DeviceID (fl_Config F))"
    and "e \<in> set (db_Events (data_of en))" "e \<in> set (db_Events (data_of (during en)))"
  shows "e \<in> set (db_Events (data_of en1)) \<or> stored w1 (cfg_DeviceID (fl_Config F)) e"
proof (cases "\<exists>b n. Fleet_request P T F ''POST'' ''/events'' (Some (wi_enc_events W (take 100 (db_Events (data_of en))))) w = (Inr (b, 200), w1)
      \<and> take 100 (db_Events (data_of en)) \<noteq> []
      \<and> n \<le> ev_Sequence (last (take 100 (db_Events (data_of en)))) \<and> Ack A n (during en) = (eo, en1)")
  case True
  then obtain b n where req: "Fleet_request P T F ''POST'' ''/events'' (Some (wi_enc_events W (take 100 (db_Events (data_of en))))) w = (Inr (b, 200), w1)"
    and ne: "take 100 (db_Events (data_of en)) \<noteq> []" and n: "n \<le> ev_Sequence (last (take 100 (db_Events (data_of en))))"
    and ack: "Ack A n (during en) = (eo, en1)" by blast
  show ?thesis
  proof (cases "e \<in> set (db_Events (data_of en1))")
    case False
    with Ack_keeps [OF ack assms(7)] n have "ev_Sequence e \<le> ev_Sequence (last (take 100 (db_Events (data_of en))))" by simp
    with take_sorted [OF assms(2,6)] ne have "e \<in> set (take 100 (db_Events (data_of en)))" by blast
    with request_posted [OF req assms(3-5)] show ?thesis by blast
  qed simp
next
  case False
  then have "en1 = en \<or> en1 = during en"
    using assms(1) by (auto simp: sync_events_def View_def Let_def not_less split: if_splits sum.splits prod.splits)
  with assms(6,7) show ?thesis by auto
qed

lemma sync_loses_nothing:
  assumes "Sync A W P T F busy during started finished en w = (eo, en1, w1)"
    and "sorted_wrt (<) (map ev_Sequence (db_Events (data_of en)))"
    and "wire_ok W" "base = trim_right_slash (cfg_FleetURL (fl_Config F))" "CHR ''/'' \<notin> set (cfg_DeviceID (fl_Config F))"
    and "\<And>i x. set (db_Events (data_of x)) \<subseteq> set (db_Events (data_of (during i x)))"
    and "e \<in> set (db_Events (data_of en))"
  shows "e \<in> set (db_Events (data_of en1)) \<or> stored w1 (cfg_DeviceID (fl_Config F)) e"
proof -
  obtain en3 where f: "fleet_sync A W P T F busy during en w = (eo, en3, w1)" and st: "en_store en1 = en_store en3"
    using assms(1) by (rule Sync_sync)
  obtain eo0 en0 w0 where ev: "sync_events A W P T F (during 0) en w = (eo0, en0, w0)" by (metis prod_cases3)
  have e: "e \<in> set (db_Events (data_of en0)) \<or> stored w0 (cfg_DeviceID (fl_Config F)) e"
    using sync_events_loses_nothing [OF ev assms(2-5,7)] assms(6,7) by blast
  show ?thesis
  proof (cases eo0)
    case (Some x)
    with f ev st e show ?thesis by (simp add: fleet_sync_def)
  next
    case None
    with f ev have a: "sync_assignment A P T F busy (during 1) en0 w0 = (eo, en3, w1)" by (simp add: fleet_sync_def)
    obtain r2 w2 where req: "Fleet_request P T F ''GET'' ''/assignment'' None w0 = (r2, w2)" by fastforce
    with a have "w2 = w1" by (auto simp: sync_assignment_def split: sum.splits prod.splits if_splits)
    with request_keeps [OF req] have "stored w0 d e \<Longrightarrow> stored w1 d e" for d by simp
    moreover have "e \<in> set (db_Events (data_of en3))" if "e \<in> set (db_Events (data_of en0))"
      using a
    proof (cases rule: sync_assignment_runs)
      case 1
      with that assms(6) show ?thesis by blast
    next
      case (2 x r)
      from 2 show ?thesis by (rule Submit_keeps) (use that assms(6) in blast)
    qed
    ultimately show ?thesis using e st by auto
  qed
qed

end

section \<open>The reference server over an unreliable link\<close>

datatype delivery = Delivered | RequestLost | ResponseLost

text \<open>
  The link between agent and reference server: exchange \<open>k\<close> is delivered or loses the request or the response as
  \<open>del k\<close> says.
\<close>

definition fleet_link :: "lib \<Rightarrow> wire \<Rightarrow> string \<Rightarrow> (nat \<Rightarrow> delivery) \<Rightarrow> (FleetServer \<times> nat) transport" where
  "fleet_link L W base del r sk = (case sk of (s, k) \<Rightarrow>
     if del k = RequestLost \<or> \<not> starts_with base (cr_URL r) then (None, (s, Suc k))
     else (case fleet_Handler L W s \<lparr>hq_Method = cr_Method r, hq_Path = drop (length base) (cr_URL r),
               hq_Authorization = cr_Authorization r, hq_Body = cr_Body r, hq_Broken = False\<rparr> of
         None \<Rightarrow> (None, (s, Suc k))
       | Some (Reply code b, s1) \<Rightarrow>
           (if del k = ResponseLost then None
            else Some \<lparr>fr_Redirect = False, fr_Status = code, fr_Body = b, fr_Broken = False\<rparr>, (s1, Suc k))))"

lemma fleet_link_steps:
  assumes "fleet_link L W base del r (s, k) = (p, (s1, k1))"
  shows "s1 = s \<or> fleet_step L W s s1"
  using assms by (auto simp: fleet_link_def intro: served split: if_splits option.splits prod.splits reply.splits)

lemma split_slash_cons: "CHR ''/'' \<notin> set x \<Longrightarrow> split_slash (x @ CHR ''/'' # y) = x # split_slash y"
  by (induction x) auto

lemma split_events_path:
  "CHR ''/'' \<notin> set d \<Longrightarrow> split_slash (''/v1/devices/'' @ d @ ''/events'') = [[], ''v1'', ''devices'', d, ''events'']"
  using split_slash_cons [of d "''events''"] by simp

interpretation ref: fleet_endpoint "fleet_link L W base del" W base "\<lambda>sk d e. holds (stored_events (fst sk) d) e" for L W base del
proof
  fix r w p w1 d e
  assume "fleet_link L W base del r w = (p, w1)" "holds (stored_events (fst w) d) e"
  then show "holds (stored_events (fst w1) d) e"
    using fleet_link_steps [of L W base del r "fst w" "snd w" p "fst w1" "snd w1"] fleet_step_grows
    by (fastforce simp: holds_def)
next
  fix r w q w1 d
  assume T: "fleet_link L W base del r w = (Some q, w1)" and m: "cr_Method r = ''POST''" and st: "fr_Status q = 200"
    and d: "CHR ''/'' \<notin> set d" and u: "cr_URL r = base @ ''/v1/devices/'' @ d @ ''/events''"
  let ?r = "\<lparr>hq_Method = cr_Method r, hq_Path = drop (length base) (cr_URL r),
     hq_Authorization = cr_Authorization r, hq_Body = cr_Body r, hq_Broken = False\<rparr>"
  have "fleet_Handler L W (fst w) ?r = Some (Reply 200 (fr_Body q), fst w1)"
    using T st by (auto simp: fleet_link_def split: prod.splits if_splits option.splits reply.splits)
  then have "postEvents W (fst w) ?r d = Some (Reply 200 (fr_Body q), fst w1)"
    using m u split_events_path [OF d] by (simp add: fleet_Handler_def Let_def)
  then show "\<exists>n es. StrictJSON (wi_dec_events W) (take n (cr_Body r)) = Inr es \<and> (\<forall>e \<in> set es. holds (stored_events (fst w1) d) e)"
  proof (cases rule: postEvents_200)
    case (1 body events m acked)
    have "\<exists>n. body = take n (cr_Body r)"
      using 1(2) by (auto simp: ReadAll_limit_def split: if_splits intro: exI [of _ "length (cr_Body r)"])
    with 1(3,9) insert_events_holds [OF 1(6)] show ?thesis by auto
  qed
qed

text \<open>
  C26. No event is lost: over a link that may lose requests and responses, an event that was in the
  outbox before a synchronisation is in the outbox afterwards, or the reference server has stored an event with
  its sequence number, job and state for this device.
\<close>

theorem fleet_no_event_lost:
  assumes "reachable A en" "wire_ok W" "is_identifier (cfg_DeviceID (fl_Config F))"
    and "\<And>i x. set (db_Events (data_of x)) \<subseteq> set (db_Events (data_of (during i x)))"
    and "Sync A W P (fleet_link L W (trim_right_slash (cfg_FleetURL (fl_Config F))) del) F busy during started finished en (s, k) = (eo, en1, s1, k1)"
    and "e \<in> set (db_Events (data_of en))"
  shows "e \<in> set (db_Events (data_of en1)) \<or> holds (stored_events s1 (cfg_DeviceID (fl_Config F))) e"
proof -
  have "sorted_wrt (<) (map ev_Sequence (db_Events (data_of en)))"
    using reachable_store_ok [OF assms(1)] by (simp add: store_ok_def good_db_def journal_ok_def events_ok_def)
  moreover have "CHR ''/'' \<notin> set (cfg_DeviceID (fl_Config F))"
    using plain_identifier [OF assms(3)] by (simp add: plain_def)
  ultimately show ?thesis
    using ref.sync_loses_nothing [OF assms(5) _ assms(2) refl _ assms(4,6)] by simp
qed

lemma sample_wire_ok: "wire_ok sample_wire"
  by (auto simp: wire_ok_def sample_wire_def sample_enc_events_def sample_dec_events_def StrictJSON_def take_Cons'
      split: if_splits sum.splits prod.splits)

theorem fleet_no_event_lost_witness:
  "\<exists>eo en1 s1 k1. Sync sample_agent sample_wire sample_fleet_url
       (fleet_link sample_lib sample_wire (trim_right_slash (cfg_FleetURL (fl_Config sample_fleet))) (\<lambda>_. Delivered))
       sample_fleet False (\<lambda>_. id) 0 0 sample_busy_engine (sample_server, 0) = (eo, en1, s1, k1)
     \<and> sample_event 1 Accepted \<in> set (db_Events (data_of sample_busy_engine))
     \<and> db_Events (data_of en1) = [] \<and> holds (stored_events s1 ''d1'') (sample_event 1 Accepted)"
proof -
  let ?T = "fleet_link sample_lib sample_wire (trim_right_slash (cfg_FleetURL (fl_Config sample_fleet))) (\<lambda>_. Delivered)"
  let ?y = "Sync sample_agent sample_wire sample_fleet_url ?T sample_fleet False (\<lambda>_. id) 0 0 sample_busy_engine (sample_server, 0)"
  obtain eo en1 s1 k1 where y: "?y = (eo, en1, s1, k1)" by (metis prod_cases4)
  have ev: "db_Events (data_of sample_busy_engine) = [sample_event 1 Accepted]" by code_simp
  have "db_Events (data_of (fst (snd ?y))) = []" by code_simp
  with y have gone: "db_Events (data_of en1) = []" by simp
  have "is_identifier (cfg_DeviceID (fl_Config sample_fleet))" by code_simp
  from fleet_no_event_lost [OF sample_busy_reachable sample_wire_ok this _ y] ev gone
  have "holds (stored_events s1 ''d1'') (sample_event 1 Accepted)" by (auto simp: sample_fleet_def)
  with y ev gone show ?thesis by auto
qed

end
