(* ===== verification/OTA_Config.thy ===== *)
theory OTA_Config
  imports OTA_Sample
begin

text \<open>
  What \<open>Config.Validate\<close> guarantees for the schedule of downloads (\<open>internal/ota/model.go\<close>): the
  delay that spreads a fleet, and the window of the day in which a download may run.
\<close>

section \<open>Delay and window\<close>

definition sample_valid_config :: Config where
  "sample_valid_config = sample_config\<lparr>cfg_Checks := [\<lparr>chk_Kind = ''file'', chk_Target = ''/s/ok'', chk_Name = ''ok''\<rparr>],
     cfg_DownloadJitterSeconds := 30, cfg_DownloadWindowStart := ''22:00'', cfg_DownloadWindowEnd := ''06:00'',
     cfg_MaxArtifactBytes := 1048576, cfg_ReserveBytes := 1048576\<rparr>"

definition no_urls :: url_parser where
  "no_urls u = None"

lemma sample_valid: "Validate no_urls sample_valid_config = None"
  by code_simp

text \<open>
  The download delay stays within what is configured: for a configuration that \<open>Validate\<close>
  accepts, the delay of a device is a whole number of seconds, at least 0 and at most the configured
  jitter, so at most one hour; the 32-bit remainder does not wrap.
\<close>

theorem download_jitter_bounds:
  assumes "Validate parse c = None"
  shows "0 \<le> DownloadJitter c \<and> DownloadJitter c \<le> seconds (cfg_DownloadJitterSeconds c)
    \<and> DownloadJitter c \<le> seconds 3600 \<and> seconds 1 dvd DownloadJitter c"
proof -
  let ?n = "cfg_DownloadJitterSeconds c"
  have n: "?n \<le> 3600" using Validate_bounds [OF assms] by simp
  show ?thesis
  proof (cases "?n \<le> 0")
    case True
    then show ?thesis using Validate_bounds [OF assms] by (simp add: DownloadJitter_def seconds_def)
  next
    case False
    with n have "uint (fnv32a (cfg_DeviceID c) mod (word_of_int (?n + 1) :: u32)) \<le> ?n"
      by (intro uint32_mod_le) auto
    with False n show ?thesis by (auto simp: DownloadJitter_def seconds_def)
  qed
qed

theorem download_jitter_bounds_witness:
  "DownloadJitter sample_valid_config \<le> seconds 30"
  using download_jitter_bounds [OF sample_valid] by (simp add: sample_valid_config_def)

definition minute_of :: "string \<Rightarrow> int" where
  "minute_of v = (case parseClock v of Inr (h, m) \<Rightarrow> h * 60 + m | Inl e \<Rightarrow> 0)"

lemma cyclic_window:
  fixes cur s e :: int
  assumes "0 \<le> cur" "cur < 1440" "0 \<le> s" "s < 1440" "0 \<le> e" "e < 1440"
  shows "(if s \<le> e then s \<le> cur \<and> cur < e else s \<le> cur \<or> cur < e) \<longleftrightarrow> (cur - s) mod 1440 < (e - s) mod 1440"
proof -
  have m: "(x - s) mod 1440 = (if s \<le> x then x - s else x - s + 1440)" if "0 \<le> x" "x < 1440" for x
  proof (cases "s \<le> x")
    case True
    with assms that show ?thesis by simp
  next
    case False
    have "(x - s) mod 1440 = (x - s + 1440) mod 1440" by simp
    also have "\<dots> = x - s + 1440" using False assms that by (intro mod_pos_pos_trivial) auto
    finally show ?thesis using False by simp
  qed
  show ?thesis using m [OF assms(1,2)] m [OF assms(5,6)] assms by auto
qed

text \<open>
  C34. The download window is a cyclic interval: for a configuration that \<open>Validate\<close> accepts, a
  download is allowed at a local minute of the day exactly when no window is set, or when the minute lies
  within the window counted from its start around midnight. A window whose start equals its end is
  never open.
\<close>

theorem download_window_cyclic:
  assumes "Validate parse c = None" "0 \<le> local_minute now" "local_minute now < 1440"
  shows "DownloadAllowed local_minute c now = None \<longleftrightarrow> cfg_DownloadWindowStart c = []
    \<or> (local_minute now - minute_of (cfg_DownloadWindowStart c)) mod 1440
       < (minute_of (cfg_DownloadWindowEnd c) - minute_of (cfg_DownloadWindowStart c)) mod 1440"
proof (cases "cfg_DownloadWindowStart c = []")
  case True
  then show ?thesis by (simp add: DownloadAllowed_def)
next
  case False
  have "validate_window c = None" using assms(1) by (simp add: Validate_def first_error_None)
  with False obtain sh sm eh em where p: "parseClock (cfg_DownloadWindowStart c) = Inr (sh, sm)" "parseClock (cfg_DownloadWindowEnd c) = Inr (eh, em)"
    by (auto simp: validate_window_def split: if_splits sum.splits)
  note r = parseClock_range [OF p(1)] parseClock_range [OF p(2)]
  have "(if sh * 60 + sm \<le> eh * 60 + em then sh * 60 + sm \<le> local_minute now \<and> local_minute now < eh * 60 + em
      else sh * 60 + sm \<le> local_minute now \<or> local_minute now < eh * 60 + em) \<longleftrightarrow>
      (local_minute now - (sh * 60 + sm)) mod 1440 < (eh * 60 + em - (sh * 60 + sm)) mod 1440"
    by (rule cyclic_window) (use assms(2,3) r in auto)
  with False p show ?thesis by (simp add: DownloadAllowed_def minute_of_def Let_def)
qed

theorem download_window_cyclic_witness:
  "DownloadAllowed (\<lambda>_. 100) sample_valid_config 0 = None \<and> DownloadAllowed (\<lambda>_. 400) sample_valid_config 0 \<noteq> None"
proof -
  have "minute_of ''22:00'' = 1320" "minute_of ''06:00'' = 360" by code_simp+
  with download_window_cyclic [OF sample_valid, of "\<lambda>_. 100" 0] download_window_cyclic [OF sample_valid, of "\<lambda>_. 400" 0] show ?thesis
    by (simp add: sample_valid_config_def)
qed

end
