(* ===== verification/OTA_Export.thy ===== *)
theory OTA_Export
  imports OTA_Observe OTA_Text OTA_Sample "HOL-Library.Sublist"
begin

text \<open>
  The exporter of spans (\<open>OTLPExporter\<close> in \<open>internal/ota/trace.go\<close>): its payload, the HTTP exchange with the collector, the
  goroutine that empties the channel, and closing. The engine's side of the channel is \<open>Export\<close> of \<open>OTA_Observe\<close>. The JSON
  encoder, \<open>http.NewRequest\<close> and the collector are arguments.
\<close>

section \<open>The payload\<close>

text \<open>Values of type \<open>any\<close> as they are handed to \<open>json.Marshal\<close>; an object lists its members in the order of the source.\<close>

datatype json = JStr string | JNum int | JArr "json list" | JObj "(string \<times> json) list"

text \<open>
  \<open>UnixNano\<close> counts from 1970 in a signed 64-bit word; the zero instant, year 1, is printed as 0.
\<close>

definition unix_epoch :: time where
  "unix_epoch = seconds 62135596800"

definition UnixNano :: "time \<Rightarrow> int" where
  "UnixNano t = sint (word_of_int (t - unix_epoch) :: 64 word)"

definition unixNano :: "time \<Rightarrow> string" where
  "unixNano t = (if t = 0 then ''0'' else FormatInt (UnixNano t))"

definition attr_json :: "string \<times> string \<Rightarrow> json" where
  "attr_json kv = JObj [(''key'', JStr (fst kv)), (''value'', JObj [(''stringValue'', JStr (snd kv))])]"

definition attrs_json :: "(string \<times> string) list \<Rightarrow> json" where
  "attrs_json attrs = JArr (map attr_json (otlpAttrs attrs))"

definition span_json :: "Span \<Rightarrow> json" where
  "span_json s = JObj (
     [(''traceId'', JStr (sp_TraceID s)), (''spanId'', JStr (sp_SpanID s)), (''name'', JStr (sp_Name s)), (''kind'', JNum 1),
      (''startTimeUnixNano'', JStr (unixNano (sp_Start s))), (''endTimeUnixNano'', JStr (unixNano (sp_End s))),
      (''attributes'', attrs_json (sp_Attrs s)), (''status'', JObj [(''code'', JNum (if sp_Error s then 2 else 1))])]
     @ (if sp_ParentID s \<noteq> [] then [(''parentSpanId'', JStr (sp_ParentID s))] else []))"

definition otlpPayload :: "Span \<Rightarrow> json" where
  "otlpPayload s = JObj [(''resourceSpans'', JArr [JObj
     [(''resource'', JObj [(''attributes'', attrs_json [(''service.name'', ''zyvor-otad'')])]),
      (''scopeSpans'', JArr [JObj
         [(''scope'', JObj [(''name'', JStr ''github.com/zyvorai/ota'')]),
          (''spans'', JArr [span_json s])]])]])]"

section \<open>The exporter\<close>

record otlp_request =
  oq_URL :: string
  oq_ContentType :: string
  oq_Authorization :: string
  oq_Body :: bytes

datatype otlp_reply = OtlpRedirect | OtlpStatus int

record 's otlp_env =
  oe_Marshal :: "json \<Rightarrow> bytes result"
  oe_url_ok :: "string \<Rightarrow> bool"
  oe_Do :: "otlp_request \<Rightarrow> 's \<Rightarrow> otlp_reply option \<times> 's"

record OTLPExporter =
  ox_endpoint :: string
  ox_token :: string
  ox_spans :: "Span list"
  ox_closed :: bool
  ox_done :: bool

definition NewOTLPExporter :: "url_parser \<Rightarrow> Config \<Rightarrow> fs \<Rightarrow> OTLPExporter result" where
  "NewOTLPExporter parse c f =
     (case validateOTLP parse c of Some e \<Rightarrow> Inl e
      | None \<Rightarrow>
      if cfg_OTLPEndpoint c = [] then Inl (Err ''otlp_endpoint is empty'')
      else (case (if cfg_OTLPTokenFile c = [] then Inr []
                  else case os_ReadFile f (abs_path (cfg_OTLPTokenFile c)) of
                    Inl e \<Rightarrow> Inl e
                  | Inr b \<Rightarrow> if TrimSpace b = [] then Inl (Err ''empty otlp token'') else Inr (TrimSpace b)) of
          Inl e \<Rightarrow> Inl e
        | Inr token \<Rightarrow> Inr \<lparr>ox_endpoint = cfg_OTLPEndpoint c, ox_token = token, ox_spans = [], ox_closed = False, ox_done = False\<rparr>))"

text \<open>
  \<open>post\<close>: a redirect is an error of \<open>Do\<close>, because \<open>CheckRedirect\<close> returns one.
\<close>

definition otlp_post :: "'s otlp_env \<Rightarrow> OTLPExporter \<Rightarrow> Span \<Rightarrow> 's \<Rightarrow> error option \<times> 's" where
  "otlp_post E e s w =
     (case oe_Marshal E (otlpPayload s) of Inl err \<Rightarrow> (Some err, w)
      | Inr body \<Rightarrow>
          if \<not> oe_url_ok E (tracesURL (ox_endpoint e)) then (Some (Err ''parse URL''), w)
          else (case oe_Do E \<lparr>oq_URL = tracesURL (ox_endpoint e), oq_ContentType = ''application/json'',
                     oq_Authorization = (if ox_token e \<noteq> [] then ''Bearer '' @ ox_token e else []), oq_Body = body\<rparr> w of
              (None, w1) \<Rightarrow> (Some (Err ''request failed''), w1)
            | (Some OtlpRedirect, w1) \<Rightarrow> (Some (Err ''otlp redirects forbidden''), w1)
            | (Some (OtlpStatus n), w1) \<Rightarrow> (if n \<ge> 300 then Some (Err ''otlp status'') else None, w1)))"

text \<open>
  The channel operations: sending to or closing a closed channel panics, which is \<open>None\<close> here.
\<close>

definition otlp_Export :: "Span \<Rightarrow> OTLPExporter \<Rightarrow> OTLPExporter option" where
  "otlp_Export s e = (if ox_closed e then None else Some (e\<lparr>ox_spans := Export s (ox_spans e)\<rparr>))"

definition otlp_close :: "OTLPExporter \<Rightarrow> OTLPExporter option" where
  "otlp_close e = (if ox_closed e then None else Some (e\<lparr>ox_closed := True\<rparr>))"

text \<open>
  One turn of \<open>loop\<close>: it takes the oldest span and posts it, whatever comes of that; on an empty channel it waits,
  or, when the channel is closed, ends and closes \<open>done\<close>.
\<close>

datatype otlp_event = Offered Span | Posted Span "error option" | Closed | Ended

definition otlp_turn :: "'s otlp_env \<Rightarrow> OTLPExporter \<Rightarrow> 's \<Rightarrow> (otlp_event \<times> OTLPExporter \<times> 's) option" where
  "otlp_turn E e w =
     (if ox_done e then None
      else case ox_spans e of
        s # rest \<Rightarrow> (case otlp_post E e s w of (eo, w1) \<Rightarrow> Some (Posted s eo, e\<lparr>ox_spans := rest\<rparr>, w1))
      | [] \<Rightarrow> if ox_closed e then Some (Ended, e\<lparr>ox_done := True\<rparr>, w) else None)"

text \<open>
  The goroutine beside the engine and \<open>Shutdown\<close>, as labelled runs. The loop keeps no lock, so a span may be offered between
  any two of its turns.
\<close>

inductive otlp_run :: "'s otlp_env \<Rightarrow> OTLPExporter \<Rightarrow> 's \<Rightarrow> otlp_event list \<Rightarrow> OTLPExporter \<Rightarrow> 's \<Rightarrow> bool" for E e w where
  begin_run: "otlp_run E e w [] e w"
| offer: "otlp_run E e w tr e1 w1 \<Longrightarrow> otlp_Export s e1 = Some e2 \<Longrightarrow> otlp_run E e w (tr @ [Offered s]) e2 w1"
| turn: "otlp_run E e w tr e1 w1 \<Longrightarrow> otlp_turn E e1 w1 = Some (ev, e2, w2) \<Longrightarrow> otlp_run E e w (tr @ [ev]) e2 w2"
| close: "otlp_run E e w tr e1 w1 \<Longrightarrow> otlp_close e1 = Some e2 \<Longrightarrow> otlp_run E e w (tr @ [Closed]) e2 w1"

fun offered :: "otlp_event list \<Rightarrow> Span list" where
  "offered [] = []"
| "offered (Offered s # tr) = s # offered tr"
| "offered (_ # tr) = offered tr"

fun posted_spans :: "otlp_event list \<Rightarrow> Span list" where
  "posted_spans [] = []"
| "posted_spans (Posted s eo # tr) = s # posted_spans tr"
| "posted_spans (_ # tr) = posted_spans tr"

lemma offered_append [simp]: "offered (tr @ tr') = offered tr @ offered tr'"
  by (induction tr rule: offered.induct) auto

lemma posted_append [simp]: "posted_spans (tr @ tr') = posted_spans tr @ posted_spans tr'"
  by (induction tr rule: posted_spans.induct) auto

section \<open>What the collector sees\<close>

definition otlp_inv :: "otlp_event list \<Rightarrow> OTLPExporter \<Rightarrow> bool" where
  "otlp_inv tr e \<longleftrightarrow> subseq (posted_spans tr @ ox_spans e) (offered tr) \<and> length (ox_spans e) \<le> 32
     \<and> (ox_done e \<longrightarrow> ox_closed e \<and> ox_spans e = [])
     \<and> (length (offered tr) \<le> 32 \<longrightarrow> posted_spans tr @ ox_spans e = offered tr)"

lemma otlp_inv_offer:
  assumes "otlp_inv tr e" "otlp_Export s e = Some e1"
  shows "otlp_inv (tr @ [Offered s]) e1"
proof -
  have e1: "\<not> ox_closed e" "e1 = e\<lparr>ox_spans := Export s (ox_spans e)\<rparr>" using assms(2) by (auto simp: otlp_Export_def split: if_splits)
  have "subseq ((posted_spans tr @ ox_spans e) @ [s]) (offered tr @ [s])"
    by (rule list_emb_append_mono) (use assms(1) in \<open>simp_all add: otlp_inv_def\<close>)
  moreover have "subseq (posted_spans tr @ ox_spans e) (offered tr @ [s])"
    using assms(1) by (auto simp: otlp_inv_def intro: list_emb_append2)
  moreover have "length (ox_spans e) < 32" if "length (offered tr) < 32"
  proof -
    have "posted_spans tr @ ox_spans e = offered tr" using assms(1) that by (simp add: otlp_inv_def)
    from arg_cong [OF this, of length] that show ?thesis by simp
  qed
  ultimately show ?thesis using assms(1) e1 by (auto simp: otlp_inv_def Export_def)
qed

lemma otlp_inv_turn:
  assumes "otlp_inv tr e" "otlp_turn E e w = Some (ev, e1, w1)"
  shows "otlp_inv (tr @ [ev]) e1"
  using assms by (auto simp: otlp_turn_def otlp_inv_def split: if_splits list.splits prod.splits)

lemma otlp_run_inv:
  assumes "otlp_run E e w tr e1 w1" "ox_spans e = []" "\<not> ox_done e"
  shows "otlp_inv tr e1"
  using assms(1)
proof (induction rule: otlp_run.induct)
  case begin_run
  show ?case using assms(2,3) by (simp add: otlp_inv_def)
next
  case (close tr e1 w1 e2)
  then show ?case by (auto simp: otlp_close_def otlp_inv_def split: if_splits)
qed (auto intro: otlp_inv_offer otlp_inv_turn)

lemma otlp_drain:
  assumes "otlp_run E e w tr e1 w1" "ox_closed e1" "\<not> ox_done e1"
  shows "\<exists>tr' e2 w2. otlp_run E e w (tr @ tr') e2 w2 \<and> ox_done e2 \<and> length tr' = Suc (length (ox_spans e1))
    \<and> posted_spans tr' = ox_spans e1 \<and> offered tr' = []"
  using assms
proof (induction "ox_spans e1" arbitrary: tr e1 w1)
  case Nil
  have "otlp_turn E e1 w1 = Some (Ended, e1\<lparr>ox_done := True\<rparr>, w1)" using Nil by (simp add: otlp_turn_def)
  from otlp_run.turn [OF Nil(2) this] Nil(1) show ?case by (intro exI [of _ "[Ended]"]) auto
next
  case (Cons s rest)
  obtain eo w2 where "otlp_post E e1 s w1 = (eo, w2)" by fastforce
  then have "otlp_turn E e1 w1 = Some (Posted s eo, e1\<lparr>ox_spans := rest\<rparr>, w2)"
    using Cons(2,5) by (simp add: otlp_turn_def Cons(2) [symmetric])
  note t = otlp_run.turn [OF Cons(3) this]
  obtain tr' e3 w3 where "otlp_run E e w ((tr @ [Posted s eo]) @ tr') e3 w3" "ox_done e3" "length tr' = Suc (length rest)"
    "posted_spans tr' = rest" "offered tr' = []"
    using Cons(1) [OF _ t] Cons(4,5) by auto
  then show ?case by (intro exI [of _ "Posted s eo # tr'"]) (auto simp: Cons(2) [symmetric])
qed


definition sample_otlp_parse :: url_parser where
  "sample_otlp_parse u = Some \<lparr>url_Scheme = ''https'', url_HasUser = False, url_Host = ''c'', url_Hostname = ''c'', url_Path = [],
     url_RawQuery = [], url_Fragment = []\<rparr>"

definition sample_otlp_config :: Config where
  "sample_otlp_config = sample_config\<lparr>cfg_OTLPEndpoint := ''https://c/'', cfg_OTLPTokenFile := []\<rparr>"

definition sample_exporter :: OTLPExporter where
  "sample_exporter = \<lparr>ox_endpoint = ''https://c/'', ox_token = [], ox_spans = [], ox_closed = False, ox_done = False\<rparr>"

definition sample_span :: Span where
  "sample_span = \<lparr>sp_TraceID = ''t'', sp_SpanID = ''s'', sp_ParentID = [], sp_Name = ''ota.X'', sp_Start = 1, sp_End = 2, sp_Attrs = [], sp_Error = False\<rparr>"

definition sample_otlp_env :: "otlp_request list otlp_env" where
  "sample_otlp_env = \<lparr>oe_Marshal = (\<lambda>_. Inr ''{}''), oe_url_ok = (\<lambda>_. True), oe_Do = (\<lambda>q w. (Some (OtlpStatus 200), w @ [q]))\<rparr>"


end
