(* ===== verification/OTA_Shutdown.thy ===== *)
theory OTA_Shutdown
  imports OTA_Export
begin

text \<open>
  How the daemon opens its socket (\<open>ListenUnix\<close> in \<open>internal/ota/api.go\<close>) and how it stops (the end of \<open>run\<close> in
  \<open>cmd/zyvor-otad/main.go\<close>): the HTTP server is shut down with a time limit, the workers are waited for, and then the channel
  of the span exporter is closed.
\<close>

section \<open>Opening the socket\<close>

text \<open>
  Which special files are sockets, whether somebody answers there, and the outcome of \<open>net.Listen\<close> and \<open>os.Chmod\<close>.
\<close>

record socket_env =
  sk_IsSocket :: "path \<Rightarrow> bool"
  sk_Dial :: "path \<Rightarrow> error option"
  sk_Listen :: "path \<Rightarrow> error option"
  sk_Chmod :: "path \<Rightarrow> error option"

definition os_Lstat :: "fs \<Rightarrow> path \<Rightarrow> node result" where
  "os_Lstat f p = (case fault f (IoStat p) of Some e \<Rightarrow> Inl e
     | None \<Rightarrow> (case node_at f p of None \<Rightarrow> Inl ErrNotExist | Some n \<Rightarrow> Inr n))"

text \<open>Binding creates the socket's file and fails on an existing one; closing the listener removes it.\<close>

definition listen_at :: "socket_env \<Rightarrow> path \<Rightarrow> fs \<Rightarrow> error option \<times> fs" where
  "listen_at S p f =
     (if node_at f p \<noteq> None then (Some (Err ''bind: address already in use''), f)
      else case sk_Listen S p of Some e \<Rightarrow> (Some e, f)
      | None \<Rightarrow> (let f1 = put_node p Special f in
          case sk_Chmod S p of Some e \<Rightarrow> (Some e, del_node p f1) | None \<Rightarrow> (None, f1)))"

definition ListenUnix :: "socket_env \<Rightarrow> string \<Rightarrow> fs \<Rightarrow> error option \<times> fs" where
  "ListenUnix S name f =
     (let p = abs_path name in
      case os_MkdirAll (butlast p) f of (Some e, f1) \<Rightarrow> (Some e, f1)
      | (None, f1) \<Rightarrow> (case os_Lstat f1 p of
          Inr n \<Rightarrow>
            if \<not> (n = Special \<and> sk_IsSocket S p) then (Some (Err ''refusing to replace non-socket path''), f1)
            else if sk_Dial S p = None then (Some (Err ''socket already in use''), f1)
            else (case os_Remove p f1 of (Some e, f2) \<Rightarrow> (Some e, f2) | (None, f2) \<Rightarrow> listen_at S p f2)
        | Inl e \<Rightarrow> if \<not> IsNotExist e then (Some e, f1) else listen_at S p f1))"

lemma listen_at_keeps: "listen_at S p f = (eo, f1) \<Longrightarrow> node_at f q = Some n \<Longrightarrow> node_at f1 q = Some n"
  by (auto simp: listen_at_def node_at_put node_at_del Let_def split: if_splits option.splits)

lemma Remove_keeps: "os_Remove p f = (eo, f1) \<Longrightarrow> node_at f q = Some n \<Longrightarrow> q \<noteq> p \<Longrightarrow> node_at f1 q = Some n"
  by (auto simp: os_Remove_def node_at_del split: if_splits option.splits node.splits)

text \<open>
  The daemon never takes a path away from anybody: whatever \<open>ListenUnix\<close> finds and whatever fails, every existing file stays as
  it was, except a socket at the path itself that nobody answers on; and when it reports success the path is a socket.
\<close>

theorem listen_replaces_only_dead_sockets:
  assumes "ListenUnix S name f = (eo, f1)"
  shows "(node_at f q = Some n \<longrightarrow> node_at f1 q = Some n \<or> q = abs_path name \<and> n = Special \<and> sk_IsSocket S q \<and> sk_Dial S q \<noteq> None)
    \<and> (eo = None \<longrightarrow> abs_path name \<noteq> [] \<longrightarrow> node_at f1 (abs_path name) = Some Special)"
proof -
  let ?p = "abs_path name"
  obtain eo0 f0 where mk: "os_MkdirAll (butlast ?p) f = (eo0, f0)" by fastforce
  note keep0 = MkdirAll_keeps [OF mk]
  have bound: "node_at f2 ?p = Some Special" if "listen_at S ?p f' = (None, f2)" "?p \<noteq> []" for f' f2
    using that by (auto simp: listen_at_def node_at_put Let_def split: if_splits option.splits)
  consider "eo \<noteq> None" "f1 = f0" | e where "eo0 = None" "os_Lstat f0 ?p = Inl e" "listen_at S ?p f0 = (eo, f1)"
    | f2 where "eo0 = None" "os_Lstat f0 ?p = Inr Special" "sk_IsSocket S ?p" "sk_Dial S ?p \<noteq> None" "os_Remove ?p f0 = (None, f2)" "listen_at S ?p f2 = (eo, f1)"
    | "eo \<noteq> None" "os_Lstat f0 ?p = Inr Special" "sk_IsSocket S ?p" "sk_Dial S ?p \<noteq> None" "os_Remove ?p f0 = (eo, f1)"
    using assms mk by (auto simp: ListenUnix_def Let_def split: prod.splits option.splits sum.splits if_splits)
  then show ?thesis
  proof cases
    case 1
    with keep0 show ?thesis by blast
  next
    case (2 e)
    with keep0 listen_at_keeps [OF 2(3)] bound show ?thesis by blast
  next
    case (3 f2)
    then have sp: "node_at f0 ?p = Some Special" by (auto simp: os_Lstat_def split: option.splits)
    have "node_at f1 q = Some n" if "node_at f q = Some n" "q \<noteq> ?p"
      using listen_at_keeps [OF 3(6)] Remove_keeps [OF 3(5)] keep0 that by blast
    with 3 sp keep0 bound show ?thesis by (metis option.inject)
  next
    case 4
    then have sp: "node_at f0 ?p = Some Special" by (auto simp: os_Lstat_def split: option.splits)
    with 4 Remove_keeps [OF 4(5)] keep0 show ?thesis by (metis option.inject)
  qed
qed

definition sample_sockets :: socket_env where
  "sample_sockets = \<lparr>sk_IsSocket = (\<lambda>_. True), sk_Dial = (\<lambda>_. Some (Err ''refused'')), sk_Listen = (\<lambda>_. None), sk_Chmod = (\<lambda>_. None)\<rparr>"

definition sample_run_fs :: fs where
  "sample_run_fs = \<lparr>fs_nodes = [([''run''], Directory), ([''run'', ''a.sock''], Special), ([''run'', ''b''], RegFile ''x'')], fs_fault = (\<lambda>_. None),
     fs_partial = (\<lambda>_. 0), fs_bavail = (\<lambda>_. 100), fs_bsize = 1\<rparr>"

theorem listen_replaces_only_dead_sockets_witness:
  "\<exists>f1. ListenUnix sample_sockets ''/run/a.sock'' sample_run_fs = (None, f1) \<and> node_at f1 [''run'', ''a.sock''] = Some Special
     \<and> node_at f1 [''run'', ''b''] = Some (RegFile ''x'')"
proof -
  let ?l = "ListenUnix sample_sockets ''/run/a.sock'' sample_run_fs"
  have "fst ?l = None" by code_simp
  then obtain f1 where l: "?l = (None, f1)" by (metis prod.collapse)
  have p: "abs_path ''/run/a.sock'' = [''run'', ''a.sock'']" by code_simp
  have "node_at sample_run_fs [''run'', ''b''] = Some (RegFile ''x'')" by code_simp
  with listen_replaces_only_dead_sockets [OF l, of "[''run'', ''b'']" "RegFile ''x''"] l show ?thesis by (simp add: p)
qed

section \<open>Stopping\<close>

text \<open>
  What happens beside \<open>run\<close> once everything is started: handlers of the API in flight, the two workers, the exporter; and how far
  \<open>run\<close> itself is. The exporter is absent when no endpoint is configured.
\<close>

datatype phase = Serving | StoppingServer | WaitingWorkers | ClosingSpans | Exited

record run_state =
  rn_phase :: phase
  rn_cancelled :: bool
  rn_accepting :: bool
  rn_handlers :: nat
  rn_workers :: nat
  rn_timed_out :: bool
  rn_traces :: "OTLPExporter option"
  rn_err :: "error option"
  rn_panics :: nat

text \<open>
  A span from a handler or a worker; sending to the closed channel panics. \<open>net/http\<close> recovers the panic of a handler, which ends
  there; the panic of a worker would end the process.
\<close>

definition send_span :: "Span \<Rightarrow> run_state \<Rightarrow> run_state option" where
  "send_span sp s = (case rn_traces s of None \<Rightarrow> Some s
     | Some e \<Rightarrow> (case otlp_Export sp e of None \<Rightarrow> None | Some e1 \<Rightarrow> Some (s\<lparr>rn_traces := Some e1\<rparr>)))"

definition handler_sends :: "Span \<Rightarrow> run_state \<Rightarrow> run_state" where
  "handler_sends sp s = (case send_span sp s of Some s1 \<Rightarrow> s1 | None \<Rightarrow> s\<lparr>rn_handlers := rn_handlers s - 1, rn_panics := Suc (rn_panics s)\<rparr>)"

definition worker_sends :: "Span \<Rightarrow> run_state \<Rightarrow> run_state" where
  "worker_sends sp s = (case send_span sp s of Some s1 \<Rightarrow> s1 | None \<Rightarrow> s\<lparr>rn_phase := Exited, rn_workers := 0, rn_panics := Suc (rn_panics s)\<rparr>)"

definition close_traces :: "run_state \<Rightarrow> run_state" where
  "close_traces s = s\<lparr>rn_traces := (case rn_traces s of None \<Rightarrow> None | Some e \<Rightarrow> otlp_close e)\<rparr>"

definition run_started :: "nat \<Rightarrow> OTLPExporter option \<Rightarrow> run_state" where
  "run_started workers traces = \<lparr>rn_phase = Serving, rn_cancelled = False, rn_accepting = True, rn_handlers = 0, rn_workers = workers,
     rn_timed_out = False, rn_traces = traces, rn_err = None, rn_panics = 0\<rparr>"

inductive run_step :: "'s otlp_env \<Rightarrow> run_state \<Rightarrow> run_state \<Rightarrow> bool" for E where
  accepted: "rn_accepting s \<Longrightarrow> run_step E s (s\<lparr>rn_handlers := Suc (rn_handlers s)\<rparr>)"
| handler_span: "rn_handlers s > 0 \<Longrightarrow> run_step E s (handler_sends sp s)"
| handler_done: "rn_handlers s > 0 \<Longrightarrow> run_step E s (s\<lparr>rn_handlers := rn_handlers s - 1\<rparr>)"
| worker_span: "rn_workers s > 0 \<Longrightarrow> run_step E s (worker_sends sp s)"
| worker_done: "rn_workers s > 0 \<Longrightarrow> rn_cancelled s \<Longrightarrow> run_step E s (s\<lparr>rn_workers := rn_workers s - 1\<rparr>)"
| loop_turn: "rn_traces s = Some e \<Longrightarrow> otlp_turn E e w = Some (ev, e1, w1) \<Longrightarrow> run_step E s (s\<lparr>rn_traces := Some e1\<rparr>)"
| signalled: "rn_phase s = Serving \<Longrightarrow> run_step E s (s\<lparr>rn_cancelled := True, rn_phase := StoppingServer, rn_accepting := False\<rparr>)"
| server_failed: "rn_phase s = Serving \<Longrightarrow>
    run_step E s (s\<lparr>rn_err := Some err, rn_cancelled := True, rn_phase := StoppingServer, rn_accepting := False\<rparr>)"
| server_stopped: "rn_phase s = StoppingServer \<Longrightarrow> rn_handlers s = 0 \<Longrightarrow> run_step E s (s\<lparr>rn_cancelled := True, rn_phase := WaitingWorkers\<rparr>)"
| server_timeout: "rn_phase s = StoppingServer \<Longrightarrow> run_step E s (s\<lparr>rn_cancelled := True, rn_phase := WaitingWorkers, rn_timed_out := True\<rparr>)"
| workers_gone: "rn_phase s = WaitingWorkers \<Longrightarrow> rn_workers s = 0 \<Longrightarrow> run_step E s (close_traces (s\<lparr>rn_phase := ClosingSpans\<rparr>))"
| exported: "rn_phase s = ClosingSpans \<Longrightarrow> run_step E s (s\<lparr>rn_phase := Exited\<rparr>)"

definition ErrServerClosed :: error where
  "ErrServerClosed = Err ''http: Server closed''"

definition run_result :: "run_state \<Rightarrow> error option" where
  "run_result s = (case rn_err s of None \<Rightarrow> None | Some e \<Rightarrow> if e = ErrServerClosed then None else Some (Err (''HTTP server: '' @ err_text e)))"

text \<open>
  The deferred calls, last one first: the socket's file is removed, closing the listener removes it again if it is there, and
  \<open>Store.Close\<close> closes the database and gives up the lock, whichever of them is open, reporting the first error.
\<close>

definition stop_socket :: "string \<Rightarrow> string \<Rightarrow> fs \<Rightarrow> fs" where
  "stop_socket simListen name f =
     (if simListen = [] then snd (os_Remove (abs_path name) (snd (os_Remove (abs_path name) f))) else f)"

definition Store_Close :: "error option option \<Rightarrow> error option option \<Rightarrow> error option" where
  "Store_Close db lock =
     (let err = (case db of None \<Rightarrow> None | Some r \<Rightarrow> r)
      in case lock of None \<Rightarrow> err | Some e \<Rightarrow> if err = None then e else err)"

text \<open>What \<open>ListenUnix\<close> created is gone after the process, so the next start finds no dead socket.\<close>

lemma listen_stop:
  assumes "ListenUnix S name f = (None, f1)" "abs_path name \<noteq> []" "fault f1 (IoRemove (abs_path name)) = None"
  shows "node_at (stop_socket [] name f1) (abs_path name) = None"
proof -
  have "node_at f1 (abs_path name) = Some Special"
    using assms(1,2) by (auto simp: ListenUnix_def listen_at_def node_at_put Let_def split: prod.splits option.splits sum.splits if_splits)
  then have r: "os_Remove (abs_path name) f1 = (None, del_node (abs_path name) f1)" using assms(3) by (simp add: os_Remove_def)
  then have "os_Remove (abs_path name) (del_node (abs_path name) f1) = (Some ErrNotExist, del_node (abs_path name) f1)"
    using assms(2,3) by (simp add: os_Remove_def node_at_del)
  with r assms(2) show ?thesis by (simp add: stop_socket_def node_at_del)
qed

definition shutdown_inv :: "run_state \<Rightarrow> bool" where
  "shutdown_inv s \<longleftrightarrow> (rn_phase s \<noteq> Serving \<longrightarrow> \<not> rn_accepting s \<and> rn_cancelled s)
     \<and> (rn_phase s \<in> {ClosingSpans, Exited} \<longrightarrow> rn_workers s = 0)
     \<and> ((\<exists>e. rn_traces s = Some e \<and> ox_closed e) \<longrightarrow> rn_phase s \<in> {ClosingSpans, Exited})
     \<and> (rn_phase s \<in> {WaitingWorkers, ClosingSpans, Exited} \<and> \<not> rn_timed_out s \<longrightarrow> rn_handlers s = 0)
     \<and> (rn_panics s > 0 \<longrightarrow> rn_timed_out s)"

lemma send_span_open:
  "send_span sp s = None \<Longrightarrow> \<exists>e. rn_traces s = Some e \<and> ox_closed e"
  "send_span sp s = Some s1 \<Longrightarrow> \<exists>t. s1 = s\<lparr>rn_traces := t\<rparr> \<and> (\<forall>e. t = Some e \<longrightarrow> (\<exists>e0. rn_traces s = Some e0 \<and> ox_closed e = ox_closed e0))"
  by (auto simp: send_span_def otlp_Export_def split: option.splits if_splits)

lemma shutdown_inv_step: "run_step E s s1 \<Longrightarrow> shutdown_inv s \<Longrightarrow> shutdown_inv s1"
proof (induction rule: run_step.induct)
  case (handler_span s sp)
  then show ?case using send_span_open [of sp s]
    by (cases "send_span sp s") (fastforce simp: shutdown_inv_def handler_sends_def)+
next
  case (worker_span s sp)
  then show ?case using send_span_open [of sp s]
    by (cases "send_span sp s") (fastforce simp: shutdown_inv_def worker_sends_def)+
next
  case (loop_turn s e w ev e1 w1)
  have "ox_closed e1 = ox_closed e"
    using loop_turn(2) by (auto simp: otlp_turn_def split: if_splits list.splits prod.splits)
  with loop_turn show ?case by (auto simp: shutdown_inv_def)
qed (auto simp: shutdown_inv_def close_traces_def)

text \<open>
  C39. The daemon stops in order: while a worker runs the channel of the exporter is open, so no span of a worker can hit a closed
  channel; when the process exits no worker runs any more; and unless the HTTP server's time limit passed with a request still
  in flight, nothing panics.
\<close>

theorem shutdown_in_order:
  assumes "NewOTLPExporter parse c f = Inr e" "(run_step E)\<^sup>*\<^sup>* (run_started n (Some e)) s"
  shows "(rn_workers s > 0 \<longrightarrow> (\<forall>sp. send_span sp s \<noteq> None)) \<and> (rn_phase s = Exited \<longrightarrow> rn_workers s = 0)
    \<and> (\<not> rn_timed_out s \<longrightarrow> rn_panics s = 0)"
proof -
  have "\<not> ox_closed e"
    using assms(1) by (auto simp: NewOTLPExporter_def split: option.splits if_splits sum.splits)
  then have "shutdown_inv (run_started n (Some e))" by (simp add: shutdown_inv_def run_started_def)
  with assms(2) have inv: "shutdown_inv s" by (induction rule: rtranclp_induct) (auto intro: shutdown_inv_step)
  have "send_span sp s \<noteq> None" if "rn_workers s > 0" for sp
    using send_span_open(1) [of sp s] inv that by (auto simp: shutdown_inv_def)
  then show ?thesis using inv by (auto simp: shutdown_inv_def)
qed


lemma sample_new_exporter: "NewOTLPExporter sample_otlp_parse sample_otlp_config f = Inr sample_exporter"
  by code_simp

theorem shutdown_in_order_witness:
  "send_span sample_span (run_started 2 (Some sample_exporter)) \<noteq> None"
proof -
  have "(run_step sample_otlp_env)\<^sup>*\<^sup>* (run_started 2 (Some sample_exporter)) (run_started 2 (Some sample_exporter))" by simp
  from shutdown_in_order [OF sample_new_exporter this] show ?thesis by (simp add: run_started_def)
qed


end
