(* ===== verification/OTA_Daemon.thy ===== *)
theory OTA_Daemon
  imports OTA_Fleet OTA_Api OTA_Config OTA_Shutdown
begin

text \<open>
  The daemon (\<open>cmd/zyvor-otad/main.go\<close>): the order of its start and the goroutines that share the
  engine afterwards. Every run of the daemon is an execution of the agent, so what is proved of
  executions holds of the program.
\<close>

section \<open>Starting\<close>

text \<open>
  What starting takes from outside: the decoder of the configuration, \<open>url.Parse\<close>, the answers to
  opening the journal, certificate files, the constructor of the backend that the configuration names
  (\<open>NewSimulator\<close> or \<open>NewRAUC\<close>), the host part of an address, the sockets, and whether listening on TCP works.
\<close>

record 'b daemon_env =
  de_dec_Config :: "Config decoder"
  de_parse :: url_parser
  de_open :: open_env
  de_tls :: tls
  de_backend :: "Config \<Rightarrow> 'b \<Rightarrow> error option \<times> 'b"
  de_SplitHost :: "string \<Rightarrow> string option"
  de_tcp :: "error option"
  de_sockets :: socket_env

record 'b daemon =
  dm_Config :: Config
  dm_store :: store
  dm_fs :: fs
  dm_dev :: 'b
  dm_otlp :: "OTLPExporter option"
  dm_fleet :: "Fleet option"

definition start_traces :: "url_parser \<Rightarrow> Config \<Rightarrow> fs \<Rightarrow> OTLPExporter option result" where
  "start_traces parse c f = (if cfg_OTLPEndpoint c = [] then Inr None
     else case NewOTLPExporter parse c f of Inl e \<Rightarrow> Inl e | Inr traces \<Rightarrow> Inr (Some traces))"

definition start_fleet :: "tls \<Rightarrow> Config \<Rightarrow> fs \<Rightarrow> Fleet option result" where
  "start_fleet T c f = (if cfg_FleetURL c = [] then Inr None
     else case NewFleet T c f of Inl e \<Rightarrow> Inl e | Inr fl \<Rightarrow> Inr (Some fl))"

definition start_listener :: "'b daemon_env \<Rightarrow> Config \<Rightarrow> string \<Rightarrow> fs \<Rightarrow> error option \<times> fs" where
  "start_listener E c simListen f =
     (if simListen = [] then ListenUnix (de_sockets E) (cfg_Socket c) f
      else if cfg_Backend c \<noteq> ''simulator'' \<or> de_SplitHost E simListen \<noteq> Some ''127.0.0.1''
      then (Some (Err ''simulation-listen requires simulator backend and 127.0.0.1''), f)
      else (de_tcp E, f))"

definition run_start :: "lib \<Rightarrow> 'b daemon_env \<Rightarrow> string \<Rightarrow> string \<Rightarrow> store \<Rightarrow> 'b \<Rightarrow> fs \<Rightarrow> 'b daemon result" where
  "run_start L E config simListen s0 dev f =
     (case os_ReadFile f (abs_path config) of Inl e \<Rightarrow> Inl e
      | Inr b \<Rightarrow> (case StrictJSON (de_dec_Config E) b of Inl e \<Rightarrow> Inl e
      | Inr c \<Rightarrow> (case Validate (de_parse E) c of Some e \<Rightarrow> Inl e
      | None \<Rightarrow> (case OpenStore L (cfg_StateDir c) (de_open E) s0 f of (Some e, _, _) \<Rightarrow> Inl e
      | (None, s, f1) \<Rightarrow> (case de_backend E c dev of (Some e, _) \<Rightarrow> Inl e
      | (None, dev1) \<Rightarrow> (case start_traces (de_parse E) c f1 of Inl e \<Rightarrow> Inl e
      | Inr traces \<Rightarrow> (case start_fleet (de_tls E) c f1 of Inl e \<Rightarrow> Inl e
      | Inr fleet \<Rightarrow> (case start_listener E c simListen f1 of (Some e, _) \<Rightarrow> Inl e
      | (None, f2) \<Rightarrow> Inr \<lparr>dm_Config = c, dm_store = s, dm_fs = f2, dm_dev = dev1, dm_otlp = traces, dm_fleet = fleet\<rparr>))))))))"

definition activeIDs :: "'b engine \<Rightarrow> string \<times> string \<times> string" where
  "activeIDs en = (let d = View (en_store en) in
     case map_of (db_Jobs d) (db_Active d) of
       None \<Rightarrow> ([], [], [])
     | Some j \<Rightarrow> (asg_JobID (job_Assignment j), rel_ID (job_Release j), asg_CampaignID (job_Assignment j)))"

section \<open>Running\<close>

text \<open>
  The goroutines of \<open>run\<close>: the ticker that calls \<open>Step\<close>, the one that calls \<open>Sync\<close>, and the HTTP server, all
  on one engine, beside changes of the outside world and restarts. The handlers that run while a
  \<open>Sync\<close> waits for the network are themselves such steps. A server is a function of the request and of the
  number \<open>w\<close> of the exchange, which gives every sequence of replies.
\<close>

inductive daemon_step :: "'b agent \<Rightarrow> 'b engine \<Rightarrow> 'b engine \<Rightarrow> bool" for A where
  ticked: "Step A en = (eo, en1) \<Longrightarrow> daemon_step A en en1"
| synced: "(\<And>i x. (daemon_step A)\<^sup>*\<^sup>* x (during i x)) \<Longrightarrow>
    Sync A W P (T :: nat transport) F busy during started finished en w = (eo, en1, w1) \<Longrightarrow> daemon_step A en en1"
| asked: "api_Handler A version Q busy r en = (rep, en1) \<Longrightarrow> daemon_step A en en1"
| elsewhere: "en_store en1 = en_store en \<Longrightarrow> daemon_step A en en1"
| restarted: "os_ReadFile (en_fs en) (legacy_path (sdir A)) = Inl ErrNotExist \<Longrightarrow>
    load (ag_lib A) (sdir A) None (fresh_store (en_store en)) (en_fs en) = (None, s1, f1) \<Longrightarrow>
    daemon_step A en (en\<lparr>en_store := s1, en_fs := f1, en_healthySince := 0, en_stats := zero_Stats, en_queue := []\<rparr>)"
  monos rtranclp_mono

lemma daemon_step_agent: "daemon_step A en en1 \<Longrightarrow> (agent_step A)\<^sup>*\<^sup>* en en1"
proof (induction rule: daemon_step.induct)
  case (ticked en eo en1)
  then show ?case by (auto intro: stepped)
next
  case (synced during W P T F busy started finished en w eo en1 w1)
  have "(agent_step A)\<^sup>*\<^sup>* x (during i x)" for i x
  proof -
    have "(\<lambda>a b. daemon_step A a b \<and> (agent_step A)\<^sup>*\<^sup>* a b)\<^sup>*\<^sup>* x (during i x)" using synced(1) by simp
    then show ?thesis by (induction rule: rtranclp_induct) auto
  qed
  then show ?case using synced(2) by (rule sync_steps)
next
  case (asked version Q busy r en rep en1)
  then show ?case using api_Handler_steps by blast
next
  case (elsewhere en1 en)
  then show ?case by (auto intro: world)
next
  case (restarted en s1 f1)
  then show ?case by (auto intro: agent_step.restarted)
qed

lemma daemon_steps_agent: "(daemon_step A)\<^sup>*\<^sup>* en en1 \<Longrightarrow> (agent_step A)\<^sup>*\<^sup>* en en1"
  by (induction rule: rtranclp_induct) (auto dest: daemon_step_agent)

section \<open>From power-on to any later moment\<close>

lemma OpenStore_ok:
  assumes "OpenStore L dir E s0 f = (None, s, f1)"
  shows "\<exists>f0. load L dir (oe_select E) (fresh_store s0) f0 = (None, s, f1)"
  using assms by (auto simp: OpenStore_def Let_def split: prod.splits option.splits if_splits)

lemma load_valid:
  assumes "load L dir sql (fresh_store s0) f0 = (None, s, f1)"
  shows "journal_ok L (st_data s) \<and> \<not> st_poisoned s"
  using assms
  by (auto simp: load_def load_row_def persist_def fresh_store_def Let_def validateDatabase_None [symmetric]
      split: sum.splits option.splits if_splits prod.splits persist_outcome.splits)
    (simp_all add: validateDatabase_None)

lemma run_start_parts:
  assumes "run_start L E config simListen s0 dev f = Inr dm"
  shows "Validate (de_parse E) (dm_Config dm) = None"
    "\<exists>f1 f2. OpenStore L (cfg_StateDir (dm_Config dm)) (de_open E) s0 f1 = (None, dm_store dm, f2)"
    "\<exists>f2. start_fleet (de_tls E) (dm_Config dm) f2 = Inr (dm_fleet dm)"
    "\<exists>f2. start_listener E (dm_Config dm) simListen f2 = (None, dm_fs dm)"
  using assms by (fastforce simp: run_start_def split: sum.splits option.splits prod.splits)+

definition sample_dec_Config :: "Config decoder" where
  "sample_dec_Config b = (if b = ''cfg'' then Inr (sample_valid_config, []) else Inl (Err ''decode''))"

definition sample_env :: "simulator daemon_env" where
  "sample_env = \<lparr>de_dec_Config = sample_dec_Config, de_parse = no_urls,
     de_open = \<lparr>oe_mode = 448, oe_lock_file = None, oe_flock = None, oe_sql_open = None, oe_migrate = None, oe_select = None\<rparr>,
     de_tls = \<lparr>tls_SystemPool = True, tls_AppendPEM = (\<lambda>_. False), tls_LoadKeyPair = (\<lambda>_ _. Inr [])\<rparr>,
     de_backend = (\<lambda>c d. (None, d)), de_SplitHost = (\<lambda>_. None), de_tcp = None, de_sockets = sample_sockets\<rparr>"

definition sample_boot_fs :: fs where
  "sample_boot_fs = sample_empty_fs\<lparr>fs_nodes := [([''c''], RegFile ''cfg''), ([''s''], Directory)]\<rparr>"

definition sample_started :: "simulator daemon" where
  "sample_started = (case run_start sample_lib sample_env ''/c'' [] sample_store sample_sim sample_boot_fs of Inr dm \<Rightarrow> dm)"

lemma sample_starts: "run_start sample_lib sample_env ''/c'' [] sample_store sample_sim sample_boot_fs = Inr sample_started"
proof -
  have "is_ok (run_start sample_lib sample_env ''/c'' [] sample_store sample_sim sample_boot_fs)" by code_simp
  then show ?thesis by (auto simp: is_ok_iff sample_started_def)
qed

text \<open>
  C33. The agent only starts in order: when \<open>run\<close> gets as far as serving, the configuration passed
  every check, the journal it loaded is valid and writable, the TCP listener is only used with
  the simulator on the loopback address, and there is a fleet client exactly when an address is
  configured, with a token when a token file is.
\<close>

theorem startup_validated:
  assumes "run_start L E config simListen s0 dev f = Inr dm"
  shows "Validate (de_parse E) (dm_Config dm) = None \<and> journal_ok L (st_data (dm_store dm)) \<and> \<not> st_poisoned (dm_store dm)
    \<and> (simListen \<noteq> [] \<longrightarrow> cfg_Backend (dm_Config dm) = ''simulator'' \<and> de_SplitHost E simListen = Some ''127.0.0.1'')
    \<and> (dm_fleet dm = None \<longleftrightarrow> cfg_FleetURL (dm_Config dm) = [])
    \<and> (\<forall>F. dm_fleet dm = Some F \<longrightarrow> cfg_FleetTokenFile (dm_Config dm) \<noteq> [] \<longrightarrow> fl_token F \<noteq> [])"
proof -
  note p = run_start_parts [OF assms]
  have "journal_ok L (st_data (dm_store dm)) \<and> \<not> st_poisoned (dm_store dm)"
    using p(2) OpenStore_ok load_valid by metis
  moreover have "simListen \<noteq> [] \<longrightarrow> cfg_Backend (dm_Config dm) = ''simulator'' \<and> de_SplitHost E simListen = Some ''127.0.0.1''"
    using p(4) by (auto simp: start_listener_def split: if_splits)
  moreover have "dm_fleet dm = None \<longleftrightarrow> cfg_FleetURL (dm_Config dm) = []"
    using p(3) by (cases "dm_fleet dm") (auto simp: start_fleet_def split: if_splits sum.splits)
  moreover have "fl_token F \<noteq> []" if "dm_fleet dm = Some F" "cfg_FleetTokenFile (dm_Config dm) \<noteq> []" for F
    using p(3) that by (auto simp: start_fleet_def NewFleet_def Let_def split: if_splits sum.splits)
  ultimately show ?thesis using p(1) by blast
qed

theorem startup_validated_witness:
  "Validate no_urls (dm_Config sample_started) = None \<and> journal_ok sample_lib (st_data (dm_store sample_started))"
  using startup_validated [OF sample_starts] by (simp add: sample_env_def)



end
