(* ===== verification/OTA_Rate.thy ===== *)
theory OTA_Rate
  imports OTA_Lib
begin

text \<open>
  The bandwidth limit of downloads (\<open>bpsReader\<close> in \<open>internal/ota/download.go\<close>), a reader around the body of a response that sleeps after
  a read that came too early. The clock is explicit: a read of the body takes some time, and a sleep takes at least as long as
  asked. \<open>need\<close> is the duration that the source computes in floating point from the bytes sent and the rate.
\<close>

section \<open>The reader\<close>

record bpsReader =
  br_bps :: int
  br_sent :: int
  br_t0 :: time

definition new_bpsReader :: "int \<Rightarrow> bpsReader" where
  "new_bpsReader bps = \<lparr>br_bps = bps, br_sent = 0, br_t0 = 0\<rparr>"

text \<open>A reader is asked for at most \<open>n\<close> bytes and returns some, perhaps with an error.\<close>

type_synonym 'r reader = "nat \<Rightarrow> 'r \<Rightarrow> (bytes \<times> error option) \<times> 'r"

text \<open>The state of one \<open>Read\<close>: the limiter, the body and the clock. \<open>took\<close> is the time the inner read takes, \<open>over\<close> what a sleep takes beyond the time asked for.\<close>

definition ask_size :: "bpsReader \<Rightarrow> nat \<Rightarrow> nat" where
  "ask_size b n = (if br_bps b > 0 \<and> int n > br_bps b then nat (br_bps b) else n)"

definition bps_wait :: "(int \<Rightarrow> int \<Rightarrow> duration) \<Rightarrow> bpsReader \<Rightarrow> time \<Rightarrow> duration" where
  "bps_wait need b now = (if br_bps b > 0 \<and> br_sent b > 0 then max 0 (need (br_sent b) (br_bps b) - (now - br_t0 b)) else 0)"

definition bps_Read ::
  "(int \<Rightarrow> int \<Rightarrow> duration) \<Rightarrow> 'r reader \<Rightarrow> nat \<Rightarrow> nat \<Rightarrow> nat \<Rightarrow> bpsReader \<Rightarrow> 'r \<Rightarrow> time \<Rightarrow> (bytes \<times> error option) \<times> bpsReader \<times> 'r \<times> time" where
  "bps_Read need rd n took over b r now =
     (let b0 = (if br_t0 b = 0 then b\<lparr>br_t0 := now\<rparr> else b) in
      case rd (ask_size b0 n) r of ((data, eo), r1) \<Rightarrow>
        (let b1 = b0\<lparr>br_sent := br_sent b0 + int (length data)\<rparr>;
             now1 = now + int took;
             wait = bps_wait need b1 now1
         in ((data, eo), b1, r1, if wait > 0 then now1 + wait + int over else now1)))"

text \<open>A sequence of reads, as \<open>io.Copy\<close> makes them: each with a buffer size and two delays. It ends at the first error.\<close>

fun bps_reads ::
  "(int \<Rightarrow> int \<Rightarrow> duration) \<Rightarrow> 'r reader \<Rightarrow> (nat \<times> nat \<times> nat) list \<Rightarrow> bpsReader \<Rightarrow> 'r \<Rightarrow> time \<Rightarrow> bytes \<times> error option \<times> bpsReader \<times> 'r \<times> time" where
  "bps_reads need rd [] b r now = ([], None, b, r, now)"
| "bps_reads need rd ((n, took, over) # qs) b r now =
     (case bps_Read need rd n took over b r now of
        ((data, Some e), b1, r1, now1) \<Rightarrow> (data, Some e, b1, r1, now1)
      | ((data, None), b1, r1, now1) \<Rightarrow> (case bps_reads need rd qs b1 r1 now1 of (rest, eo, b2, r2, now2) \<Rightarrow> (data @ rest, eo, b2, r2, now2)))"

section \<open>The limit holds\<close>

definition within_rate :: "(int \<Rightarrow> int \<Rightarrow> duration) \<Rightarrow> bpsReader \<Rightarrow> time \<Rightarrow> bool" where
  "within_rate need b now \<longleftrightarrow> 0 \<le> br_sent b \<and> (br_sent b > 0 \<longrightarrow> br_t0 b \<noteq> 0 \<and> need (br_sent b) (br_bps b) \<le> now - br_t0 b)"

lemma bps_Read_within:
  assumes "bps_Read need rd n took over b r now = ((data, eo), b1, r1, now1)" "within_rate need b now" "br_bps b > 0" "now > 0"
  shows "within_rate need b1 now1 \<and> br_bps b1 = br_bps b \<and> now \<le> now1 \<and> br_sent b1 = br_sent b + int (length data)
    \<and> br_t0 b1 = (if br_t0 b = 0 then now else br_t0 b)"
  using assms by (auto simp: bps_Read_def bps_wait_def within_rate_def Let_def split: prod.splits if_splits)

lemma bps_reads_within:
  assumes "bps_reads need rd qs b r now = (data, eo, b1, r1, now1)" "within_rate need b now" "br_bps b > 0" "now > 0"
  shows "within_rate need b1 now1 \<and> br_bps b1 = br_bps b \<and> now \<le> now1 \<and> br_sent b1 = br_sent b + int (length data)
    \<and> (qs \<noteq> [] \<longrightarrow> br_t0 b1 = (if br_t0 b = 0 then now else br_t0 b))"
  using assms
proof (induction need rd qs b r now arbitrary: data rule: bps_reads.induct)
  case (2 need rd n took over qs b r now)
  obtain d0 e0 b0 r0 now0 where rd: "bps_Read need rd n took over b r now = ((d0, e0), b0, r0, now0)" by (metis prod.exhaust)
  note first = bps_Read_within [OF rd 2(3-5)]
  show ?case
  proof (cases e0)
    case None
    obtain d2 where rest: "bps_reads need rd qs b0 r0 now0 = (d2, eo, b1, r1, now1)" "data = d0 @ d2"
      using 2(2) rd None by (auto split: prod.splits)
    have "now0 > 0" "br_t0 b0 \<noteq> 0" using first 2(5) by auto
    with 2(1) [OF rd [symmetric] refl None refl refl rest(1)] first 2(4) rest(2) show ?thesis
      by (cases "qs = []") (use rest(1) in auto)
  qed (use 2(2) rd first in auto)
qed simp


text \<open>The duration without rounding errors, cut to whole nanoseconds.\<close>

definition exact_need :: "int \<Rightarrow> int \<Rightarrow> duration" where
  "exact_need sent bps = sent * 1000000000 div bps"

fun sample_body :: "bytes reader" where
  "sample_body n r = ((take n r, if r = [] then Some (Err ''EOF'') else None), drop n r)"


end
