(* ===== verification/OTA_Measure.thy ===== *)
theory OTA_Measure
  imports OTA_Commit OTA_Relay
begin

text \<open>
  The measurement script (\<open>scripts/measure/main.go\<close>) runs the real engine on the simulator and the real relay, and reports what it
  saw. Modelled are the device it builds, the loop that steps the engine until a state is reached, the install, rollback and recovery
  measurements, and the relay measurement with its hundred clients. Wall-clock times, memory and the description of the host are left out.
\<close>

section \<open>The device\<close>

definition measure_config :: "Config \<Rightarrow> string \<Rightarrow> string \<Rightarrow> string \<Rightarrow> string \<Rightarrow> Config" where
  "measure_config zero i dir pub64 host = zero\<lparr>cfg_DeviceID := i, cfg_Compatible := ''measure-board'', cfg_StateDir := dir,
     cfg_Socket := dir @ ''/agent.sock'', cfg_Backend := ''simulator'', cfg_TrustKeys := [(''measure'', pub64)], cfg_DownloadHosts := [host],
     cfg_MaxArtifactBytes := 8388608, cfg_HealthTimeoutSeconds := 1, cfg_HealthStableSeconds := 0\<rparr>"

definition zero_Config :: Config where
  "zero_Config = \<lparr>cfg_DeviceID = [], cfg_Compatible = [], cfg_StateDir = [], cfg_Socket = [], cfg_Backend = [], cfg_AllowDeviceWrites = False,
     cfg_TrustKeys = [], cfg_DownloadHosts = [], cfg_MaxArtifactBytes = 0, cfg_ReserveBytes = 0, cfg_HealthTimeoutSeconds = 0,
     cfg_HealthStableSeconds = 0, cfg_Checks = [], cfg_Capabilities = [], cfg_BandwidthBytesPerSec = 0, cfg_DownloadJitterSeconds = 0,
     cfg_DownloadWindowStart = [], cfg_DownloadWindowEnd = [], cfg_LocalMediaDir = [], cfg_AllowAdaptive = False, cfg_OTLPEndpoint = [],
     cfg_OTLPTokenFile = [], cfg_RelayURL = [], cfg_RelayTokenFile = [], cfg_TrustDir = [], cfg_RootSHA256 = [], cfg_RequireSBOMSignature = False,
     cfg_FleetURL = [], cfg_FleetTokenFile = [], cfg_FleetCA = [], cfg_FleetCert = [], cfg_FleetKey = []\<rparr>"

definition measure_release :: "Config \<Rightarrow> string \<Rightarrow> u64 \<Rightarrow> string \<Rightarrow> string \<Rightarrow> string \<Rightarrow> bytes \<Rightarrow> time \<Rightarrow> Release" where
  "measure_release c i seq version server digest payload now =
     \<lparr>rel_Schema = 1, rel_ID = i, rel_Sequence = seq, rel_Compatible = cfg_Compatible c, rel_Backend = cfg_Backend c, rel_Version = version,
      rel_Expires = now + seconds 3600,
      rel_Artifact = \<lparr>art_URL = server @ ''/os.raucb'', art_SHA256 = digest, art_Size = int (length payload)\<rparr>,
      rel_SBOMSHA256 = [], rel_SBOM = zero_Artifact, rel_Targets = [], rel_Adaptive = False, rel_RequiresMeasuredBoot = False,
      rel_SBOMKeyID = [], rel_SBOMSignature = []\<rparr>"

definition measure_assignment :: "Config \<Rightarrow> string \<Rightarrow> Envelope \<Rightarrow> time \<Rightarrow> Assignment" where
  "measure_assignment c i env now =
     \<lparr>asg_JobID = ''job-'' @ i, asg_DeviceID = cfg_DeviceID c, asg_Release = env, asg_NotBefore = now - seconds 60,
      asg_Deadline = now + seconds 1800, asg_AutoReboot = True, asg_CampaignID = []\<rparr>"

text \<open>
  What \<open>newDevice\<close> takes from outside: the library, the key pair with the encoded public key, the test server's address, \<open>url.Parse\<close>, the
  answers to opening the journal, and the rest of the world that the engine sees.
\<close>

record measure_env =
  me_lib :: lib
  me_keys :: "(string \<times> bytes) result"
  me_server :: string
  me_parse :: url_parser
  me_open :: open_env
  me_store :: store
  me_sim :: simulator
  me_world :: "simulator engine"

definition newDevice ::
  "measure_env \<Rightarrow> bytes \<Rightarrow> string \<Rightarrow> string \<Rightarrow> string \<Rightarrow> u64 \<Rightarrow> (probes \<Rightarrow> fs \<Rightarrow> error option) option \<Rightarrow> time \<Rightarrow> fs \<Rightarrow> (simulator agent \<times> simulator engine \<times> Assignment) result" where
  "newDevice M payload dir i version seq health now f =
     (case me_keys M of Inl e \<Rightarrow> Inl e
      | Inr (pub64, priv) \<Rightarrow> (case me_parse M (me_server M) of None \<Rightarrow> Inl (Err ''parse URL'')
      | Some u \<Rightarrow> (let c = measure_config zero_Config i dir pub64 (url_Host u); L = me_lib M in
          case Validate (me_parse M) c of Some e \<Rightarrow> Inl e
          | None \<Rightarrow> (case OpenStore L dir (me_open M) (me_store M) f of (Some e, _, _) \<Rightarrow> Inl e
          | (None, s, f1) \<Rightarrow> (case NewSimulator (cfg_Compatible c) (me_sim M) of (Some e, _) \<Rightarrow> Inl e
          | (None, sim) \<Rightarrow> (case SignRelease L (measure_release c i seq version (me_server M) (lib_sha256 L payload) payload now) ''measure'' priv of
              Inl e \<Rightarrow> Inl e
            | Inr env \<Rightarrow> Inr (let A = NewEngine L (\<lambda>_. 0) c (Simulator L) in (case health of None \<Rightarrow> A | Some h \<Rightarrow> A\<lparr>ag_Health := h\<rparr>),
                (me_world M)\<lparr>en_store := s, en_fs := f1, en_dev := sim, en_healthySince := 0, en_stats := zero_Stats, en_queue := []\<rparr>,
                measure_assignment c i env now)))))))"

section \<open>Stepping until a state is reached\<close>

text \<open>\<open>n\<close> counts how often the loop finds its deadline still ahead.\<close>

fun until :: "'b agent \<Rightarrow> JobState \<Rightarrow> nat \<Rightarrow> nat \<Rightarrow> 'b engine \<Rightarrow> (nat \<times> error option) \<times> 'b engine" where
  "until A want 0 steps en = ((steps, Some (Err (''timed out waiting for '' @ state_text want))), en)"
| "until A want (Suc n) steps en =
     (if list_ex (\<lambda>(i, j). job_State j = want) (db_Jobs (View (en_store en))) then ((steps, None), en)
      else case Step A en of (Some e, en1) \<Rightarrow> ((Suc steps, Some e), en1) | (None, en1) \<Rightarrow> until A want n (Suc steps) en1)"

text \<open>Bytes of regular files below a directory.\<close>

definition dirBytes :: "path \<Rightarrow> fs \<Rightarrow> int" where
  "dirBytes root f = sum_list (map (\<lambda>(p, n). case n of RegFile b \<Rightarrow> if take (length root) p = root then int (length b) else 0 | _ \<Rightarrow> 0) (fs_nodes f))"

record install_report =
  ir_artifact_bytes :: int
  ir_steps :: nat
  ir_final_state :: string
  ir_booted_slot :: string
  ir_state_dir_bytes :: int
  ir_cache_bytes :: int
  ir_health_stable_seconds :: int

definition measureInstall :: "'b agent \<Rightarrow> bytes \<Rightarrow> Assignment \<Rightarrow> nat \<Rightarrow> 'b engine \<Rightarrow> install_report result \<times> 'b engine" where
  "measureInstall A payload asg limit en =
     (case Submit A False asg en of (Inl e, en1) \<Rightarrow> (Inl e, en1)
      | (Inr j, en1) \<Rightarrow> (case until A Committed limit 0 en1 of
          ((steps, Some e), en2) \<Rightarrow> (Inl e, en2)
        | ((steps, None), en2) \<Rightarrow> (case Status A en2 of (Inl e, en3) \<Rightarrow> (Inl e, en3)
          | (Inr st, en3) \<Rightarrow> (Inr \<lparr>ir_artifact_bytes = int (length payload), ir_steps = steps, ir_final_state = state_text Committed,
              ir_booted_slot = ds_Booted st, ir_state_dir_bytes = dirBytes (abs_path (sdir A)) (en_fs en3),
              ir_cache_bytes = dirBytes (Join (abs_path (sdir A)) ''cache'') (en_fs en3),
              ir_health_stable_seconds = cfg_HealthStableSeconds (ag_cfg A)\<rparr>, en3))))"

record rollback_report =
  rb_steps :: nat
  rb_final_state :: string
  rb_booted_slot :: string
  rb_health_timeout_seconds :: int

text \<open>The rollback measurement runs a device whose health function always fails.\<close>

definition unhealthy :: "probes \<Rightarrow> fs \<Rightarrow> error option" where
  "unhealthy P f = Some (Err ''device unhealthy'')"

definition measureRollback :: "'b agent \<Rightarrow> Assignment \<Rightarrow> nat \<Rightarrow> 'b engine \<Rightarrow> rollback_report result \<times> 'b engine" where
  "measureRollback A asg limit en =
     (case Submit A False asg en of (Inl e, en1) \<Rightarrow> (Inl e, en1)
      | (Inr j, en1) \<Rightarrow> (case until A RolledBack limit 0 en1 of
          ((steps, Some e), en2) \<Rightarrow> (Inl e, en2)
        | ((steps, None), en2) \<Rightarrow> (case Status A en2 of (Inl e, en3) \<Rightarrow> (Inl e, en3)
          | (Inr st, en3) \<Rightarrow> (Inr \<lparr>rb_steps = steps, rb_final_state = state_text RolledBack, rb_booted_slot = ds_Booted st,
              rb_health_timeout_seconds = cfg_HealthTimeoutSeconds (ag_cfg A)\<rparr>, en3))))"

text \<open>\<open>fail\<close> sets the simulator's \<open>FailInstall\<close>.\<close>

definition measureRecoverAbort ::
  "(bool \<Rightarrow> 'b engine \<Rightarrow> 'b engine) \<Rightarrow> 'b agent \<Rightarrow> Assignment \<Rightarrow> nat \<Rightarrow> 'b engine \<Rightarrow> (nat \<times> string) result \<times> 'b engine" where
  "measureRecoverAbort fail A asg limit en =
     (case Submit A False asg (fail True en) of (Inl e, en1) \<Rightarrow> (Inl e, en1)
      | (Inr j, en1) \<Rightarrow> (case until A NeedsRecovery limit 0 en1 of
          ((steps, Some e), en2) \<Rightarrow> (Inl e, en2)
        | ((steps, None), en2) \<Rightarrow> (case RecoverAbort A False (fail False en2) of (Some e, en3) \<Rightarrow> (Inl e, en3)
          | (None, en3) \<Rightarrow> (Inr (steps, case map_of (db_Jobs (View (en_store en3))) (asg_JobID asg) of None \<Rightarrow> [] | Some j \<Rightarrow> state_text (job_State j)), en3))))"

definition set_FailInstall :: "bool \<Rightarrow> simulator engine \<Rightarrow> simulator engine" where
  "set_FailInstall b en = en\<lparr>en_dev := (en_dev en)\<lparr>sim_FailInstall := b\<rparr>\<rparr>"

lemma until_reaches:
  "until A want n k en = ((m, None), en1) \<Longrightarrow> (\<exists>i j. (i, j) \<in> set (db_Jobs (data_of en1)) \<and> job_State j = want) \<and> m \<le> k + n
    \<and> (agent_step A)\<^sup>*\<^sup>* en en1"
proof (induction A want n k en rule: until.induct)
  case (2 A want n k en)
  show ?case
  proof (cases "list_ex (\<lambda>(i, j). job_State j = want) (db_Jobs (View (en_store en)))")
    case True
    with 2(2) show ?thesis by (auto simp: list_ex_iff View_def)
  next
    case False
    obtain en2 where s: "Step A en = (None, en2)" "until A want n (Suc k) en2 = ((m, None), en1)"
      using 2(2) False by (auto split: prod.splits option.splits)
    have "agent_step A en en2" using s(1) by (rule stepped)
    with 2(1) [OF False s(1) [symmetric] refl s(2)] show ?thesis by (auto intro: converse_rtranclp_into_rtranclp)
  qed
qed simp

lemma measured_run:
  assumes "reachable A en" "Submit A False asg en = (Inr j, en0)" "until A want limit 0 en0 = ((steps, None), en2)" "Status A en2 = (Inr st, en1)"
  shows "reachable A en1 \<and> (agent_step A)\<^sup>*\<^sup>* en en1 \<and> (\<exists>i j. (i, j) \<in> set (db_Jobs (data_of en1)) \<and> job_State j = want) \<and> steps \<le> limit"
proof -
  note u = until_reaches [OF assms(3)]
  have store: "en_store en1 = en_store en2" using assms(4) by (auto simp: Status_def split: prod.splits)
  have run: "(agent_step A)\<^sup>*\<^sup>* en en1"
    using submitted [OF assms(2)] u world [OF store] by (meson converse_rtranclp_into_rtranclp rtranclp.rtrancl_into_rtrancl)
  then have "reachable A en1" using assms(1) by (induction rule: rtranclp_induct) (auto intro: onward)
  with run u store show ?thesis by simp
qed

text \<open>
  A reported installation is one: when the install measurement returns a report, the engine got there by its own handlers
  from the state it started in, a job in its journal is committed, no more steps were counted than the limit
  allows, and the report names the slot the device has booted.
\<close>

theorem measured_install_committed:
  assumes "reachable A en" "measureInstall A payload asg limit en = (Inr rep, en1)"
  shows "reachable A en1 \<and> (\<exists>i j. (i, j) \<in> set (db_Jobs (data_of en1)) \<and> job_State j = Committed) \<and> ir_steps rep \<le> limit
    \<and> (\<exists>st en0. Status A en0 = (Inr st, en1) \<and> ir_booted_slot rep = ds_Booted st)"
proof -
  obtain j en0 en2 st where s: "Submit A False asg en = (Inr j, en0)" "until A Committed limit 0 en0 = ((ir_steps rep, None), en2)"
      "Status A en2 = (Inr st, en1)" "ir_booted_slot rep = ds_Booted st"
    using assms(2) by (auto simp: measureInstall_def split: sum.splits prod.splits option.splits)
  from measured_run [OF assms(1) s(1-3)] s(3,4) show ?thesis by auto
qed

text \<open>The whole cycle on the simulator: accepted, downloaded, verified, installed, rebooted, healthy and committed in seven steps.\<close>

theorem measured_install_committed_witness:
  "\<exists>rep en1. measureInstall sample_agent ''new'' sample_assignment 20 sample_engine = (Inr rep, en1) \<and> ir_steps rep = 7
     \<and> ir_booted_slot rep = ''rootfs.1'' \<and> reachable sample_agent en1 \<and> (\<exists>i j. (i, j) \<in> set (db_Jobs (data_of en1)) \<and> job_State j = Committed)"
proof -
  let ?m = "measureInstall sample_agent ''new'' sample_assignment 20 sample_engine"
  have "(case fst ?m of Inr rep \<Rightarrow> ir_steps rep = 7 \<and> ir_booted_slot rep = ''rootfs.1'' | Inl e \<Rightarrow> False)" by code_simp
  then obtain rep where "fst ?m = Inr rep" "ir_steps rep = 7" "ir_booted_slot rep = ''rootfs.1''" by (auto split: sum.splits)
  moreover from this obtain en1 where m: "?m = (Inr rep, en1)" by (metis prod.collapse)
  ultimately show ?thesis using measured_install_committed [OF sample_reachable m] by blast
qed

text \<open>
  A reported rollback is one: when the rollback measurement of an unhealthy device returns a report, the engine got there by its own
  handlers, a job in its journal is rolled back, and no job became \<open>COMMITTING\<close> on the way.
\<close>

theorem measured_rollback:
  assumes "reachable A en" "ag_Health A = unhealthy" "free_of Committing en" "measureRollback A asg limit en = (Inr rep, en1)"
  shows "reachable A en1 \<and> (\<exists>i j. (i, j) \<in> set (db_Jobs (data_of en1)) \<and> job_State j = RolledBack) \<and> free_of Committing en1
    \<and> rb_steps rep \<le> limit \<and> (\<exists>st en0. Status A en0 = (Inr st, en1) \<and> rb_booted_slot rep = ds_Booted st)"
proof -
  obtain j en0 en2 st where s: "Submit A False asg en = (Inr j, en0)" "until A RolledBack limit 0 en0 = ((rb_steps rep, None), en2)"
      "Status A en2 = (Inr st, en1)" "rb_booted_slot rep = ds_Booted st"
    using assms(4) by (auto simp: measureRollback_def split: sum.splits prod.splits option.splits)
  note r = measured_run [OF assms(1) s(1-3)]
  with unhealthy_free [of A en en1] reachable_store_ok [OF assms(1)] assms(2,3) s(3,4) show ?thesis by (auto simp: unhealthy_def)
qed

text \<open>On the simulator: the clock passes the health deadline after the fourteenth reading, and eight steps after the start the old slot runs again.\<close>

theorem measured_rollback_witness:
  "\<exists>rep en1. measureRollback (sample_agent\<lparr>ag_Health := unhealthy\<rparr>) sample_assignment 20
       (sample_engine\<lparr>en_clock := \<lambda>k. if k < 14 then 10 + int k else seconds 100\<rparr>) = (Inr rep, en1)
     \<and> rb_steps rep = 8 \<and> rb_booted_slot rep = ''rootfs.0'' \<and> (\<exists>i j. (i, j) \<in> set (db_Jobs (data_of en1)) \<and> job_State j = RolledBack)"
proof -
  let ?A = "sample_agent\<lparr>ag_Health := unhealthy\<rparr>" and ?en = "sample_engine\<lparr>en_clock := \<lambda>k. if k < 14 then 10 + int k else seconds 100\<rparr>"
  let ?m = "measureRollback ?A sample_assignment 20 ?en"
  have "(case fst ?m of Inr rep \<Rightarrow> rb_steps rep = 8 \<and> rb_booted_slot rep = ''rootfs.0'' | Inl e \<Rightarrow> False)" by code_simp
  then obtain rep where rep: "fst ?m = Inr rep" "rb_steps rep = 8" "rb_booted_slot rep = ''rootfs.0''" by (auto split: sum.splits)
  then obtain en1 where m: "?m = (Inr rep, en1)" by (metis prod.collapse)
  have "reachable ?A ?en" by (rule provisioned) (simp_all add: sample_engine_def sample_store_def)
  moreover have "free_of Committing ?en" by (simp add: free_of_def sample_engine_def sample_store_def durable_def empty_Database_def)
  ultimately show ?thesis using measured_rollback [OF _ _ _ m] m rep by auto
qed

text \<open>
  The recovery measurement on the simulator: an installation that fails without a result needs recovery after three steps, and the operator's abort
  ends the job.
\<close>

theorem measured_recovery:
  "fst (measureRecoverAbort set_FailInstall sample_agent sample_assignment 20 sample_engine) = Inr (3, ''failed'')"
  by code_simp

section \<open>One fetch for a hundred clients\<close>

text \<open>
  The clients run at once, but only one at a time holds the relay's fill lock. They are taken in the order in which they are done; an early client
  looked for the file before anybody had filled the cache, and looks again once it has the lock.
\<close>

fun relay_clients :: "lib \<Rightarrow> request \<Rightarrow> fs \<Rightarrow> bool list \<Rightarrow> Server \<Rightarrow> fs \<Rightarrow> reply list \<times> Server \<times> fs" where
  "relay_clients L r f0 [] s f = ([], s, f)"
| "relay_clients L r f0 (early # rest) s f =
     (case (if early then get L s r (\<lambda>_. f) f0 else get L s r id f) of (rep, s1, f1) \<Rightarrow>
        (case relay_clients L r f0 rest s1 f1 of (reps, s2, f2) \<Rightarrow> (rep # reps, s2, f2)))"

definition reply_bytes :: "reply \<Rightarrow> int result" where
  "reply_bytes rep = (case rep of Reply status body \<Rightarrow> if status = 200 then Inr (int (length body)) else Inl (Err ''status''))"

fun all_bytes :: "reply list \<Rightarrow> int result" where
  "all_bytes [] = Inr 0"
| "all_bytes (rep # reps) = (case reply_bytes rep of Inl e \<Rightarrow> Inl e | Inr n \<Rightarrow> (case all_bytes reps of Inl e \<Rightarrow> Inl e | Inr m \<Rightarrow> Inr (n + m)))"

record relay_report =
  rr_clients :: nat
  rr_upstream_fetches :: int
  rr_upstream_bytes :: int
  rr_client_bytes :: int
  rr_wan_bytes_not_sent :: int

definition measure_relay_server :: "Server \<Rightarrow> string \<Rightarrow> string \<Rightarrow> bytes \<Rightarrow> Server" where
  "measure_relay_server env dir digest body = env\<lparr>sv_Dir := dir, sv_Token := ''measure-token'',
     sv_Upstream := Some (\<lambda>sha. if sha \<noteq> digest then Inl (Err ''digest'') else Inr (body, False)), sv_OriginHosts := [], sv_fetches := 0\<rparr>"

definition measure_request :: "string \<Rightarrow> request" where
  "measure_request digest = \<lparr>rq_Authorization = ''Bearer measure-token'', rq_sha256 = digest, rq_ArtifactUrl = []\<rparr>"

text \<open>The measurement fails unless every client was served, so every fetch it counts was read to its end.\<close>

definition measureRelay :: "lib \<Rightarrow> Server \<Rightarrow> string \<Rightarrow> bytes \<Rightarrow> bool list \<Rightarrow> fs \<Rightarrow> relay_report result" where
  "measureRelay L env dir body early f =
     (let digest = lib_sha256 L body in
      case relay_clients L (measure_request digest) f early (measure_relay_server env dir digest body) f of (reps, s, f1) \<Rightarrow>
        (case all_bytes reps of Inl e \<Rightarrow> Inl e
         | Inr n \<Rightarrow> Inr \<lparr>rr_clients = length early, rr_upstream_fetches = sv_fetches s, rr_upstream_bytes = sv_fetches s * int (length body),
             rr_client_bytes = n, rr_wan_bytes_not_sent = n - sv_fetches s * int (length body)\<rparr>))"

lemma store_keeps_faults:
  "os_Rename p q f = (eo, f1) \<Longrightarrow> fault f1 x = fault f x" "os_Remove p f = (eo, f1) \<Longrightarrow> fault f1 x = fault f x"
  "copy_stream d body f = (eo, f1) \<Longrightarrow> fault f1 x = fault f x"
  by (auto simp: os_Rename_def os_Remove_def copy_stream_def split: option.splits node.splits if_splits)

lemma fill_upstream_faults:
  assumes "fill_upstream L up s p digest f = (rep, s1, f1)"
  shows "fault f1 x = fault f x"
  using assms store_keeps_faults
  by (auto simp: fill_upstream_def Let_def split: sum.splits prod.splits option.splits if_splits) (metis prod.collapse)+

lemma filled_then_served:
  assumes "ServeFile f1 (Join (abs_path (sv_Dir s)) (rq_sha256 r)) = Reply 200 b" "fault f1 (IoStat (Join (abs_path (sv_Dir s)) (rq_sha256 r))) = None"
    and "authorize s r" "validDigest (rq_sha256 r)" "os_Stat f0 (Join (abs_path (sv_Dir s)) (rq_sha256 r)) \<noteq> None"
  shows "get L s r id f1 = (Reply 200 b, s, f1)" "get L s r (\<lambda>_. f1) f0 = (Reply 200 b, s, f1)"
proof -
  have "os_Stat f1 (Join (abs_path (sv_Dir s)) (rq_sha256 r)) = None" using assms(1,2)
    by (auto simp: ServeFile_def os_ReadFile_def os_Stat_def split: sum.splits option.splits node.splits if_splits)
  then show "get L s r id f1 = (Reply 200 b, s, f1)" "get L s r (\<lambda>_. f1) f0 = (Reply 200 b, s, f1)"
    using assms by (auto simp: get_def Let_def)
qed

lemma relay_clients_served:
  assumes "get L s r id f1 = (Reply 200 b, s, f1)" "get L s r (\<lambda>_. f1) f0 = (Reply 200 b, s, f1)"
  shows "relay_clients L r f0 early s f1 = (replicate (length early) (Reply 200 b), s, f1)"
  using assms by (induction early) auto

lemma all_bytes_replicate: "all_bytes (replicate n (Reply 200 b)) = Inr (int n * int (length b))"
  by (induction n) (simp_all add: reply_bytes_def algebra_simps)

lemma fill_fresh:
  assumes "fill_upstream L up s p digest f = (Reply 200 b, s1, f1)" "node_at f p = None" "node_at f (tmp_path p) = None" "up digest = Inr (body, False)"
  shows "b = body \<and> s1 = noteFetch s \<and> ServeFile f1 p = Reply 200 b"
proof -
  let ?t = "tmp_path p"
  have ne: "?t \<noteq> []" "p \<noteq> []" using assms(2) by (auto simp: tmp_path_def)
  have plain: "node_at f ?t \<noteq> Some (Symlink q)" for q using assms(3) by simp
  obtain d f2 where o: "open_trunc ?t f = Inr d" "copy_stream d (body, False) f = (None, f2)" "os_Rename ?t p f2 = (None, f1)"
      "ServeFile f1 p = Reply 200 b" "s1 = noteFetch s"
    using assms(1,4) by (auto simp: fill_upstream_def http_Error_def Let_def split: sum.splits prod.splits option.splits if_splits)
  have d: "d = ?t" using o(1) follow_plain [OF plain] by (auto simp: open_trunc_def split: option.splits sum.splits node.splits if_splits)
  have f2: "node_at f2 ?t = Some (RegFile body)"
    using o(2) ne by (auto simp: d copy_stream_def node_at_put split: option.splits if_splits)
  then have "node_at f1 p = Some (RegFile body)"
    using o(3) ne by (auto simp: os_Rename_def node_at_put split: option.splits node.splits if_splits)
  then have "os_ReadFile f1 p = Inr x \<Longrightarrow> x = body" for x
    by (auto simp: os_ReadFile_def follow_plain split: option.splits)
  then show ?thesis using o(4,5) by (auto simp: ServeFile_def split: sum.splits if_splits)
qed

lemma noteFetch_same [simp]: "authorize (noteFetch s) r = authorize s r" "sv_Dir (noteFetch s) = sv_Dir s"
  by (simp_all add: authorize_def noteFetch_def split: option.split)

lemma first_client_fills:
  assumes "get L s (measure_request d) id f = (Reply 200 b, s1, f1)" "s = measure_relay_server env dir d body"
    and fresh: "\<And>x. node_at f (abs_path dir @ [x]) = None" and stat: "\<And>p. fault f (IoStat p) = None"
  shows "b = body" "s1 = noteFetch s" "relay_clients L (measure_request d) f rest s1 f1 = (replicate (length rest) (Reply 200 b), s1, f1)"
proof -
  let ?r = "measure_request d" and ?p = "Join (abs_path dir) d"
  let ?up = "\<lambda>sha. if sha \<noteq> d then Inl (Err ''digest'') else Inr (body, False)"
  have dir: "sv_Dir s = dir" "sv_Upstream s = Some ?up" by (simp_all add: assms(2) measure_relay_server_def)
  have r: "rq_sha256 ?r = d" by (simp add: measure_request_def)
  have auth: "authorize s ?r" "validDigest d" using assms(1) by (auto simp: get_def http_Error_def r split: if_splits)
  have p: "?p = abs_path dir @ [d]" using validDigest_plain [OF auth(2)] by simp
  have miss: "os_Stat f ?p = Some ErrNotExist" using fresh [of d] stat by (simp add: os_Stat_def follow_plain p)
  have fill: "fill_upstream L ?up s ?p d f = (Reply 200 b, s1, f1)" using assms(1) auth miss by (simp add: get_def Let_def r dir)
  have "node_at f ?p = None" "node_at f (tmp_path ?p) = None" using fresh by (simp_all add: p tmp_path_def)
  then have f: "b = body" "s1 = noteFetch s" "ServeFile f1 ?p = Reply 200 b" using fill_fresh [OF fill] by auto
  have "fault f1 (IoStat ?p) = None" using fill_upstream_faults [OF fill] stat by simp
  with filled_then_served [of f1 s1 ?r b f L] f(2,3) auth miss
  show "relay_clients L ?r f rest s1 f1 = (replicate (length rest) (Reply 200 b), s1, f1)"
    by (intro relay_clients_served) (simp_all add: r dir)
  show "b = body" "s1 = noteFetch s" by (fact f(1), fact f(2))
qed

text \<open>
  A hundred clients cost one fetch: for any number of clients, in any order of their overlapping requests, a relay measurement in a fresh
  directory that reports at all has seen exactly one upstream fetch, the whole artifact for every client, and so reports as bytes not sent
  over the network the size of the artifact for every client but one.
\<close>

theorem measured_relay_fetches_once:
  assumes "measureRelay L env dir body early f = Inr rep" "early \<noteq> []"
    and fresh: "\<And>x. node_at f (abs_path dir @ [x]) = None" and stat: "\<And>p. fault f (IoStat p) = None"
  shows "rr_upstream_fetches rep = 1 \<and> rr_client_bytes rep = int (length early) * int (length body)
    \<and> rr_wan_bytes_not_sent rep = (int (length early) - 1) * int (length body)"
proof -
  let ?d = "lib_sha256 L body" and ?s = "measure_relay_server env dir (lib_sha256 L body) body"
  let ?r = "measure_request ?d"
  obtain e rest where e: "early = e # rest" using assms(2) by (cases early) auto
  have get1: "(if e then get L ?s ?r (\<lambda>_. f) f else get L ?s ?r id f) = get L ?s ?r id f" by (simp add: get_def Let_def)
  obtain rep1 s1 f1 where g: "get L ?s ?r id f = (rep1, s1, f1)" by (metis prod.exhaust)
  obtain reps s2 f2 n where cl: "relay_clients L ?r f rest s1 f1 = (reps, s2, f2)" "all_bytes (rep1 # reps) = Inr n"
      and rep: "rep = \<lparr>rr_clients = length early, rr_upstream_fetches = sv_fetches s2, rr_upstream_bytes = sv_fetches s2 * int (length body),
             rr_client_bytes = n, rr_wan_bytes_not_sent = n - sv_fetches s2 * int (length body)\<rparr>"
    using assms(1) by (auto simp: measureRelay_def Let_def e get1 g split: prod.splits sum.splits simp del: all_bytes.simps)
  obtain b where b: "rep1 = Reply 200 b" using cl(2) by (cases rep1) (auto simp: reply_bytes_def split: if_splits sum.splits)
  note first = first_client_fills [OF g [unfolded b] refl fresh stat]
  have "s2 = s1" "reps = replicate (length rest) (Reply 200 b)" using cl(1) first(3) by auto
  then have "n = int (length early) * int (length body)" "sv_fetches s2 = 1"
    using cl(2) b first(1,2) by (simp_all add: e all_bytes_replicate reply_bytes_def noteFetch_def measure_relay_server_def algebra_simps)
  then show ?thesis using rep by (simp add: algebra_simps)
qed

theorem measured_relay_fetches_once_witness:
  "\<exists>rep. measureRelay sample_lib sample_relay ''/c'' ''new'' [False, True, True] sample_relay_fs = Inr rep
     \<and> rr_upstream_fetches rep = 1 \<and> rr_wan_bytes_not_sent rep = 6"
proof -
  let ?m = "measureRelay sample_lib sample_relay ''/c'' ''new'' [False, True, True] sample_relay_fs"
  have "is_ok ?m" by code_simp
  then obtain rep where m: "?m = Inr rep" by (auto simp: is_ok_iff)
  have "abs_path ''/c'' = [''c'']" by code_simp
  then have "node_at sample_relay_fs (abs_path ''/c'' @ [x]) = None" for x by (simp add: sample_relay_fs_def node_at_def)
  moreover have "fault sample_relay_fs (IoStat p) = None" for p by (simp add: sample_relay_fs_def fault_def)
  ultimately show ?thesis using measured_relay_fetches_once [OF m] m by simp
qed

end
