(* ===== verification/Spec2Isabelle.thy ===== *)
theory Spec2Isabelle
  imports OTA_Safety OTA_Commit OTA_Cli OTA_Servers OTA_Daemon OTA_Rate OTA_Measure
begin

text \<open>
  Verification of the Zyvor OTA agent (Go, module \<open>github.com/zyvorai/ota\<close>).

  \<^bold>\<open>The program.\<close> An agent on an A/B device receives assignments, each with a signed release, from a
  fleet server or a local operator; it checks them, downloads the artifacts, installs them into
  the inactive slot, reboots, checks health, and commits or rolls back. Its state is a journal in SQLite;
  a crash may happen between any two writes. Beside it run a relay that caches artifacts for a site, a
  reference fleet server, the operator's command-line tool, and a script that measures installs.

  \<^bold>\<open>Theories and sources.\<close> All paths are below \<open>src/internal\<close> unless they start with \<open>cmd\<close> or \<open>scripts\<close>.

  \<^item> \<open>OTA_Prelude\<close>: errors as values (\<open>'a result\<close>), Go maps as association lists, 64-bit words, times as
  nanoseconds; the shared lemmas and the collections \<open>ota_defs\<close>, \<open>ota_frame\<close>.
  \<^item> \<open>OTA_Model\<close>: the structs of \<open>ota/model.go\<close> as records, \<open>State\<close> as a datatype, \<open>Config.Validate\<close> with every check in
  order, the download window and jitter; \<open>OTA_Config\<close>: bounds of the jitter, the window as a cyclic interval.
  \<^item> \<open>OTA_Lib\<close>: what is taken from the standard library as parameters (SHA-256, Ed25519, base64, JSON), \<open>StrictJSON\<close>,
  \<open>strings.TrimSpace\<close>; \<open>OTA_Text\<close>: decimal numbers with their round trip, joining, splitting and repeating; \<open>OTA_Sample\<close>: a
  small concrete instance of the parameters for witnesses.
  \<^item> \<open>OTA_Files\<close>: a file system with paths, links, directories and a fault for every operation, \<open>CheckArtifact\<close>,
  \<open>AtomicWrite\<close>.
  \<^item> \<open>OTA_Verify\<close> (\<open>ota/verify.go\<close>): \<open>VerifyEnvelope\<close> is equivalent to a declarative contract; the dependency check
  is Kahn's algorithm and accepts exactly the closed acyclic target sets; signing round trip.
  \<^item> \<open>OTA_Trust\<close>, \<open>OTA_Supply\<close> (\<open>ota/trustmeta.go\<close>): root rotation, thresholds, snapshot and timestamp, delegations, the
  transparency log; what a passed check implies, and that the log is append-only.
  \<^item> \<open>OTA_Store\<close> (\<open>ota/store.go\<close>): the journal. \<open>persist\<close> may store, not store, or store and report an error; the locale
  \<open>journal\<close> is the interface the engine uses, and its interpretation \<open>store\<close> gives crash consistency.
  \<^item> \<open>OTA_Payload\<close>, \<open>OTA_Health\<close> (\<open>ota/payload.go\<close>, \<open>ota/health.go\<close>): side payloads with undo, local probes.
  \<^item> \<open>OTA_Download\<close>, \<open>OTA_Campaign\<close> (\<open>ota/download.go\<close>, \<open>ota/campaign.go\<close>): every way an artifact reaches the cache.
  \<open>OTA_Rate\<close>: the rate-limited reader \<open>bpsReader\<close> with an explicit clock; no prefix of a download is faster than the limit, and the bytes are unchanged.
  \<^item> \<open>OTA_Backend\<close> (\<open>ota/backend.go\<close>, \<open>ota/rauc.go\<close>): the device as a record of functions; the locale \<open>ab_device\<close> states the
  contract of an A/B device and the simulator interprets it; \<open>OTA_Observe\<close> (\<open>ota/metrics.go\<close>, \<open>ota/trace.go\<close>): counters and spans;
  \<open>OTA_Metrics\<close>: the text of \<open>/metrics\<close> and reading it back; \<open>OTA_Export\<close>: the OTLP exporter, its payload, its bounded channel and the goroutine that
  posts; what the collector gets is a subsequence of the finished spans.
  \<^item> \<open>OTA_Engine\<close> (\<open>ota/engine.go\<close>, \<open>ota/boot.go\<close>): \<open>Submit\<close>, \<open>Step\<close> and every other handler, in state-passing style.
  \<open>OTA_Lifecycle\<close>: every handler only moves jobs along the transition relation. \<open>OTA_Execution\<close>: \<open>agent_step\<close> interleaves
  handlers, the outside world and restarts; invariants by rule induction. \<open>OTA_Safety\<close>: what is handed to the
  device for installation, observed by a backend that records its calls. \<open>OTA_Commit\<close>: what a commit requires, that rollback completes,
  and that a device whose health never passes never commits.
  \<^item> \<open>OTA_FleetRef\<close> (\<open>fleetref/server.go\<close>), \<open>OTA_Fleet\<close> (\<open>ota/fleet.go\<close>): reference server and agent side of the fleet contract; the
  locale \<open>fleet_endpoint\<close> is what the agent expects of a server, interpreted by the reference server over a lossy link.
  \<^item> \<open>OTA_Api\<close> (\<open>ota/api.go\<close>, \<open>otaclient/client.go\<close>): the operator API and its client with retries.
  \<^item> \<open>OTA_Shutdown\<close> (\<open>ListenUnix\<close> in \<open>ota/api.go\<close>, the end of \<open>run\<close> in \<open>cmd/zyvor-otad/main.go\<close>): which path the socket may replace, and the
  shutdown as a step relation whose steps interleave requests, workers and the exporter. \<open>OTA_Daemon\<close> (\<open>cmd/zyvor-otad/main.go\<close>): start and
  goroutines; every run of the daemon is an execution of the agent.
  \<^item> \<open>OTA_Cli\<close> (\<open>cmd/zyvor-ota/main.go\<close>): the whole command \<open>run\<close>: keys, signing, campaigns and the requests to the agent, composed with client and API;
  \<open>OTA_Status\<close> (\<open>cmd/zyvor-ota/statusview.go\<close>): the status page and the alignment of its columns.
  \<^item> \<open>OTA_Relay\<close> (\<open>relay/relay.go\<close>): the relay's cache; \<open>OTA_Servers\<close> (\<open>cmd/zyvor-fleet-ref/main.go\<close>, \<open>cmd/zyvor-relay/main.go\<close>): what the two
  server programs set up before they serve.
  \<^item> \<open>OTA_Measure\<close> (\<open>scripts/measure/main.go\<close>): the script that runs the engine on the simulator and the relay under a hundred clients.

  \<^bold>\<open>State and effects.\<close> \<open>engine\<close> holds journal, files, device, network, clock readings and random draws; a handler is a function
  from it to an error and a new one. The engine's mutex makes handlers atomic; a handler that tries the lock takes the outcome as
  an argument. \<open>Ack\<close> takes only the lock of the store; \<open>ack_commutes\<close> shows that its place between the writes of another handler does
  not matter. \<open>Sync\<close> takes no lock while it waits for the network; what happens meanwhile is an argument.

  \<^bold>\<open>Recursion and bounds.\<close> Loops over lists are structural. \<open>topo_loop\<close>, \<open>ordered_loop\<close> and \<open>compact_loop\<close> have measures, and so do
  the readers of colour sequences. \<open>strip_runes\<close> and
  \<open>deref\<close> count down the length of the text and the 41 link traversals of Linux. \<open>advance_acked\<close> is a partial function, because its counter wraps at
  64 bits; \<open>fleet_post_returns\<close> shows that it returns. \<open>until\<close> of the measurement script takes the number of
  tests that its deadline leaves room for, and the witness shows how many are enough. Sequence numbers and the FNV hash are words of their width; sizes are
  integers, which the validated limits keep far from 64 bits.

  \<^bold>\<open>Not modelled.\<close> SQLite, JSON, cryptography, TLS, HTTP, D-Bus, systemd and the formatting of floating-point numbers are not code of this
  repository and answer through parameters. Parsing of flags, log lines and the delivery of signals are left out; a flag is an argument, and a signal is the step that
  starts the shutdown. Of the measurement script, wall-clock times, memory, the description of the host and the printing of
  the report are left out. Unbounded concurrency inside one handler is not modelled: the code serialises them.
\<close>

end
